(* ===== verification/Prelude.thy ===== *)
theory Prelude
  imports Main "HOL-Library.Word" "HOL-Library.Product_Lexorder" "HOL-Library.Multiset"
begin

section \<open>Prelude: the Rust vocabulary the components share\<close>

text \<open>
  The part of Rust and of its standard library that the modelled crates use, as HOL functions:
  \<^item> \<open>Result\<close> as the sum \<open>'e + 'a\<close> (\<open>Inl\<close> the error) with \<open>and_then\<close> for the \<open>?\<close> operator,
    \<open>ensure\<close> for a guarded early return and \<open>try_map\<close>/\<open>try_fold\<close> for fallible loops;
  \<^item> machine integers as words, with \<open>checked_add\<close>, \<open>saturating_add\<close> and their kin;
  \<^item> \<open>str\<close> as the list of its UTF-8 bytes (\<open>string\<close>), which is how Rust stores it: \<open>len\<close> is
    \<open>length\<close>, \<open>as_bytes\<close> is the identity, ASCII case folding and all searches for ASCII
    delimiters act on single bytes, and white space is recognised by its UTF-8 encodings;
  \<^item> \<open>Ordering\<close>, comparators and \<open>sort_by\<close>;
  \<^item> \<open>parse::<int>\<close> and decimal \<open>to_string\<close>.
  The generic lemmas on them are collected in \<open>rust_simps\<close>, \<open>result_simps\<close> and \<open>str_simps\<close>.
\<close>

named_theorems rust_simps \<open>equations of the Rust vocabulary\<close>
named_theorems result_simps \<open>rewriting with results and early returns\<close>
named_theorems str_simps \<open>rewriting with byte strings\<close>

type_synonym u8 = "8 word"
type_synonym u16 = "16 word"
type_synonym u32 = "32 word"
type_synonym u64 = "64 word"
type_synonym u128 = "128 word"
type_synonym uuid = "128 word"

subsection \<open>Results\<close>

definition and_then :: "'e + 'a \<Rightarrow> ('a \<Rightarrow> 'e + 'b) \<Rightarrow> 'e + 'b" where
  "and_then r f = (case r of Inl e \<Rightarrow> Inl e | Inr x \<Rightarrow> f x)"

definition map_err :: "('e \<Rightarrow> 'f) \<Rightarrow> 'e + 'a \<Rightarrow> 'f + 'a" where
  "map_err g r = (case r of Inl e \<Rightarrow> Inl (g e) | Inr x \<Rightarrow> Inr x)"

definition ok_or :: "'e \<Rightarrow> 'a option \<Rightarrow> 'e + 'a" where
  "ok_or e p = (case p of None \<Rightarrow> Inl e | Some x \<Rightarrow> Inr x)"

definition result_ok :: "'e + 'a \<Rightarrow> 'a option" where
  "result_ok r = (case r of Inl _ \<Rightarrow> None | Inr x \<Rightarrow> Some x)"

definition is_ok :: "'e + 'a \<Rightarrow> bool" where
  "is_ok r = (case r of Inl _ \<Rightarrow> False | Inr _ \<Rightarrow> True)"

definition ensure :: "bool \<Rightarrow> 'e \<Rightarrow> 'e + unit" where
  "ensure c e = (if c then Inr () else Inl e)"

fun try_map :: "('a \<Rightarrow> 'e + 'b) \<Rightarrow> 'a list \<Rightarrow> 'e + 'b list" where
  "try_map f [] = Inr []"
| "try_map f (x # xs) = and_then (f x) (\<lambda>y. and_then (try_map f xs) (\<lambda>ys. Inr (y # ys)))"

fun try_fold :: "('s \<Rightarrow> 'a \<Rightarrow> 'e + 's) \<Rightarrow> 's \<Rightarrow> 'a list \<Rightarrow> 'e + 's" where
  "try_fold f s [] = Inr s"
| "try_fold f s (x # xs) = and_then (f s x) (\<lambda>s'. try_fold f s' xs)"

lemma and_then_simps [simp, result_simps]:
  "and_then (Inl e) f = Inl e"
  "and_then (Inr x) f = f x"
  by (simp_all add: and_then_def)

lemma and_then_eq_Inr [result_simps]:
  "and_then r f = Inr y \<longleftrightarrow> (\<exists>x. r = Inr x \<and> f x = Inr y)"
  by (cases r) auto

lemma and_then_eq_Inl [result_simps]:
  "and_then r f = Inl e \<longleftrightarrow> r = Inl e \<or> (\<exists>x. r = Inr x \<and> f x = Inl e)"
  by (cases r) auto

lemma and_then_assoc: "and_then (and_then r f) g = and_then r (\<lambda>x. and_then (f x) g)"
  by (cases r) auto

lemma and_then_cong [fundef_cong]:
  "r = r' \<Longrightarrow> (\<And>x. r' = Inr x \<Longrightarrow> f x = f' x) \<Longrightarrow> and_then r f = and_then r' f'"
  by (cases r') (auto simp: and_then_def)

lemma ensure_simps [simp, result_simps]:
  "ensure True e = Inr ()"
  "ensure False e = Inl e"
  by (simp_all add: ensure_def)

lemma ensure_eq [result_simps]:
  "ensure c e = Inr u \<longleftrightarrow> c"
  "ensure c e = Inl e' \<longleftrightarrow> \<not> c \<and> e' = e"
  by (auto simp: ensure_def)

lemma map_err_simps [simp, result_simps]:
  "map_err g (Inl e) = Inl (g e)"
  "map_err g (Inr x) = Inr x"
  by (simp_all add: map_err_def)

lemma map_err_eq_Inr [result_simps]: "map_err g r = Inr y \<longleftrightarrow> r = Inr y"
  by (cases r) auto

lemma ok_or_simps [simp, result_simps]:
  "ok_or e None = Inl e"
  "ok_or e (Some x) = Inr x"
  by (simp_all add: ok_or_def)

lemma ok_or_eq_Inr [result_simps]: "ok_or e p = Inr y \<longleftrightarrow> p = Some y"
  by (cases p) auto

lemma is_ok_simps [simp, result_simps]:
  "is_ok (Inl e) = False"
  "is_ok (Inr x) = True"
  by (simp_all add: is_ok_def)

lemma result_ok_simps [simp, result_simps]:
  "result_ok (Inl e) = None"
  "result_ok (Inr x) = Some x"
  by (simp_all add: result_ok_def)

lemma is_ok_iff: "is_ok r \<longleftrightarrow> (\<exists>x. r = Inr x)"
  by (cases r) auto

lemma try_map_eq_Inr:
  "try_map f xs = Inr ys \<longleftrightarrow> list_all2 (\<lambda>x y. f x = Inr y) xs ys"
proof (induction xs arbitrary: ys)
  case Nil
  then show ?case by auto
next
  case (Cons x xs)
  then show ?case by (cases ys) (auto simp: and_then_eq_Inr)
qed

lemma try_map_cong: "xs = ys \<Longrightarrow> (\<And>x. x \<in> set ys \<Longrightarrow> f x = g x) \<Longrightarrow> try_map f xs = try_map g ys"
  by (induction xs arbitrary: ys) auto

lemma try_map_length: "try_map f xs = Inr ys \<Longrightarrow> length ys = length xs"
  by (auto simp: try_map_eq_Inr dest: list_all2_lengthD)

lemma try_fold_append:
  "try_fold f s (xs @ ys) = and_then (try_fold f s xs) (\<lambda>s'. try_fold f s' ys)"
  by (induction xs arbitrary: s) (simp_all add: and_then_assoc)

text \<open>The invariant rule for a fallible loop.\<close>

lemma try_fold_invariant:
  assumes "try_fold f s xs = Inr s'" and "P s"
    and "\<And>s x s'. P s \<Longrightarrow> x \<in> set xs \<Longrightarrow> f s x = Inr s' \<Longrightarrow> P s'"
  shows "P s'"
  using assms
proof (induction xs arbitrary: s)
  case Nil
  then show ?case by simp
next
  case (Cons x xs)
  from Cons.prems(1) obtain t where t: "f s x = Inr t" and run: "try_fold f t xs = Inr s'"
    by (auto simp: and_then_eq_Inr)
  have "P t" by (rule Cons.prems(3) [OF Cons.prems(2) _ t]) simp
  with run show ?case by (rule Cons.IH) (erule (1) Cons.prems(3) [OF _ list.set_intros(2)])
qed

subsection \<open>Machine integers\<close>

definition checked_add :: "'a::len word \<Rightarrow> 'a word \<Rightarrow> 'a word option" where
  "checked_add a b = (if unat a + unat b < 2 ^ LENGTH('a) then Some (a + b) else None)"

definition saturating_add :: "'a::len word \<Rightarrow> 'a word \<Rightarrow> 'a word" where
  "saturating_add a b = (if unat a + unat b < 2 ^ LENGTH('a) then a + b else -1)"

definition saturating_sub :: "'a::len word \<Rightarrow> 'a word \<Rightarrow> 'a word" where
  "saturating_sub a b = (if b \<le> a then a - b else 0)"

text \<open>\<open>usize\<close> counts are natural numbers; saturation at \<open>usize::MAX\<close> is written out.\<close>

definition usize_max :: nat where
  "usize_max = 2 ^ 64 - 1"

definition usize_add :: "nat \<Rightarrow> nat \<Rightarrow> nat" where
  "usize_add a b = min usize_max (a + b)"

definition usize_mul :: "nat \<Rightarrow> nat \<Rightarrow> nat" where
  "usize_mul a b = min usize_max (a * b)"

definition clamp :: "'a::linorder \<Rightarrow> 'a \<Rightarrow> 'a \<Rightarrow> 'a" where
  "clamp lo hi x = (if x < lo then lo else if hi < x then hi else x)"

lemma clamp_bounds: "lo \<le> hi \<Longrightarrow> lo \<le> clamp lo hi x \<and> clamp lo hi x \<le> hi"
  by (auto simp: clamp_def)

lemma checked_add_Some:
  "checked_add a b = Some c \<longleftrightarrow> unat a + unat b < 2 ^ LENGTH('a) \<and> c = a + (b :: 'a::len word)"
  by (auto simp: checked_add_def)

lemma unat_add_no_overflow:
  "unat a + unat b < 2 ^ LENGTH('a) \<Longrightarrow> unat (a + (b :: 'a::len word)) = unat a + unat b"
  by (simp add: unat_word_ariths)

lemma unat_le_max: "unat (w :: 'a::len word) \<le> 2 ^ LENGTH('a) - 1"
  using unsigned_less [of w, where ?'a = nat] by linarith

lemma unat_saturating_add:
  "unat (saturating_add a b) = min (2 ^ LENGTH('a) - 1) (unat a + unat (b :: 'a::len word))"
  by (auto simp: saturating_add_def unat_add_no_overflow min_def unsigned_minus_1_eq_mask mask_eq_exp_minus_1)

lemma unat_saturating_sub: "unat (saturating_sub a b) = unat a - unat b"
  by (auto simp: saturating_sub_def unat_sub word_le_nat_alt)

subsection \<open>Comparison\<close>

datatype ordering = Less | Equal | Greater

definition then_with :: "ordering \<Rightarrow> ordering \<Rightarrow> ordering" where
  "then_with a b = (case a of Equal \<Rightarrow> b | _ \<Rightarrow> a)"

definition cmp :: "'a::linorder \<Rightarrow> 'a \<Rightarrow> ordering" where
  "cmp x y = (if x < y then Less else if x = y then Equal else Greater)"

fun reverse_ordering :: "ordering \<Rightarrow> ordering" where
  "reverse_ordering Less = Greater"
| "reverse_ordering Equal = Equal"
| "reverse_ordering Greater = Less"

text \<open>Slices and strings compare lexicographically, a proper prefix first.\<close>

fun cmp_slices :: "('a \<Rightarrow> 'a \<Rightarrow> ordering) \<Rightarrow> 'a list \<Rightarrow> 'a list \<Rightarrow> ordering" where
  "cmp_slices f [] [] = Equal"
| "cmp_slices f [] (y # ys) = Less"
| "cmp_slices f (x # xs) [] = Greater"
| "cmp_slices f (x # xs) (y # ys) = then_with (f x y) (cmp_slices f xs ys)"

lemma then_with_simps [simp, rust_simps]:
  "then_with Less b = Less"
  "then_with Equal b = b"
  "then_with Greater b = Greater"
  by (simp_all add: then_with_def)

lemma then_with_eq [rust_simps]:
  "then_with a b = Equal \<longleftrightarrow> a = Equal \<and> b = Equal"
  "then_with a b = Less \<longleftrightarrow> a = Less \<or> a = Equal \<and> b = Less"
  "then_with a b = Greater \<longleftrightarrow> a = Greater \<or> a = Equal \<and> b = Greater"
  by (cases a; simp)+

lemma cmp_eq [rust_simps]:
  "cmp x y = Equal \<longleftrightarrow> x = y"
  "cmp x y = Less \<longleftrightarrow> x < y"
  "cmp x y = Greater \<longleftrightarrow> y < x"
  by (auto simp: cmp_def)

text \<open>
  The contract \<open>slice::sort_by\<close> asks of its comparator: a total preorder. Its laws are what the
  sorting lemmas below need, and a component that sorts with its own comparison interprets the
  locale for that comparison.
\<close>

locale comparator =
  fixes compare :: "'a \<Rightarrow> 'a \<Rightarrow> ordering"
  assumes compare_refl: "compare x x = Equal"
    and compare_flip: "compare y x = reverse_ordering (compare x y)"
    and compare_trans: "compare x y \<noteq> Greater \<Longrightarrow> compare y z \<noteq> Greater \<Longrightarrow> compare x z \<noteq> Greater"

text \<open>\<open>sort_by\<close> is stable: an element is inserted before the first strictly greater one.\<close>

fun insort_by :: "('a \<Rightarrow> 'a \<Rightarrow> ordering) \<Rightarrow> 'a \<Rightarrow> 'a list \<Rightarrow> 'a list" where
  "insort_by f x [] = [x]"
| "insort_by f x (y # ys) = (if f x y = Greater then y # insort_by f x ys else x # y # ys)"

definition sort_by :: "('a \<Rightarrow> 'a \<Rightarrow> ordering) \<Rightarrow> 'a list \<Rightarrow> 'a list" where
  "sort_by f xs = foldr (insort_by f) xs []"

definition sorted_by :: "('a \<Rightarrow> 'a \<Rightarrow> ordering) \<Rightarrow> 'a list \<Rightarrow> bool" where
  "sorted_by f xs = sorted_wrt (\<lambda>x y. f x y \<noteq> Greater) xs"

lemma mset_insort_by [simp]: "mset (insort_by f x xs) = add_mset x (mset xs)"
  by (induction xs) auto

lemma mset_sort_by [simp]: "mset (sort_by f xs) = mset xs"
  by (induction xs) (auto simp: sort_by_def)

lemma set_sort_by [simp]: "set (sort_by f xs) = set xs"
  by (metis mset_eq_setD mset_sort_by)

lemma length_sort_by [simp]: "length (sort_by f xs) = length xs"
  by (metis mset_eq_length mset_sort_by)

lemma set_insort_by: "set (insort_by f x xs) = insert x (set xs)"
  by (induction xs) auto

context comparator
begin

lemma compare_total: "compare x y = Greater \<Longrightarrow> compare y x = Less"
  using compare_flip [of y x] by simp

lemma sorted_insort_by: "sorted_by compare xs \<Longrightarrow> sorted_by compare (insort_by compare x xs)"
proof (induction xs)
  case Nil
  then show ?case by (simp add: sorted_by_def)
next
  case (Cons y ys)
  then have y: "\<forall>z\<in>set ys. compare y z \<noteq> Greater" and ys: "sorted_by compare ys"
    by (simp_all add: sorted_by_def)
  show ?case
  proof (cases "compare x y = Greater")
    case True
    then have "compare y x \<noteq> Greater" by (simp add: compare_total)
    with True y Cons.IH [OF ys] show ?thesis by (simp add: sorted_by_def set_insort_by)
  next
    case False
    with y compare_trans [OF False] have "\<forall>z\<in>set ys. compare x z \<noteq> Greater" by blast
    with False Cons.prems show ?thesis by (simp add: sorted_by_def)
  qed
qed

lemma sorted_sort_by: "sorted_by compare (sort_by compare xs)"
proof (induction xs)
  case Nil
  show ?case by (simp add: sorted_by_def sort_by_def)
next
  case (Cons x xs)
  then show ?case using sorted_insort_by by (simp add: sort_by_def)
qed

lemma sort_by_sorted: "sorted_by compare xs \<Longrightarrow> sort_by compare xs = xs"
proof (induction xs)
  case Nil
  then show ?case by (simp add: sort_by_def)
next
  case (Cons x xs)
  then have "sort_by compare xs = xs" by (simp add: sorted_by_def)
  with Cons.prems show ?case by (cases xs) (auto simp: sort_by_def sorted_by_def)
qed

text \<open>Sorting twice is sorting once.\<close>

lemma sort_by_idem: "sort_by compare (sort_by compare xs) = sort_by compare xs"
  by (rule sort_by_sorted) (rule sorted_sort_by)

end

lemma comparator_cmp: "comparator cmp"
  by unfold_locales (auto simp: cmp_def split: if_splits)

interpretation std_cmp: comparator cmp
  by (rule comparator_cmp)

subsection \<open>Slices\<close>

text \<open>\<open>chunks\<close> and \<open>div_ceil\<close>.\<close>

function chunks :: "nat \<Rightarrow> 'a list \<Rightarrow> 'a list list" where
  "chunks n xs = (if n = 0 \<or> xs = [] then [] else take n xs # chunks n (drop n xs))"
  by pat_completeness auto
termination by (relation "measure (\<lambda>(n, xs). length xs)") auto

declare chunks.simps [simp del]

definition div_ceil :: "nat \<Rightarrow> nat \<Rightarrow> nat" where
  "div_ceil a b = (a + b - 1) div b"

lemma concat_chunks: "0 < n \<Longrightarrow> concat (chunks n xs) = xs"
proof (induction n xs rule: chunks.induct)
  case (1 n xs)
  then show ?case by (subst chunks.simps) auto
qed

lemma chunks_bound: "c \<in> set (chunks n xs) \<Longrightarrow> c \<noteq> [] \<and> length c \<le> n"
proof (induction n xs rule: chunks.induct)
  case (1 n xs)
  show ?case using "1.prems" "1.IH" by (subst (asm) chunks.simps) (auto split: if_splits)
qed

lemma div_ceil_mono: "a \<le> b \<Longrightarrow> div_ceil a n \<le> div_ceil b n"
  by (simp add: div_ceil_def div_le_mono)

lemma length_chunks: "0 < n \<Longrightarrow> length (chunks n xs) = div_ceil (length xs) n"
proof (induction n xs rule: chunks.induct)
  case (1 n xs)
  show ?case
  proof (cases "length xs \<le> n")
    case True
    then have "chunks n (drop n xs) = []" by (subst chunks.simps) simp
    moreover have "div_ceil (length xs) n = (if xs = [] then 0 else 1)"
      using True "1.prems" by (cases xs) (auto simp: div_ceil_def div_nat_eqI)
    ultimately show ?thesis using "1.prems" by (subst chunks.simps) simp
  next
    case False
    have "(length xs + n - 1) div n = Suc ((length xs - n + n - 1) div n)"
      using False "1.prems" by (simp add: div_if)
    then show ?thesis using 1 False by (subst chunks.simps) (auto simp: div_ceil_def)
  qed
qed

end
