(* ===== verification/Tlv.thy ===== *)
theory Tlv
  imports Prelude
begin

section \<open>The frame codec (\<open>crates/common/src/protocol/tlv.rs\<close>)\<close>

text \<open>
  Every message between an agent and the gateway is one \<open>Frame\<close>: a 24 byte header (magic, version,
  flags, kind, stream, sequence number, payload length, all big-endian) followed by the payload.
  \<open>encode\<close> appends a frame to a buffer, \<open>decode\<close> takes one frame off the front of a buffer or says
  that more bytes are needed. The buffer a \<open>&mut BytesMut\<close> leaves behind is the second component
  of the result. The LZ4 codec is a third-party crate and a parameter of the two functions that
  call it. The locale \<open>frame_codec\<close> states what the transport relies on; it is interpreted here
  for \<open>encode\<close> and \<open>decode\<close>.
\<close>

subsection \<open>Big- and little-endian words\<close>

primrec to_be_bytes :: "nat \<Rightarrow> 'a::len word \<Rightarrow> u8 list" where
  "to_be_bytes 0 w = []"
| "to_be_bytes (Suc n) w = to_be_bytes n (drop_bit 8 w) @ [ucast w]"

definition from_be_bytes :: "u8 list \<Rightarrow> 'a::len word" where
  "from_be_bytes bs = foldl (\<lambda>acc b. or (push_bit 8 acc) (ucast b)) 0 bs"

definition from_le_bytes :: "u8 list \<Rightarrow> 'a::len word" where
  "from_le_bytes bs = from_be_bytes (rev bs)"

definition to_le_bytes :: "nat \<Rightarrow> 'a::len word \<Rightarrow> u8 list" where
  "to_le_bytes n w = rev (to_be_bytes n w)"

lemma length_to_be_bytes [simp]: "length (to_be_bytes n w) = n"
  by (induction n arbitrary: w) simp_all

lemma to_be_bytes_numeral:
  "to_be_bytes (numeral k) w = to_be_bytes (pred_numeral k) (drop_bit 8 w) @ [ucast w]"
  by (simp only: numeral_eq_Suc to_be_bytes.simps)

lemma length_to_le_bytes [simp]: "length (to_le_bytes n w) = n"
  by (simp add: to_le_bytes_def)

lemma from_be_bytes_snoc [simp]:
  "from_be_bytes (bs @ [b]) = or (push_bit 8 (from_be_bytes bs)) (ucast b)"
  by (simp add: from_be_bytes_def)

lemma from_be_bytes_Nil [simp]: "from_be_bytes [] = 0"
  by (simp add: from_be_bytes_def)

lemma from_to_be_bytes: "from_be_bytes (to_be_bytes n w) = take_bit (8 * n) (w :: 'a::len word)"
proof (induction n arbitrary: w)
  case 0
  then show ?case by simp
next
  case (Suc n)
  show ?case
  proof (rule bit_word_eqI)
    fix k
    assume "k < LENGTH('a)"
    then show "bit (from_be_bytes (to_be_bytes (Suc n) w) :: 'a word) k
        = bit (take_bit (8 * Suc n) w) k"
      by (auto simp: Suc.IH bit_simps)
  qed
qed

lemma from_to_be_bytes_full:
  "LENGTH('a) \<le> 8 * n \<Longrightarrow> from_be_bytes (to_be_bytes n w) = (w :: 'a::len word)"
  by (simp add: from_to_be_bytes take_bit_word_eq_self)

lemma to_be_bytes_take_bit: "to_be_bytes n (take_bit (8 * n) w) = to_be_bytes n (w :: 'a::len word)"
proof (induction n arbitrary: w)
  case 0
  then show ?case by simp
next
  case (Suc n)
  have "drop_bit 8 (take_bit (8 * Suc n) w) = take_bit (8 * n) (drop_bit 8 w)"
    by (simp add: drop_bit_take_bit)
  moreover have "ucast (take_bit (8 * Suc n) w) = (ucast w :: u8)"
    by (rule bit_word_eqI) (auto simp: bit_simps)
  ultimately show ?case by (simp only: to_be_bytes.simps Suc.IH)
qed

lemma to_from_be_bytes:
  assumes "length bs = n" and "8 * n \<le> LENGTH('a)"
  shows "to_be_bytes n (from_be_bytes bs :: 'a::len word) = bs"
  using assms
proof (induction bs arbitrary: n rule: rev_induct)
  case Nil
  then show ?case by simp
next
  case (snoc b bs)
  then obtain m where n: "n = Suc m" and m: "length bs = m" by auto
  let ?w = "from_be_bytes bs :: 'a word"
  have low: "ucast (or (push_bit 8 ?w) (ucast b)) = b"
    using snoc.prems(2) n by (intro bit_word_eqI) (auto simp: bit_simps)
  have high: "drop_bit 8 (or (push_bit 8 ?w) (ucast b)) = drop_bit 8 (push_bit 8 ?w)"
    by (intro bit_word_eqI) (auto simp: bit_simps dest: bit_imp_le_length)
  have "take_bit (8 * m) (drop_bit 8 (push_bit 8 ?w)) = take_bit (8 * m) ?w"
    using snoc.prems(2) n by (intro bit_word_eqI) (auto simp: bit_simps)
  then have tk: "to_be_bytes m (drop_bit 8 (push_bit 8 ?w)) = to_be_bytes m ?w"
    by (metis to_be_bytes_take_bit)
  show ?case using snoc.IH [of m] snoc.prems n m low high tk by simp
qed

subsection \<open>Frames\<close>

definition MAGIC :: "u8 list" where
  "MAGIC = [0x56, 0x50, 0x53, 0x4D]"

definition CURRENT_VERSION :: u8 where
  "CURRENT_VERSION = 1"

definition HEADER_LEN :: nat where
  "HEADER_LEN = 24"

definition MAX_PAYLOAD_LEN :: nat where
  "MAX_PAYLOAD_LEN = 16 * 1024 * 1024"

definition FLAG_COMPRESSED_LZ4 :: u8 where
  "FLAG_COMPRESSED_LZ4 = 1"

datatype protocol_error =
    InvalidMagic
  | UnsupportedVersion u8
  | PayloadTooLarge nat
  | DecompressedPayloadTooLarge nat
  | Compression string
  | Json string

datatype message_kind =
    ClientHello | ServerHello | Telemetry | Command | CommandAck | CommandCancel
  | CommandCancelAck | CommandOutput | CommandResume | TerminalStreamOutput
  | AgentSessionDisconnect | AgentUpdateVerificationRequest | AgentUpdateVerificationResult
  | TerminalControl | TerminalControlAck | FileChunk | ConfigUpdate | Keepalive | Error
  | Unknown u16

definition from_u16 :: "u16 \<Rightarrow> message_kind" where
  "from_u16 value =
     (if value = 1 then ClientHello
      else if value = 2 then ServerHello
      else if value = 16 then Telemetry
      else if value = 32 then Command
      else if value = 33 then CommandAck
      else if value = 35 then CommandCancel
      else if value = 37 then CommandCancelAck
      else if value = 34 then CommandOutput
      else if value = 38 then CommandResume
      else if value = 36 then TerminalStreamOutput
      else if value = 39 then AgentSessionDisconnect
      else if value = 40 then AgentUpdateVerificationRequest
      else if value = 41 then AgentUpdateVerificationResult
      else if value = 42 then TerminalControl
      else if value = 43 then TerminalControlAck
      else if value = 48 then FileChunk
      else if value = 49 then ConfigUpdate
      else if value = 64 then Keepalive
      else if value = 255 then Error
      else Unknown value)"

fun as_u16 :: "message_kind \<Rightarrow> u16" where
  "as_u16 ClientHello = 1"
| "as_u16 ServerHello = 2"
| "as_u16 Telemetry = 16"
| "as_u16 Command = 32"
| "as_u16 CommandAck = 33"
| "as_u16 CommandCancel = 35"
| "as_u16 CommandCancelAck = 37"
| "as_u16 CommandOutput = 34"
| "as_u16 CommandResume = 38"
| "as_u16 TerminalStreamOutput = 36"
| "as_u16 AgentSessionDisconnect = 39"
| "as_u16 AgentUpdateVerificationRequest = 40"
| "as_u16 AgentUpdateVerificationResult = 41"
| "as_u16 TerminalControl = 42"
| "as_u16 TerminalControlAck = 43"
| "as_u16 FileChunk = 48"
| "as_u16 ConfigUpdate = 49"
| "as_u16 Keepalive = 64"
| "as_u16 Error = 255"
| "as_u16 (Unknown value) = value"

record frame =
  version :: u8
  flags :: u8
  kind :: message_kind
  stream_id :: u32
  seq :: u64
  payload :: "u8 list"

definition new_frame :: "message_kind \<Rightarrow> u32 \<Rightarrow> u64 \<Rightarrow> u8 list \<Rightarrow> frame" where
  "new_frame k sid sq p =
     \<lparr>version = CURRENT_VERSION, flags = 0, kind = k, stream_id = sid, seq = sq, payload = p\<rparr>"

text \<open>\<open>encode\<close> returns the destination buffer with the frame appended.\<close>

definition encode :: "frame \<Rightarrow> u8 list \<Rightarrow> protocol_error + u8 list" where
  "encode self dst =
     (if version self \<noteq> CURRENT_VERSION then Inl (UnsupportedVersion (version self))
      else if length (payload self) > MAX_PAYLOAD_LEN
        then Inl (PayloadTooLarge (length (payload self)))
      else Inr (dst @ MAGIC @ [version self] @ [flags self]
        @ to_be_bytes 2 (as_u16 (kind self))
        @ to_be_bytes 4 (stream_id self)
        @ to_be_bytes 8 (seq self)
        @ to_be_bytes 4 (of_nat (length (payload self)) :: u32)
        @ payload self))"

definition get_u8 :: "u8 list \<Rightarrow> u8 \<times> u8 list" where
  "get_u8 src = (from_be_bytes (take 1 src), drop 1 src)"

definition get_u16 :: "u8 list \<Rightarrow> u16 \<times> u8 list" where
  "get_u16 src = (from_be_bytes (take 2 src), drop 2 src)"

definition get_u32 :: "u8 list \<Rightarrow> u32 \<times> u8 list" where
  "get_u32 src = (from_be_bytes (take 4 src), drop 4 src)"

definition get_u64 :: "u8 list \<Rightarrow> u64 \<times> u8 list" where
  "get_u64 src = (from_be_bytes (take 8 src), drop 8 src)"

definition decode :: "u8 list \<Rightarrow> (protocol_error + frame option) \<times> u8 list" where
  "decode src =
     (if length src < HEADER_LEN then (Inr None, src)
      else if take 4 src \<noteq> MAGIC then (Inl InvalidMagic, src)
      else if src ! 4 \<noteq> CURRENT_VERSION then (Inl (UnsupportedVersion (src ! 4)), src)
      else let payload_len = unat (from_be_bytes [src ! 20, src ! 21, src ! 22, src ! 23] :: u32) in
        if payload_len > MAX_PAYLOAD_LEN then (Inl (PayloadTooLarge payload_len), src)
        else if length src < HEADER_LEN + payload_len then (Inr None, src)
        else
          let src = drop 4 src;
              (ver, src) = get_u8 src;
              (flg, src) = get_u8 src;
              (knd, src) = get_u16 src;
              (sid, src) = get_u32 src;
              (sq, src) = get_u64 src;
              (len, src) = get_u32 src
          in (Inr (Some \<lparr>version = ver, flags = flg, kind = from_u16 knd, stream_id = sid,
                seq = sq, payload = take (unat len) src\<rparr>),
              drop (unat len) src))"

definition decompressed_len_prefix :: "u8 list \<Rightarrow> protocol_error + nat" where
  "decompressed_len_prefix p =
     (if length p < 4 then Inl (Compression ''missing size prefix'')
      else Inr (unat (from_le_bytes (take 4 p) :: u32)))"

definition decoded_payload ::
    "(u8 list \<Rightarrow> string + u8 list) \<Rightarrow> frame \<Rightarrow> protocol_error + u8 list" where
  "decoded_payload decompress_size_prepended self =
     (if and (flags self) FLAG_COMPRESSED_LZ4 = 0 then Inr (payload self)
      else and_then (decompressed_len_prefix (payload self)) (\<lambda>decompressed_len.
        if decompressed_len > MAX_PAYLOAD_LEN
        then Inl (DecompressedPayloadTooLarge decompressed_len)
        else map_err Compression (decompress_size_prepended (payload self))))"

definition maybe_compress_payload ::
    "(u8 list \<Rightarrow> u8 list) \<Rightarrow> u8 list \<Rightarrow> nat \<Rightarrow> protocol_error + u8 \<times> u8 list" where
  "maybe_compress_payload compress_prepend_size p threshold =
     (if length p < threshold then Inr (0, p)
      else let compressed = compress_prepend_size p
           in if length compressed \<ge> length p then Inr (0, p)
              else Inr (FLAG_COMPRESSED_LZ4, compressed))"

lemmas tlv_consts = MAGIC_def CURRENT_VERSION_def HEADER_LEN_def MAX_PAYLOAD_LEN_def
  FLAG_COMPRESSED_LZ4_def

subsection \<open>The wire image of a frame\<close>

definition wf_frame :: "frame \<Rightarrow> bool" where
  "wf_frame f \<longleftrightarrow> version f = CURRENT_VERSION \<and> length (payload f) \<le> MAX_PAYLOAD_LEN"

text \<open>\<open>Unknown\<close> can hold the number of a known kind; such a frame does not survive the wire as it is.\<close>

definition canonical_kind :: "message_kind \<Rightarrow> bool" where
  "canonical_kind k \<longleftrightarrow> from_u16 (as_u16 k) = k"

definition wire_image :: "frame \<Rightarrow> u8 list" where
  "wire_image f =
     MAGIC @ [version f] @ [flags f]
       @ to_be_bytes 2 (as_u16 (kind f))
       @ to_be_bytes 4 (stream_id f)
       @ to_be_bytes 8 (seq f)
       @ to_be_bytes 4 (of_nat (length (payload f)) :: u32)
       @ payload f"

lemma as_u16_from_u16: "as_u16 (from_u16 v) = v"
  by (simp add: from_u16_def)

lemma canonical_from_u16 [simp]: "canonical_kind (from_u16 v)"
  by (simp add: canonical_kind_def as_u16_from_u16)

lemma encode_wf: "wf_frame f \<Longrightarrow> encode f dst = Inr (dst @ wire_image f)"
  by (simp add: encode_def wf_frame_def wire_image_def)

lemma encode_Inr: "encode f dst = Inr bs \<longleftrightarrow> wf_frame f \<and> bs = dst @ wire_image f"
  by (auto simp: encode_def wf_frame_def wire_image_def)

lemma length_wire_image [simp]: "length (wire_image f) = HEADER_LEN + length (payload f)"
  by (simp add: wire_image_def tlv_consts)

lemma unat_payload_len: "wf_frame f \<Longrightarrow> unat (of_nat (length (payload f)) :: u32) = length (payload f)"
  by (simp add: wf_frame_def tlv_consts unat_of_nat)

lemma from_be_bytes_1: "from_be_bytes [b] = (b :: u8)"
  by (simp add: from_be_bytes_def)

lemma nth4: "length src \<ge> k + 4 \<Longrightarrow> [src ! k, src ! (k + 1), src ! (k + 2), src ! (k + 3)] = take 4 (drop k src)"
  using Cons_nth_drop_Suc [of k src, symmetric] Cons_nth_drop_Suc [of "k + 1" src, symmetric]
    Cons_nth_drop_Suc [of "k + 2" src, symmetric] Cons_nth_drop_Suc [of "k + 3" src, symmetric]
  by (simp add: numeral_eq_Suc)

text \<open>What the decoder reads off a buffer of at least one header.\<close>

definition header_len_field :: "u8 list \<Rightarrow> nat" where
  "header_len_field src = unat (from_be_bytes (take 4 (drop 20 src)) :: u32)"

lemma decode_alt:
  "decode src =
     (if length src < HEADER_LEN then (Inr None, src)
      else if take 4 src \<noteq> MAGIC then (Inl InvalidMagic, src)
      else if src ! 4 \<noteq> CURRENT_VERSION then (Inl (UnsupportedVersion (src ! 4)), src)
      else if header_len_field src > MAX_PAYLOAD_LEN
        then (Inl (PayloadTooLarge (header_len_field src)), src)
      else if length src < HEADER_LEN + header_len_field src then (Inr None, src)
      else (Inr (Some \<lparr>version = src ! 4, flags = src ! 5,
              kind = from_u16 (from_be_bytes (take 2 (drop 6 src))),
              stream_id = from_be_bytes (take 4 (drop 8 src)),
              seq = from_be_bytes (take 8 (drop 12 src)),
              payload = take (header_len_field src) (drop HEADER_LEN src)\<rparr>),
            drop (HEADER_LEN + header_len_field src) src))"
proof (cases "length src < HEADER_LEN")
  case True
  then show ?thesis by (simp add: decode_def)
next
  case False
  then have "[src ! 20, src ! 21, src ! 22, src ! 23] = take 4 (drop 20 src)"
    using nth4 [of 20 src] by (simp add: tlv_consts)
  moreover from False have "take 1 (drop 4 src) = [src ! 4]" "take 1 (drop 5 src) = [src ! 5]"
    by (simp_all add: tlv_consts take_Suc_conv_app_nth)
  ultimately show ?thesis
    by (simp add: decode_def header_len_field_def get_u8_def get_u16_def get_u32_def get_u64_def
        from_be_bytes_1 Let_def HEADER_LEN_def)
qed

lemma wire_image_fields:
  assumes "wf_frame f"
  shows "take 4 (wire_image f @ rest) = MAGIC"
    and "(wire_image f @ rest) ! 4 = version f"
    and "(wire_image f @ rest) ! 5 = flags f"
    and "from_be_bytes (take 2 (drop 6 (wire_image f @ rest))) = as_u16 (kind f)"
    and "from_be_bytes (take 4 (drop 8 (wire_image f @ rest))) = stream_id f"
    and "from_be_bytes (take 8 (drop 12 (wire_image f @ rest))) = seq f"
    and "header_len_field (wire_image f @ rest) = length (payload f)"
    and "drop HEADER_LEN (wire_image f @ rest) = payload f @ rest"
  using unat_payload_len [OF assms]
  by (simp_all add: wire_image_def MAGIC_def HEADER_LEN_def header_len_field_def
      from_to_be_bytes_full)

lemma decode_wire_image:
  assumes "wf_frame f" and "canonical_kind (kind f)"
  shows "decode (wire_image f @ rest) = (Inr (Some f), rest)"
proof -
  define src where "src = wire_image f @ rest"
  note fields = wire_image_fields [OF assms(1), of rest, folded src_def]
  have "length src = HEADER_LEN + length (payload f) + length rest"
    and "drop (HEADER_LEN + length (payload f)) src = rest"
    by (simp_all add: src_def)
  moreover have "version f = CURRENT_VERSION" "length (payload f) \<le> MAX_PAYLOAD_LEN"
    using assms(1) by (simp_all add: wf_frame_def)
  moreover have "from_u16 (as_u16 (kind f)) = kind f"
    using assms(2) by (simp add: canonical_kind_def)
  ultimately have "decode src = (Inr (Some f), rest)" by (simp add: decode_alt [of src] fields)
  then show ?thesis by (simp add: src_def)
qed

lemma decode_prefix:
  assumes wf: "wf_frame f" and split: "wire_image f = p @ q" and "q \<noteq> []"
  shows "decode p = (Inr None, p)"
proof (cases "length p < HEADER_LEN")
  case True
  then show ?thesis by (simp add: decode_alt)
next
  case False
  note fields = wire_image_fields [OF wf, of "[]"]
  have len: "length p + length q = HEADER_LEN + length (payload f)"
    using arg_cong [OF split, of length] by simp
  have hd: "take 4 p = MAGIC" "p ! 4 = version f"
    using fields(1,2) False unfolding split by (simp_all add: nth_append tlv_consts)
  moreover have "header_len_field p = length (payload f)"
    using fields(7) False unfolding split by (simp add: header_len_field_def tlv_consts)
  moreover have "length p < HEADER_LEN + length (payload f)"
    using len \<open>q \<noteq> []\<close> by (cases q) auto
  ultimately show ?thesis using wf False by (simp add: decode_alt wf_frame_def)
qed

lemma header_decomposition:
  assumes "length src \<ge> HEADER_LEN"
  shows "src = take 4 src @ [src ! 4] @ [src ! 5] @ take 2 (drop 6 src) @ take 4 (drop 8 src)
    @ take 8 (drop 12 src) @ take 4 (drop 20 src) @ drop 24 src"
proof -
  have piece: "take n (drop k src) @ drop (n + k) src = drop k src" for n k
    by (metis append_take_drop_id drop_drop)
  have one: "[src ! k] @ drop (Suc k) src = drop k src" if "k < 24" for k
    using assms that by (simp add: HEADER_LEN_def Cons_nth_drop_Suc)
  have "src = take 4 src @ drop 4 src" by simp
  also have "drop 4 src = [src ! 4] @ [src ! 5] @ drop 6 src"
    using one [of 4] one [of 5] by simp
  also have "drop 6 src = take 2 (drop 6 src) @ take 4 (drop 8 src) @ drop 12 src"
    using piece [of 2 6] piece [of 4 8] by simp
  also have "drop 12 src = take 8 (drop 12 src) @ take 4 (drop 20 src) @ drop 24 src"
    using piece [of 8 12] piece [of 4 20] by simp
  finally show ?thesis .
qed

lemma decode_SomeD:
  assumes "decode src = (Inr (Some f), rest)"
  shows "wf_frame f \<and> canonical_kind (kind f) \<and> src = wire_image f @ rest"
proof -
  from assms have len: "\<not> length src < HEADER_LEN" and mg: "take 4 src = MAGIC"
    and ver: "src ! 4 = CURRENT_VERSION" and small: "header_len_field src \<le> MAX_PAYLOAD_LEN"
    and all: "HEADER_LEN + header_len_field src \<le> length src"
    by (auto simp: decode_alt split: if_splits)
  from assms len mg ver small all have f: "f = \<lparr>version = src ! 4, flags = src ! 5,
              kind = from_u16 (from_be_bytes (take 2 (drop 6 src))),
              stream_id = from_be_bytes (take 4 (drop 8 src)),
              seq = from_be_bytes (take 8 (drop 12 src)),
              payload = take (header_len_field src) (drop HEADER_LEN src)\<rparr>"
    and rest: "rest = drop (HEADER_LEN + header_len_field src) src"
    by (auto simp: decode_alt split: if_splits)
  have pl: "length (payload f) = header_len_field src"
    using all by (simp add: f)
  have lf: "to_be_bytes 4 (of_nat (length (payload f)) :: u32) = take 4 (drop 20 src)"
    using len by (simp add: pl header_len_field_def to_from_be_bytes HEADER_LEN_def)
  have body: "payload f @ rest = drop 24 src"
    by (simp add: f rest HEADER_LEN_def) (metis append_take_drop_id drop_drop add.commute)
  have L: "24 \<le> length src" using len by (simp add: HEADER_LEN_def)
  have "to_be_bytes 2 (as_u16 (kind f)) = take 2 (drop 6 src)"
    unfolding f frame.simps as_u16_from_u16 by (rule to_from_be_bytes) (use L in simp_all)
  moreover have "to_be_bytes 4 (stream_id f) = take 4 (drop 8 src)"
    unfolding f frame.simps by (rule to_from_be_bytes) (use L in simp_all)
  moreover have "to_be_bytes 8 (seq f) = take 8 (drop 12 src)"
    unfolding f frame.simps by (rule to_from_be_bytes) (use L in simp_all)
  moreover have "version f = src ! 4" "flags f = src ! 5" by (simp_all add: f)
  ultimately have "wire_image f @ rest = take 4 src @ [src ! 4] @ [src ! 5] @ take 2 (drop 6 src)
      @ take 4 (drop 8 src) @ take 8 (drop 12 src) @ take 4 (drop 20 src) @ drop 24 src"
    by (simp only: wire_image_def append_assoc body lf mg)
  also have "\<dots> = src" by (rule header_decomposition [symmetric]) (use len in simp)
  finally have img: "src = wire_image f @ rest" by (rule sym)
  have "version f = CURRENT_VERSION" by (simp add: f ver)
  then have "wf_frame f" by (simp only: wf_frame_def pl small)
  moreover have "canonical_kind (kind f)" by (simp add: f)
  ultimately show ?thesis using img by blast
qed

text \<open>The interface the transport uses: self-delimiting images on a byte stream.\<close>

locale frame_codec =
  fixes image :: "'f \<Rightarrow> 'b list"
    and dec :: "'b list \<Rightarrow> ('e + 'f option) \<times> 'b list"
    and ok :: "'f \<Rightarrow> bool"
  assumes image_nonempty: "ok f \<Longrightarrow> image f \<noteq> []"
    and dec_image: "ok f \<Longrightarrow> dec (image f @ rest) = (Inr (Some f), rest)"
    and dec_prefix: "ok f \<Longrightarrow> image f = p @ q \<Longrightarrow> q \<noteq> [] \<Longrightarrow> dec p = (Inr None, p)"
    and dec_SomeD: "dec src = (Inr (Some f), rest) \<Longrightarrow> ok f \<and> src = image f @ rest"
begin

text \<open>The image code is uniquely decodable.\<close>

lemma image_inj:
  assumes "ok f" and "ok g" and eq: "image f @ r = image g @ s"
  shows "f = g \<and> r = s"
proof -
  have "dec (image f @ r) = (Inr (Some f), r)" using assms(1) by (rule dec_image)
  moreover have "dec (image f @ r) = (Inr (Some g), s)" unfolding eq using assms(2) by (rule dec_image)
  ultimately show ?thesis by simp
qed

text \<open>No image is a proper prefix of another, so a frame is never delivered early.\<close>

lemma image_prefix_free:
  assumes "ok f" and "ok g" and "image g = image f @ q"
  shows "q = []"
proof (rule ccontr)
  assume "q \<noteq> []"
  with assms have "dec (image f) = (Inr None, image f)" by (blast intro: dec_prefix)
  moreover have "dec (image f @ []) = (Inr (Some f), [])" using assms(1) by (rule dec_image)
  ultimately show False by simp
qed

end

interpretation tlv: frame_codec wire_image decode "\<lambda>f. wf_frame f \<and> canonical_kind (kind f)"
proof (unfold_locales, goal_cases)
  case (1 f)
  show ?case by (simp add: wire_image_def MAGIC_def)
next
  case (2 f rest)
  then show ?case by (simp add: decode_wire_image)
next
  case (3 f p q)
  then show ?case by (blast intro: decode_prefix)
next
  case (4 src f rest)
  then show ?case by (blast dest: decode_SomeD)
qed

subsection \<open>Properties of the codec\<close>

text \<open>
  (C20) The decoder and the encoder are exact inverses: \<open>decode\<close> takes a frame off a buffer and
  leaves \<open>rest\<close> if and only if the buffer is the encoding of that frame, whose kind is one a
  kind number can denote, followed by \<open>rest\<close>.
\<close>

theorem decode_inverts_encode:
  "decode src = (Inr (Some f), rest) \<longleftrightarrow>
     canonical_kind (kind f) \<and> (\<exists>bs. encode f [] = Inr bs \<and> src = bs @ rest)"
  by (auto simp: encode_Inr decode_wire_image dest: decode_SomeD)

text \<open>
  A buffer that holds only a proper part of an encoded frame is never decoded and never
  rejected: \<open>decode\<close> asks for more bytes and leaves the buffer as it is.
\<close>

theorem decode_waits_for_whole_frame:
  assumes "encode f [] = Inr (p @ q)" and "q \<noteq> []"
  shows "decode p = (Inr None, p)"
proof (rule decode_prefix)
  show "wf_frame f" and "wire_image f = p @ q" using assms(1) by (simp_all add: encode_Inr)
qed (rule assms(2))

theorem decode_waits_for_whole_frame_witness:
  "encode (new_frame Keepalive 7 1 [9]) [] =
     Inr ([0x56, 0x50, 0x53, 0x4D, 1, 0, 0, 64, 0, 0, 0, 7, 0, 0, 0, 0, 0, 0, 0, 1, 0, 0, 0, 1] @ [9])
   \<and> decode [0x56, 0x50, 0x53, 0x4D, 1, 0, 0, 64, 0, 0, 0, 7, 0, 0, 0, 0, 0, 0, 0, 1, 0, 0, 0, 1] =
     (Inr None, [0x56, 0x50, 0x53, 0x4D, 1, 0, 0, 64, 0, 0, 0, 7, 0, 0, 0, 0, 0, 0, 0, 1, 0, 0, 0, 1])"
proof -
  have enc: "encode (new_frame Keepalive 7 1 [9]) [] =
     Inr ([0x56, 0x50, 0x53, 0x4D, 1, 0, 0, 64, 0, 0, 0, 7, 0, 0, 0, 0, 0, 0, 0, 1, 0, 0, 0, 1] @ [9])"
    by (simp add: encode_def new_frame_def tlv_consts to_be_bytes_numeral)
  show ?thesis using enc decode_waits_for_whole_frame [OF enc] by simp
qed

text \<open>What the crate \<open>lz4_flex\<close> documents of its size-prefixed block functions.\<close>

definition lz4_documented :: "(u8 list \<Rightarrow> u8 list) \<Rightarrow> (u8 list \<Rightarrow> string + u8 list) \<Rightarrow> bool" where
  "lz4_documented compress decompress \<longleftrightarrow>
     (\<forall>p. length p < 2 ^ 32 \<longrightarrow>
        (\<exists>block. compress p = to_le_bytes 4 (of_nat (length p) :: u32) @ block)
        \<and> decompress (compress p) = Inr p)"

text \<open>
  (C21) Compression is transparent: whatever \<open>maybe_compress_payload\<close> chose to put on the wire for
  a payload within the limit, \<open>decoded_payload\<close> of a frame carrying it is that payload.
\<close>

theorem compression_transparent:
  assumes "lz4_documented compress decompress"
    and "length p \<le> MAX_PAYLOAD_LEN"
    and "maybe_compress_payload compress p threshold = Inr (fl, data)"
  shows "decoded_payload decompress (f\<lparr>flags := fl, payload := data\<rparr>) = Inr p"
proof (cases "fl = 0")
  case True
  with assms(3) have "data = p"
    by (auto simp: maybe_compress_payload_def Let_def FLAG_COMPRESSED_LZ4_def split: if_splits)
  with True show ?thesis by (simp add: decoded_payload_def)
next
  case False
  with assms(3) have fl: "fl = FLAG_COMPRESSED_LZ4" and data: "data = compress p"
    by (auto simp: maybe_compress_payload_def Let_def split: if_splits)
  have small: "length p < 2 ^ 32" using assms(2) by (simp add: MAX_PAYLOAD_LEN_def)
  with assms(1) obtain block where
    c: "compress p = to_le_bytes 4 (of_nat (length p) :: u32) @ block" and d: "decompress (compress p) = Inr p"
    unfolding lz4_documented_def by blast
  have "from_le_bytes (to_le_bytes 4 (of_nat (length p) :: u32)) = (of_nat (length p) :: u32)"
    by (simp add: from_le_bytes_def to_le_bytes_def from_to_be_bytes_full)
  with c small have "decompressed_len_prefix data = Inr (length p)"
    by (simp add: decompressed_len_prefix_def data unat_of_nat)
  with assms(2) d show ?thesis by (simp add: decoded_payload_def fl data FLAG_COMPRESSED_LZ4_def)
qed

text \<open>A codec that satisfies the documented behaviour and does compress: runs of zero bytes.\<close>

definition zero_run_compress :: "u8 list \<Rightarrow> u8 list" where
  "zero_run_compress p =
     to_le_bytes 4 (of_nat (length p) :: u32) @ (if list_all (\<lambda>b. b = 0) p then [1] else 0 # p)"

definition zero_run_decompress :: "u8 list \<Rightarrow> string + u8 list" where
  "zero_run_decompress bs =
     (case drop 4 bs of
        [] \<Rightarrow> Inl ''truncated''
      | m # p \<Rightarrow> if m = 1 then Inr (replicate (unat (from_le_bytes (take 4 bs) :: u32)) 0) else Inr p)"

lemma zero_run_documented: "lz4_documented zero_run_compress zero_run_decompress"
proof -
  have "zero_run_decompress (zero_run_compress p) = Inr p" if "length p < 2 ^ 32" for p
  proof -
    have "p = replicate (length p) 0" if "list_all (\<lambda>b. b = 0) p"
      using that by (simp add: list_all_iff replicate_eqI)
    moreover have "from_le_bytes (to_le_bytes 4 (of_nat (length p) :: u32)) = (of_nat (length p) :: u32)"
      by (simp add: from_le_bytes_def to_le_bytes_def from_to_be_bytes_full)
    ultimately show ?thesis using that
      by (auto simp: zero_run_compress_def zero_run_decompress_def unat_of_nat)
  qed
  then show ?thesis by (auto simp: lz4_documented_def zero_run_compress_def)
qed

theorem compression_transparent_witness:
  "maybe_compress_payload zero_run_compress [0, 0, 0, 0, 0, 0, 0, 0] 4 = Inr (FLAG_COMPRESSED_LZ4, [8, 0, 0, 0, 1])
   \<and> decoded_payload zero_run_decompress
       (new_frame Telemetry 1 1 []\<lparr>flags := FLAG_COMPRESSED_LZ4, payload := [8, 0, 0, 0, 1]\<rparr>)
     = Inr [0, 0, 0, 0, 0, 0, 0, 0]"
proof -
  have m: "maybe_compress_payload zero_run_compress [0, 0, 0, 0, 0, 0, 0, 0] 4 = Inr (FLAG_COMPRESSED_LZ4, [8, 0, 0, 0, 1])"
    by (simp add: maybe_compress_payload_def zero_run_compress_def to_le_bytes_def to_be_bytes_numeral Let_def)
  show ?thesis
    using m compression_transparent [OF zero_run_documented _ m, of "new_frame Telemetry 1 1 []"]
    by (simp add: MAX_PAYLOAD_LEN_def)
qed

end
