(* ===== verification/Transport.thy ===== *)
theory Transport
  imports Tlv
begin

section \<open>The encrypted frame stream (\<open>crates/common/src/protocol/transport.rs\<close>)\<close>

text \<open>
  \<open>NoiseFrameStream\<close> carries frames over a byte stream: a frame's encoding is cut into chunks, each
  chunk is encrypted into one Noise message and each message is written with a two byte length.
  The reader buffers wire bytes until a whole record is there, decrypts it, buffers the plaintext
  until a whole frame is there, and refuses a frame whose sequence number does not exceed the
  last one accepted on its stream.

  The Noise implementation is the crate \<open>snow\<close>: its state is a type variable and its functions are
  parameters. The socket is a list of the byte blocks that successive \<open>read_buf\<close> calls deliver
  (an empty block is end of file); a \<open>read_frame\<close> future that is polled when no block is left, or
  dropped there, is \<open>Pending\<close>, with the fields of the stream as they are at that point. Bytes
  written are appended to the output; a socket that fails on write is not modelled.
\<close>

definition MAX_NOISE_MESSAGE_LEN :: nat where
  "MAX_NOISE_MESSAGE_LEN = 65535"

definition MAX_NOISE_PLAINTEXT_CHUNK :: nat where
  "MAX_NOISE_PLAINTEXT_CHUNK = 16 * 1024"

datatype transport_error =
    Io string
  | Noise string
  | Protocol protocol_error
  | NoiseMessageTooLarge nat
  | InvalidKeyHex string
  | MissingRemoteStatic
  | RemoteStaticMismatch
  | StaleFrame u32 u64 u64

record 'n noise_frame_stream =
  transport :: 'n
  remote_static :: "u8 list option"
  wire_read_buf :: "u8 list"
  plaintext_buf :: "u8 list"
  highest_inbound_seq :: "u32 \<rightharpoonup> u64"

subsection \<open>Noise messages on the wire\<close>

definition record_bytes :: "u8 list \<Rightarrow> u8 list" where
  "record_bytes message = to_be_bytes 2 (of_nat (length message) :: u16) @ message"

definition write_noise_message :: "u8 list \<Rightarrow> u8 list \<Rightarrow> transport_error + u8 list" where
  "write_noise_message io message =
     (if length message > MAX_NOISE_MESSAGE_LEN then Inl (NoiseMessageTooLarge (length message))
      else Inr (io @ to_be_bytes 2 (of_nat (length message) :: u16) @ message))"

definition read_noise_message :: "u8 list \<Rightarrow> transport_error + u8 list \<times> u8 list" where
  "read_noise_message io =
     (if length io < 2 then Inl (Io ''early eof'')
      else let len = unat (from_be_bytes (take 2 io) :: u16); io = drop 2 io in
        if len > MAX_NOISE_MESSAGE_LEN then Inl (NoiseMessageTooLarge len)
        else if length io < len then Inl (Io ''early eof'')
        else Inr (take len io, drop len io))"

text \<open>The head of the staging loop: a complete record at the front of the buffer, if there is one.\<close>

definition take_record :: "u8 list \<Rightarrow> (transport_error + u8 list \<times> u8 list) option" where
  "take_record buf =
     (if length buf \<ge> 2
      then let len = unat (from_be_bytes [buf ! 0, buf ! 1] :: u16) in
        if len > MAX_NOISE_MESSAGE_LEN then Some (Inl (NoiseMessageTooLarge len))
        else let record_len = 2 + len in
          if length buf \<ge> record_len
          then Some (Inr (drop 2 (take record_len buf), drop record_len buf))
          else None
      else None)"

datatype 'a poll = Ready 'a | Pending

fun read_noise_message_buffered ::
    "u8 list \<Rightarrow> u8 list list \<Rightarrow> (transport_error + u8 list) poll \<times> u8 list \<times> u8 list list" where
  "read_noise_message_buffered buf evs =
     (case take_record buf of
        Some (Inl e) \<Rightarrow> (Ready (Inl e), buf, evs)
      | Some (Inr (message, rest)) \<Rightarrow> (Ready (Inr message), rest, evs)
      | None \<Rightarrow>
          (case evs of
             [] \<Rightarrow> (Pending, buf, [])
           | block # evs' \<Rightarrow>
               if block = [] then (Ready (Inl (Io ''connection closed while reading Noise message'')), buf, evs')
               else read_noise_message_buffered (buf @ block) evs'))"

declare read_noise_message_buffered.simps [simp del]

subsection \<open>Handshake\<close>

text \<open>What \<open>snow\<close>'s \<open>HandshakeState\<close> offers, as a record of functions.\<close>

record ('h, 'n) snow_handshake =
  hs_write_message :: "'h \<Rightarrow> u8 list \<Rightarrow> string + u8 list \<times> 'h"
  hs_read_message :: "'h \<Rightarrow> u8 list \<Rightarrow> string + u8 list \<times> 'h"
  hs_get_remote_static :: "'h \<Rightarrow> u8 list option"
  hs_into_transport_mode :: "'h \<Rightarrow> string + 'n"

definition from_handshake ::
    "('h, 'n) snow_handshake \<Rightarrow> 'h \<Rightarrow> u8 list option \<Rightarrow> transport_error + 'n noise_frame_stream" where
  "from_handshake snow handshake rs =
     and_then (map_err Noise (hs_into_transport_mode snow handshake)) (\<lambda>t.
       Inr \<lparr>transport = t, remote_static = rs, wire_read_buf = [], plaintext_buf = [],
            highest_inbound_seq = Map.empty\<rparr>)"

text \<open>
  The two handshakes read from the bytes the peer sent and return the bytes they sent
  themselves, the bytes left over and the established stream.
\<close>

definition handshake_ik_client ::
    "('h, 'n) snow_handshake \<Rightarrow> u8 list \<Rightarrow> 'h
      \<Rightarrow> transport_error + 'n noise_frame_stream \<times> u8 list \<times> u8 list" where
  "handshake_ik_client snow io_in handshake =
     and_then (map_err Noise (hs_write_message snow handshake [])) (\<lambda>(msg, handshake).
     and_then (write_noise_message [] msg) (\<lambda>io_out.
     and_then (read_noise_message io_in) (\<lambda>(incoming, io_in).
     and_then (map_err Noise (hs_read_message snow handshake incoming)) (\<lambda>(_, handshake).
     and_then (from_handshake snow handshake (hs_get_remote_static snow handshake)) (\<lambda>stream.
       Inr (stream, io_out, io_in))))))"

definition handshake_ik_server ::
    "('h, 'n) snow_handshake \<Rightarrow> u8 list \<Rightarrow> 'h \<Rightarrow> u8 list option
      \<Rightarrow> transport_error + 'n noise_frame_stream \<times> u8 list \<times> u8 list" where
  "handshake_ik_server snow io_in handshake expected_client_public_key =
     and_then (read_noise_message io_in) (\<lambda>(incoming, io_in).
     and_then (map_err Noise (hs_read_message snow handshake incoming)) (\<lambda>(_, handshake).
     and_then (ok_or MissingRemoteStatic (hs_get_remote_static snow handshake)) (\<lambda>rs.
     and_then (ensure (case expected_client_public_key of None \<Rightarrow> True | Some expected \<Rightarrow> rs = expected)
       RemoteStaticMismatch) (\<lambda>_.
     and_then (map_err Noise (hs_write_message snow handshake [])) (\<lambda>(msg, handshake).
     and_then (write_noise_message [] msg) (\<lambda>io_out.
     and_then (from_handshake snow handshake (Some rs)) (\<lambda>stream.
       Inr (stream, io_out, io_in))))))))"

definition client_enrolled ::
    "('h, 'n) snow_handshake \<Rightarrow> (u8 list \<Rightarrow> u8 list \<Rightarrow> string + 'h) \<Rightarrow> u8 list \<Rightarrow> u8 list \<Rightarrow> u8 list
      \<Rightarrow> transport_error + 'n noise_frame_stream \<times> u8 list \<times> u8 list" where
  "client_enrolled snow build_initiator io_in client_private_key server_public_key =
     and_then (map_err Noise (build_initiator client_private_key server_public_key)) (\<lambda>handshake.
       handshake_ik_client snow io_in handshake)"

definition server_enrolled ::
    "('h, 'n) snow_handshake \<Rightarrow> (u8 list \<Rightarrow> string + 'h) \<Rightarrow> u8 list \<Rightarrow> u8 list \<Rightarrow> u8 list option
      \<Rightarrow> transport_error + 'n noise_frame_stream \<times> u8 list \<times> u8 list" where
  "server_enrolled snow build_responder io_in server_private_key expected_client_public_key =
     and_then (map_err Noise (build_responder server_private_key)) (\<lambda>handshake.
       handshake_ik_server snow io_in handshake expected_client_public_key)"

subsection \<open>Frames\<close>

fun write_chunks ::
    "('n \<Rightarrow> u8 list \<Rightarrow> string + u8 list \<times> 'n) \<Rightarrow> 'n \<Rightarrow> u8 list \<Rightarrow> u8 list list
      \<Rightarrow> (transport_error + unit) \<times> 'n \<times> u8 list" where
  "write_chunks wm t io [] = (Inr (), t, io)"
| "write_chunks wm t io (chunk # cs) =
     (case wm t chunk of
        Inl e \<Rightarrow> (Inl (Noise e), t, io)
      | Inr (message, t') \<Rightarrow>
          (case write_noise_message io message of
             Inl e \<Rightarrow> (Inl e, t', io)
           | Inr io' \<Rightarrow> write_chunks wm t' io' cs))"

definition write_frame ::
    "('n \<Rightarrow> u8 list \<Rightarrow> string + u8 list \<times> 'n) \<Rightarrow> 'n noise_frame_stream \<Rightarrow> frame \<Rightarrow> u8 list
      \<Rightarrow> (transport_error + unit) \<times> 'n noise_frame_stream \<times> u8 list" where
  "write_frame wm self f io =
     (case encode f [] of
        Inl e \<Rightarrow> (Inl (Protocol e), self, io)
      | Inr plaintext \<Rightarrow>
          (case write_chunks wm (transport self) io (chunks MAX_NOISE_PLAINTEXT_CHUNK plaintext) of
             (r, t, io') \<Rightarrow> (r, self\<lparr>transport := t\<rparr>, io')))"

definition validate_inbound_frame ::
    "'n noise_frame_stream \<Rightarrow> frame \<Rightarrow> (transport_error + unit) \<times> 'n noise_frame_stream" where
  "validate_inbound_frame self f =
     (case highest_inbound_seq self (stream_id f) of
        Some last_seq \<Rightarrow>
          if seq f \<le> last_seq then (Inl (StaleFrame (stream_id f) (seq f) last_seq), self)
          else (Inr (), self\<lparr>highest_inbound_seq := (highest_inbound_seq self)(stream_id f \<mapsto> seq f)\<rparr>)
      | None \<Rightarrow>
          (Inr (), self\<lparr>highest_inbound_seq := (highest_inbound_seq self)(stream_id f \<mapsto> seq f)\<rparr>))"

text \<open>Each round of the loop takes at least the two length bytes off the wire, so it ends.\<close>

abbreviation wire_left :: "u8 list \<Rightarrow> u8 list list \<Rightarrow> nat" where
  "wire_left buf evs \<equiv> length buf + length (concat evs)"

lemma take_record_length:
  "take_record buf = Some (Inr (m, rest)) \<Longrightarrow> length rest + 2 \<le> length buf"
  by (auto simp: take_record_def Let_def split: if_splits)

lemma read_noise_shrinks:
  "read_noise_message_buffered buf evs = (Ready (Inr m), buf', evs')
    \<Longrightarrow> wire_left buf' evs' + 2 \<le> wire_left buf evs"
proof (induction buf evs rule: read_noise_message_buffered.induct)
  case (1 buf evs)
  show ?case
  proof (cases "take_record buf")
    case None
    then obtain b evs1 where "evs = b # evs1" "b \<noteq> []"
      and "read_noise_message_buffered (buf @ b) evs1 = (Ready (Inr m), buf', evs')"
      using "1.prems" by (subst (asm) read_noise_message_buffered.simps)
        (auto split: list.splits if_splits)
    then show ?thesis using "1.IH" [OF None] by simp
  next
    case (Some r)
    then show ?thesis using "1.prems" take_record_length
      by (subst (asm) read_noise_message_buffered.simps) (auto split: sum.splits prod.splits)
  qed
qed

function read_frame ::
    "('n \<Rightarrow> u8 list \<Rightarrow> string + u8 list \<times> 'n) \<Rightarrow> 'n noise_frame_stream \<Rightarrow> u8 list list
      \<Rightarrow> (transport_error + frame) poll \<times> 'n noise_frame_stream \<times> u8 list list" where
  "read_frame rm self evs =
     (case decode (plaintext_buf self) of
        (Inl e, buf) \<Rightarrow> (Ready (Inl (Protocol e)), self\<lparr>plaintext_buf := buf\<rparr>, evs)
      | (Inr (Some f), buf) \<Rightarrow>
          (case validate_inbound_frame (self\<lparr>plaintext_buf := buf\<rparr>) f of
             (Inl e, self) \<Rightarrow> (Ready (Inl e), self, evs)
           | (Inr _, self) \<Rightarrow> (Ready (Inr f), self, evs))
      | (Inr None, buf) \<Rightarrow>
          (case read_noise_message_buffered (wire_read_buf self) evs of
             (Pending, wire, evs') \<Rightarrow> (Pending, self\<lparr>wire_read_buf := wire\<rparr>, evs')
           | (Ready (Inl e), wire, evs') \<Rightarrow> (Ready (Inl e), self\<lparr>wire_read_buf := wire\<rparr>, evs')
           | (Ready (Inr encrypted), wire, evs') \<Rightarrow>
               (case rm (transport self) encrypted of
                  Inl e \<Rightarrow> (Ready (Inl (Noise e)), self\<lparr>wire_read_buf := wire\<rparr>, evs')
                | Inr (plain, t) \<Rightarrow>
                    read_frame rm (self\<lparr>transport := t, wire_read_buf := wire,
                      plaintext_buf := plaintext_buf self @ plain\<rparr>) evs')))"
  by pat_completeness auto
termination
  by (relation "measure (\<lambda>(rm, self, evs). wire_left (wire_read_buf self) evs)")
    (auto dest!: sym [of "(Ready (Inr _), _)"] read_noise_shrinks)

declare read_frame.simps [simp del]

subsection \<open>Cancellation\<close>

text \<open>
  Dropping a \<open>read_frame\<close> future between two socket reads loses nothing: the stream it leaves
  behind, read again, goes on exactly where the uninterrupted read would have been.
\<close>

definition resume_with ::
    "('s \<Rightarrow> u8 list list \<Rightarrow> 'r poll \<times> 's \<times> u8 list list) \<Rightarrow> u8 list list
      \<Rightarrow> 'r poll \<times> 's \<times> u8 list list \<Rightarrow> 'r poll \<times> 's \<times> u8 list list" where
  "resume_with rd later out =
     (case out of
        (Pending, s, _) \<Rightarrow> rd s later
      | (Ready r, s, rest) \<Rightarrow> (Ready r, s, rest @ later))"

lemma read_noise_append:
  "read_noise_message_buffered buf (evs @ later) =
     resume_with read_noise_message_buffered later (read_noise_message_buffered buf evs)"
proof (induction buf evs rule: read_noise_message_buffered.induct)
  case (1 buf evs)
  show ?case
  proof (cases "take_record buf")
    case (Some r)
    then show ?thesis
      by (simp add: resume_with_def read_noise_message_buffered.simps [of buf] split: sum.splits prod.splits)
  next
    case None
    note unfold = read_noise_message_buffered.simps [of buf]
    show ?thesis
    proof (cases evs)
      case Nil
      then show ?thesis using None by (simp add: resume_with_def unfold [of "[]"])
    next
      case (Cons b bs)
      then show ?thesis using None 1 [OF None Cons]
        by (cases "b = []") (simp_all add: resume_with_def unfold)
    qed
  qed
qed

lemma read_noise_Pending_rest:
  "read_noise_message_buffered buf evs = (Pending, buf', rest) \<Longrightarrow> rest = []"
proof (induction buf evs rule: read_noise_message_buffered.induct)
  case (1 buf evs)
  then show ?case
    by (subst (asm) (2) read_noise_message_buffered.simps)
      (auto split: option.splits list.splits if_splits sum.splits)
qed

lemma decode_None_buf: "decode buf = (Inr None, buf') \<Longrightarrow> buf' = buf"
  by (simp add: decode_alt split: if_splits)

lemma read_frame_rounds [consumes 0, case_names round]:
  assumes "\<And>self evs. (\<And>encrypted wire evs' plain t.
      decode (plaintext_buf self) = (Inr None, plaintext_buf self) \<Longrightarrow>
      read_noise_message_buffered (wire_read_buf self) evs = (Ready (Inr encrypted), wire, evs') \<Longrightarrow>
      rm (transport self) encrypted = Inr (plain, t) \<Longrightarrow>
      P (self\<lparr>transport := t, wire_read_buf := wire, plaintext_buf := plaintext_buf self @ plain\<rparr>) evs')
    \<Longrightarrow> P self evs"
  shows "P self evs"
proof (induction "wire_left (wire_read_buf self) evs" arbitrary: self evs rule: less_induct)
  case less
  show ?case
  proof (rule assms)
    fix encrypted wire evs' plain t
    assume "read_noise_message_buffered (wire_read_buf self) evs = (Ready (Inr encrypted), wire, evs')"
    from read_noise_shrinks [OF this]
    show "P (self\<lparr>transport := t, wire_read_buf := wire, plaintext_buf := plaintext_buf self @ plain\<rparr>) evs'"
      by (intro less) simp
  qed
qed

lemma read_frame_append:
  "read_frame rm self (evs @ later) = resume_with (read_frame rm) later (read_frame rm self evs)"
proof (induction self evs rule: read_frame_rounds [where rm = rm])
  case (round self evs)
  note unfold = read_frame.simps [of rm self]
  obtain r buf where dec: "decode (plaintext_buf self) = (r, buf)" by force
  show ?case
  proof (cases "r = Inr None")
    case False
    then show ?thesis using dec
      by (auto simp: unfold resume_with_def split: sum.splits option.splits prod.splits)
  next
    case True
    obtain p wire rest where rd: "read_noise_message_buffered (wire_read_buf self) evs = (p, wire, rest)"
      by (metis prod_cases3)
    note step = rd read_noise_append [of "wire_read_buf self" evs later, unfolded rd]
    show ?thesis
    proof (cases p)
      case Pending
      then show ?thesis using dec True step
        by (simp add: unfold resume_with_def read_frame.simps [of rm "self\<lparr>wire_read_buf := wire\<rparr>"]
            split: prod.splits poll.splits sum.splits)
    next
      case (Ready m)
      show ?thesis
      proof (cases m)
        case (Inl e)
        then show ?thesis using dec True step Ready by (simp add: unfold resume_with_def)
      next
        case (Inr encrypted)
        show ?thesis
        proof (cases "rm (transport self) encrypted")
          case (Inl e)
          then show ?thesis using dec True step Ready \<open>m = Inr encrypted\<close> by (simp add: unfold resume_with_def)
        next
          case snd: (Inr pt)
          obtain plain t where pt: "pt = (plain, t)" by force
          have "decode (plaintext_buf self) = (Inr None, plaintext_buf self)"
            using dec True decode_None_buf by simp
          from round [OF this] show ?thesis using dec True step Ready Inr snd pt
            by (simp add: unfold resume_with_def)
        qed
      qed
    qed
  qed
qed

subsection \<open>Sequences of frames\<close>

text \<open>Writing a list of frames, and reading up to a number of frames until a read is pending or fails.\<close>

fun write_frames ::
    "('n \<Rightarrow> u8 list \<Rightarrow> string + u8 list \<times> 'n) \<Rightarrow> 'n noise_frame_stream \<Rightarrow> frame list \<Rightarrow> u8 list
      \<Rightarrow> (transport_error + unit) \<times> 'n noise_frame_stream \<times> u8 list" where
  "write_frames wm self [] io = (Inr (), self, io)"
| "write_frames wm self (f # fs) io =
     (case write_frame wm self f io of
        (Inl e, self, io) \<Rightarrow> (Inl e, self, io)
      | (Inr _, self, io) \<Rightarrow> write_frames wm self fs io)"

fun read_frames ::
    "('n \<Rightarrow> u8 list \<Rightarrow> string + u8 list \<times> 'n) \<Rightarrow> nat \<Rightarrow> 'n noise_frame_stream \<Rightarrow> u8 list list
      \<Rightarrow> frame list \<times> 'n noise_frame_stream \<times> u8 list list" where
  "read_frames rm 0 self evs = ([], self, evs)"
| "read_frames rm (Suc n) self evs =
     (case read_frame rm self evs of
        (Ready (Inr f), self, evs) \<Rightarrow> (case read_frames rm n self evs of (fs, out) \<Rightarrow> (f # fs, out))
      | (_, self, evs) \<Rightarrow> ([], self, evs))"

fun fresh_seqs :: "(u32 \<rightharpoonup> u64) \<Rightarrow> frame list \<Rightarrow> bool" where
  "fresh_seqs h [] \<longleftrightarrow> True"
| "fresh_seqs h (f # fs) \<longleftrightarrow>
     (case h (stream_id f) of None \<Rightarrow> True | Some l \<Rightarrow> l < seq f)
     \<and> fresh_seqs (h(stream_id f \<mapsto> seq f)) fs"

lemma validate_inbound_frame_Ok:
  "validate_inbound_frame self f = (Inr u, self') \<longleftrightarrow>
     (case highest_inbound_seq self (stream_id f) of None \<Rightarrow> True | Some l \<Rightarrow> l < seq f)
     \<and> self' = self\<lparr>highest_inbound_seq := (highest_inbound_seq self)(stream_id f \<mapsto> seq f)\<rparr>"
  by (auto simp: validate_inbound_frame_def split: option.splits)

lemma read_frame_accepts:
  "read_frame rm self evs = (Ready (Inr f), self', evs') \<Longrightarrow>
     (case highest_inbound_seq self (stream_id f) of None \<Rightarrow> True | Some l \<Rightarrow> l < seq f)
     \<and> highest_inbound_seq self' = (highest_inbound_seq self)(stream_id f \<mapsto> seq f)"
proof (induction self evs rule: read_frame_rounds [where rm = rm])
  case (round self evs)
  show ?case
  proof (cases "\<exists>encrypted wire rest plain t. decode (plaintext_buf self) = (Inr None, plaintext_buf self)
      \<and> read_noise_message_buffered (wire_read_buf self) evs = (Ready (Inr encrypted), wire, rest)
      \<and> rm (transport self) encrypted = Inr (plain, t)")
    case True
    then obtain encrypted wire rest plain t where *: "decode (plaintext_buf self) = (Inr None, plaintext_buf self)"
      "read_noise_message_buffered (wire_read_buf self) evs = (Ready (Inr encrypted), wire, rest)"
      "rm (transport self) encrypted = Inr (plain, t)" by blast
    from round.prems * have "read_frame rm (self\<lparr>transport := t, wire_read_buf := wire,
        plaintext_buf := plaintext_buf self @ plain\<rparr>) rest = (Ready (Inr f), self', evs')"
      by (subst (asm) read_frame.simps) simp
    from round.IH [OF * this] show ?thesis by simp
  next
    case False
    obtain buf where "decode (plaintext_buf self) = (Inr (Some f), buf)"
        and "validate_inbound_frame (self\<lparr>plaintext_buf := buf\<rparr>) f = (Inr (), self')"
      using round.prems False decode_None_buf [of "plaintext_buf self"]
      by (subst (asm) read_frame.simps)
        (auto split: prod.splits sum.splits option.splits poll.splits)
    then show ?thesis by (simp add: validate_inbound_frame_Ok)
  qed
qed

lemma read_frames_fresh:
  "read_frames rm n self evs = (fs, self', evs') \<Longrightarrow> fresh_seqs (highest_inbound_seq self) fs"
proof (induction n arbitrary: self evs fs)
  case (Suc n)
  show ?case
  proof (cases "\<exists>f s1 e1. read_frame rm self evs = (Ready (Inr f), s1, e1)")
    case True
    then obtain f s1 e1 fs1 where rd: "read_frame rm self evs = (Ready (Inr f), s1, e1)"
      and "read_frames rm n s1 e1 = (fs1, self', evs')" and "fs = f # fs1"
      using Suc.prems by (auto split: prod.splits)
    then show ?thesis using Suc.IH [of s1 e1 fs1] read_frame_accepts [OF rd] by (simp add: fun_upd_def)
  next
    case False
    then show ?thesis using Suc.prems by (auto split: prod.splits poll.splits sum.splits)
  qed
qed simp

lemma fresh_seqs_above:
  "fresh_seqs h fs \<Longrightarrow> f \<in> set fs \<Longrightarrow> h (stream_id f) = Some l \<Longrightarrow> l < seq f"
proof (induction fs arbitrary: h l)
  case (Cons g gs)
  have gs: "fresh_seqs (h(stream_id g \<mapsto> seq g)) gs"
    and g: "h (stream_id g) = Some k \<Longrightarrow> k < seq g" for k using Cons.prems(1) by simp_all
  show ?case
  proof (cases "f = g")
    case True
    then show ?thesis using g [of l] Cons.prems(3) by simp
  next
    case False
    then have f: "f \<in> set gs" using Cons.prems(2) by simp
    show ?thesis
    proof (cases "stream_id f = stream_id g")
      case True
      then have "seq g < seq f" by (intro Cons.IH [OF gs f]) simp
      then show ?thesis using g [of l] Cons.prems(3) True by simp
    next
      case False
      then show ?thesis using Cons.prems(3) by (intro Cons.IH [OF gs f]) simp
    qed
  qed
qed simp

lemma fresh_seqs_increasing:
  "fresh_seqs h fs \<Longrightarrow> sorted_wrt (<) (map seq (filter (\<lambda>f. stream_id f = i) fs))"
proof (induction fs arbitrary: h)
  case (Cons g gs)
  have gs: "fresh_seqs (h(stream_id g \<mapsto> seq g)) gs" using Cons.prems by simp
  have "seq g < seq f" if "f \<in> set gs" "stream_id f = stream_id g" for f
    using fresh_seqs_above [OF gs that(1)] that(2) by simp
  then show ?case using Cons.IH [OF gs] by simp
qed simp

subsection \<open>Delivery\<close>

text \<open>
  What \<open>snow\<close> documents of a pair of transport states that a handshake established: a message
  of up to 16 KiB written in the one state fits into a Noise message, reads back in the other, and
  the two states stay in step.
\<close>

definition noise_in_step ::
    "('s \<Rightarrow> u8 list \<Rightarrow> string + u8 list \<times> 's) \<Rightarrow> ('r \<Rightarrow> u8 list \<Rightarrow> string + u8 list \<times> 'r)
      \<Rightarrow> ('s \<Rightarrow> 'r \<Rightarrow> bool) \<Rightarrow> bool" where
  "noise_in_step wm rm in_step \<longleftrightarrow>
     (\<forall>s r chunk. in_step s r \<and> length chunk \<le> MAX_NOISE_PLAINTEXT_CHUNK \<longrightarrow>
        (\<exists>c s' r'. wm s chunk = Inr (c, s') \<and> rm r c = Inr (chunk, r')
           \<and> length c \<le> MAX_NOISE_MESSAGE_LEN \<and> in_step s' r'))"

fun decrypt_all :: "('n \<Rightarrow> u8 list \<Rightarrow> string + u8 list \<times> 'n) \<Rightarrow> 'n \<Rightarrow> u8 list list \<Rightarrow> (u8 list list \<times> 'n) option" where
  "decrypt_all rm t [] = Some ([], t)"
| "decrypt_all rm t (c # cs) =
     (case rm t c of
        Inl _ \<Rightarrow> None
      | Inr (p, t) \<Rightarrow> map_option (\<lambda>(ps, t). (p # ps, t)) (decrypt_all rm t cs))"

lemma decrypt_all_append:
  "decrypt_all rm t cs = Some (ps, t1) \<Longrightarrow> decrypt_all rm t1 ds = Some (qs, t2)
    \<Longrightarrow> decrypt_all rm t (cs @ ds) = Some (ps @ qs, t2)"
  by (induction cs arbitrary: t ps) (auto split: sum.splits)

lemma write_noise_message_Ok:
  "length m \<le> MAX_NOISE_MESSAGE_LEN \<Longrightarrow> write_noise_message io m = Inr (io @ record_bytes m)"
  by (simp add: write_noise_message_def record_bytes_def)

lemma write_chunks_in_step:
  assumes "noise_in_step wm rm in_step"
  shows "in_step s r \<Longrightarrow> \<forall>c\<in>set chs. length c \<le> MAX_NOISE_PLAINTEXT_CHUNK \<Longrightarrow>
    \<exists>cs s' r'. write_chunks wm s io chs = (Inr (), s', io @ concat (map record_bytes cs))
      \<and> decrypt_all rm r cs = Some (chs, r') \<and> in_step s' r'
      \<and> (\<forall>c\<in>set cs. length c \<le> MAX_NOISE_MESSAGE_LEN)"
proof (induction chs arbitrary: s r io)
  case Nil
  show ?case by (rule exI [of _ "[]"]) (use Nil in auto)
next
  case (Cons ch chs)
  obtain c s1 r1 where c: "wm s ch = Inr (c, s1)" "rm r c = Inr (ch, r1)"
      "length c \<le> MAX_NOISE_MESSAGE_LEN" "in_step s1 r1"
    using assms Cons.prems unfolding noise_in_step_def by (meson list.set_intros(1))
  obtain cs s2 r2 where
      "write_chunks wm s1 (io @ record_bytes c) chs = (Inr (), s2, (io @ record_bytes c) @ concat (map record_bytes cs))"
      "decrypt_all rm r1 cs = Some (chs, r2)" "in_step s2 r2" "\<forall>c\<in>set cs. length c \<le> MAX_NOISE_MESSAGE_LEN"
    using Cons.IH [OF c(4)] Cons.prems(2) by (metis list.set_intros(2))
  then show ?case using c
    by (intro exI [of _ "c # cs"] exI [of _ s2] exI [of _ r2])
      (simp add: write_noise_message_Ok)
qed

lemma write_frame_in_step:
  assumes "noise_in_step wm rm in_step" and "in_step (transport self) r" and "wf_frame f"
  shows "\<exists>cs ps t r'. write_frame wm self f io = (Inr (), self\<lparr>transport := t\<rparr>, io @ concat (map record_bytes cs))
      \<and> decrypt_all rm r cs = Some (ps, r') \<and> in_step t r' \<and> [] \<notin> set ps \<and> concat ps = wire_image f
      \<and> (\<forall>c\<in>set cs. length c \<le> MAX_NOISE_MESSAGE_LEN)"
proof -
  define chs where "chs = chunks MAX_NOISE_PLAINTEXT_CHUNK (wire_image f)"
  have len: "\<forall>c\<in>set chs. length c \<le> MAX_NOISE_PLAINTEXT_CHUNK" and "[] \<notin> set chs"
    using chunks_bound unfolding chs_def by blast+
  moreover from write_chunks_in_step [OF assms(1,2) len, of io] obtain cs t r' where
      "write_chunks wm (transport self) io chs = (Inr (), t, io @ concat (map record_bytes cs))"
      "decrypt_all rm r cs = Some (chs, r')" "in_step t r'" "\<forall>c\<in>set cs. length c \<le> MAX_NOISE_MESSAGE_LEN"
    by (elim exE conjE)
  moreover have "concat chs = wire_image f"
    by (simp add: chs_def concat_chunks MAX_NOISE_PLAINTEXT_CHUNK_def)
  ultimately show ?thesis using encode_wf [OF assms(3), of "[]"]
    by (intro exI [of _ cs] exI [of _ chs] exI [of _ t] exI [of _ r'])
      (simp add: write_frame_def flip: chs_def)
qed

lemma write_frames_in_step:
  assumes "noise_in_step wm rm in_step"
  shows "in_step (transport self) r \<Longrightarrow> \<forall>f\<in>set fs. wf_frame f \<Longrightarrow>
    \<exists>cs ps t r'. write_frames wm self fs io = (Inr (), self\<lparr>transport := t\<rparr>, io @ concat (map record_bytes cs))
      \<and> decrypt_all rm r cs = Some (ps, r') \<and> in_step t r' \<and> [] \<notin> set ps
      \<and> concat ps = concat (map wire_image fs) \<and> (\<forall>c\<in>set cs. length c \<le> MAX_NOISE_MESSAGE_LEN)"
proof (induction fs arbitrary: self r io)
  case Nil
  show ?case by (rule exI [of _ "[]"], rule exI [of _ "[]"], rule exI [of _ "transport self"]) (use Nil in auto)
next
  case (Cons f fs)
  obtain cs ps t r1 where 1: "write_frame wm self f io = (Inr (), self\<lparr>transport := t\<rparr>, io @ concat (map record_bytes cs))"
      "decrypt_all rm r cs = Some (ps, r1)" "in_step t r1" "[] \<notin> set ps" "concat ps = wire_image f"
      "\<forall>c\<in>set cs. length c \<le> MAX_NOISE_MESSAGE_LEN"
    using write_frame_in_step [OF assms Cons.prems(1), of f io] Cons.prems(2) by auto
  define self1 where "self1 = self\<lparr>transport := t\<rparr>"
  have "in_step (transport self1) r1" using 1(3) by (simp add: self1_def)
  from Cons.IH [OF this, of "io @ concat (map record_bytes cs)"] Cons.prems(2)
  obtain ds qs t2 r2 where 2: "write_frames wm self1 fs (io @ concat (map record_bytes cs)) =
        (Inr (), self1\<lparr>transport := t2\<rparr>, (io @ concat (map record_bytes cs)) @ concat (map record_bytes ds))"
      "decrypt_all rm r1 ds = Some (qs, r2)" "in_step t2 r2" "[] \<notin> set qs"
      "concat qs = concat (map wire_image fs)" "\<forall>c\<in>set ds. length c \<le> MAX_NOISE_MESSAGE_LEN"
    by auto
  then show ?case using 1 decrypt_all_append [OF 1(2) 2(2)]
    by (intro exI [of _ "cs @ ds"] exI [of _ "ps @ qs"] exI [of _ t2] exI [of _ r2])
      (auto simp: self1_def)
qed

lemma record_len_bytes:
  assumes "length c \<le> MAX_NOISE_MESSAGE_LEN"
  obtains h l where "record_bytes c = h # l # c" "unat (from_be_bytes [h, l] :: u16) = length c"
proof -
  have "length (to_be_bytes 2 (of_nat (length c) :: u16)) = 2" by simp
  then obtain h l where hl: "to_be_bytes 2 (of_nat (length c) :: u16) = [h, l]"
    by (auto simp: numeral_2_eq_2 length_Suc_conv)
  have "unat (from_be_bytes (to_be_bytes 2 (of_nat (length c) :: u16)) :: u16) = length c"
    using assms by (simp add: from_to_be_bytes_full unat_of_nat MAX_NOISE_MESSAGE_LEN_def)
  with hl show ?thesis by (intro that [of h l]) (simp_all add: record_bytes_def)
qed

lemma take_record_Cons:
  "take_record (h # l # xs) =
     (let len = unat (from_be_bytes [h, l] :: u16) in
      if len > MAX_NOISE_MESSAGE_LEN then Some (Inl (NoiseMessageTooLarge len))
      else if length xs \<ge> len then Some (Inr (take len xs, drop len xs)) else None)"
  by (simp add: take_record_def Let_def)

lemma take_record_complete:
  "length c \<le> MAX_NOISE_MESSAGE_LEN \<Longrightarrow> take_record (record_bytes c @ w) = Some (Inr (c, w))"
  by (rule record_len_bytes [of c], assumption) (simp add: take_record_Cons)

lemma take_record_partial:
  assumes "length c \<le> MAX_NOISE_MESSAGE_LEN" and "record_bytes c = p @ q" and "q \<noteq> []"
  shows "take_record p = None"
proof -
  obtain h l where hl: "record_bytes c = h # l # c" "unat (from_be_bytes [h, l] :: u16) = length c"
    using record_len_bytes [OF assms(1)] .
  show ?thesis
  proof (cases "length p < 2")
    case True
    then show ?thesis by (simp add: take_record_def)
  next
    case False
    then obtain p' where p: "p = h # l # p'" using assms(2) hl(1)
      by (cases p; cases "tl p") auto
    then have "length p < 2 + length c" using assms(2,3) hl(1) by (cases q) auto
    then show ?thesis using hl(2) assms(1) p by (simp add: take_record_Cons)
  qed
qed

lemma append_eq_prefix_cases:
  assumes "p @ q = a @ b"
  obtains (long) r where "p = a @ r" "b = r @ q" | (short) r where "a = p @ r" "r \<noteq> []" "q = r @ b"
proof -
  obtain r where "p = a @ r \<and> r @ q = b \<or> p @ r = a \<and> q = r @ b"
    using assms unfolding append_eq_append_conv2 by blast
  then show ?thesis
  proof (elim disjE conjE)
    assume "p = a @ r" "r @ q = b"
    then show ?thesis using long [of r] by simp
  next
    assume "p @ r = a" "q = r @ b"
    then show ?thesis using long [of "[]"] short [of r] by (cases "r = []") simp_all
  qed
qed

lemma read_noise_ready:
  "take_record buf = Some (Inr (c, r)) \<Longrightarrow> read_noise_message_buffered buf evs = (Ready (Inr c), r, evs)"
  by (simp add: read_noise_message_buffered.simps)

lemma read_noise_more:
  "take_record buf = None \<Longrightarrow> b \<noteq> []
    \<Longrightarrow> read_noise_message_buffered buf (b # evs) = read_noise_message_buffered (buf @ b) evs"
  by (simp add: read_noise_message_buffered.simps [of buf])

lemma read_noise_delivers:
  "\<lbrakk>[] \<notin> set evs; buf @ concat evs = record_bytes c @ w; length c \<le> MAX_NOISE_MESSAGE_LEN\<rbrakk> \<Longrightarrow>
     \<exists>buf' evs'. read_noise_message_buffered buf evs = (Ready (Inr c), buf', evs')
       \<and> buf' @ concat evs' = w \<and> [] \<notin> set evs'"
proof (induction evs arbitrary: buf)
  case Nil
  then have "take_record buf = Some (Inr (c, w))" by (simp add: take_record_complete)
  then show ?case by (simp add: read_noise_ready)
next
  case (Cons b evs)
  from Cons.prems(2) show ?case
  proof (cases rule: append_eq_prefix_cases)
    case (long r)
    have "take_record buf = Some (Inr (c, r))"
      unfolding long(1) using Cons.prems(3) by (rule take_record_complete)
    from read_noise_ready [OF this, of "b # evs"] show ?thesis using Cons.prems(1) long(2) by auto
  next
    case (short r)
    then have none: "take_record buf = None" by (intro take_record_partial [OF Cons.prems(3)])
    have "\<exists>buf' evs'. read_noise_message_buffered (buf @ b) evs = (Ready (Inr c), buf', evs')
        \<and> buf' @ concat evs' = w \<and> [] \<notin> set evs'"
      by (rule Cons.IH) (use Cons.prems in simp_all)
    moreover have "read_noise_message_buffered buf (b # evs) = read_noise_message_buffered (buf @ b) evs"
      using Cons.prems(1) by (intro read_noise_more [OF none]) auto
    ultimately show ?thesis by simp
  qed
qed

definition in_flight ::
    "('n \<Rightarrow> u8 list \<Rightarrow> string + u8 list \<times> 'n) \<Rightarrow> 'n noise_frame_stream \<Rightarrow> u8 list list \<Rightarrow> frame list \<Rightarrow> bool" where
  "in_flight rm self evs fs \<longleftrightarrow> [] \<notin> set evs \<and>
     (\<exists>cs ps t. wire_read_buf self @ concat evs = concat (map record_bytes cs)
        \<and> (\<forall>c\<in>set cs. length c \<le> MAX_NOISE_MESSAGE_LEN)
        \<and> decrypt_all rm (transport self) cs = Some (ps, t) \<and> [] \<notin> set ps
        \<and> plaintext_buf self @ concat ps = concat (map wire_image fs))"

lemma in_flight_done:
  assumes "in_flight rm self evs []"
  shows "read_frame rm self evs = (Pending, self, [])" "evs = []" "wire_read_buf self = []" "plaintext_buf self = []"
proof -
  obtain cs ps t where w: "wire_read_buf self @ concat evs = concat (map record_bytes cs)" "[] \<notin> set evs"
      "decrypt_all rm (transport self) cs = Some (ps, t)" "[] \<notin> set ps" "plaintext_buf self @ concat ps = []"
    using assms unfolding in_flight_def by auto
  then have "ps = []" and pb: "plaintext_buf self = []" by (cases ps, auto)+
  then have "cs = []" using w(3) by (cases cs) (auto split: sum.splits)
  then show e: "evs = []" "wire_read_buf self = []" "plaintext_buf self = []" using w(1,2) pb by (cases evs, auto)+
  then show "read_frame rm self evs = (Pending, self, [])"
    by (simp add: read_frame.simps decode_alt tlv_consts read_noise_message_buffered.simps take_record_def)
qed

lemma read_frame_next:
  "decode (plaintext_buf self) = (Inr (Some f), rest) \<Longrightarrow>
   validate_inbound_frame (self\<lparr>plaintext_buf := rest\<rparr>) f = (Inr u, self') \<Longrightarrow>
   read_frame rm self evs = (Ready (Inr f), self', evs)"
  by (simp add: read_frame.simps)

lemma read_frame_round:
  "decode (plaintext_buf self) = (Inr None, buf) \<Longrightarrow>
   read_noise_message_buffered (wire_read_buf self) evs = (Ready (Inr c), wire, evs') \<Longrightarrow>
   rm (transport self) c = Inr (plain, t) \<Longrightarrow>
   read_frame rm self evs = read_frame rm (self\<lparr>transport := t, wire_read_buf := wire,
     plaintext_buf := plaintext_buf self @ plain\<rparr>) evs'"
  by (subst read_frame.simps) simp

lemma in_flight_next:
  assumes "wf_frame f" "canonical_kind (kind f)"
    and "case highest_inbound_seq self (stream_id f) of None \<Rightarrow> True | Some l \<Rightarrow> l < seq f"
    and "in_flight rm self evs (f # fs)"
  shows "\<exists>self' evs'. read_frame rm self evs = (Ready (Inr f), self', evs') \<and> in_flight rm self' evs' fs
    \<and> highest_inbound_seq self' = (highest_inbound_seq self)(stream_id f \<mapsto> seq f)"
  using assms(3,4)
proof (induction self evs rule: read_frame_rounds [where rm = rm])
  case (round self evs)
  obtain cs ps t where w: "wire_read_buf self @ concat evs = concat (map record_bytes cs)"
      "[] \<notin> set evs" "\<forall>c\<in>set cs. length c \<le> MAX_NOISE_MESSAGE_LEN"
      "decrypt_all rm (transport self) cs = Some (ps, t)" "[] \<notin> set ps"
      and pl: "plaintext_buf self @ concat ps = wire_image f @ concat (map wire_image fs)"
    using round.prems(2) unfolding in_flight_def by auto
  from pl show ?case
  proof (cases rule: append_eq_prefix_cases)
    case (long r)
    define self' where "self' = self\<lparr>plaintext_buf := r,
      highest_inbound_seq := (highest_inbound_seq self)(stream_id f \<mapsto> seq f)\<rparr>"
    have "decode (plaintext_buf self) = (Inr (Some f), r)"
      unfolding long(1) by (rule decode_wire_image [OF assms(1,2)])
    moreover have "validate_inbound_frame (self\<lparr>plaintext_buf := r\<rparr>) f = (Inr (), self')"
      using round.prems(1) by (simp add: validate_inbound_frame_Ok self'_def)
    ultimately have "read_frame rm self evs = (Ready (Inr f), self', evs)" by (rule read_frame_next)
    moreover have "in_flight rm self' evs fs"
      using w long(2) unfolding in_flight_def by (auto simp: self'_def)
    ultimately show ?thesis by (auto simp: self'_def)
  next
    case (short r)
    then have none: "decode (plaintext_buf self) = (Inr None, plaintext_buf self)"
      by (intro decode_prefix [OF assms(1)])
    obtain p ps' where ps: "ps = p # ps'" using short by (cases ps) auto
    then obtain c cs' t1 where cs: "cs = c # cs'" and rm: "rm (transport self) c = Inr (p, t1)"
        and dec: "decrypt_all rm t1 cs' = Some (ps', t)"
      using w(4) by (cases cs) (auto split: sum.splits)
    obtain wire evs' where rd: "read_noise_message_buffered (wire_read_buf self) evs = (Ready (Inr c), wire, evs')"
        and rest: "wire @ concat evs' = concat (map record_bytes cs')" "[] \<notin> set evs'"
      using read_noise_delivers [OF w(2), of "wire_read_buf self" c] w(1,3) cs by auto
    have "in_flight rm (self\<lparr>transport := t1, wire_read_buf := wire, plaintext_buf := plaintext_buf self @ p\<rparr>) evs' (f # fs)"
      using rest w(3,5) dec pl ps cs unfolding in_flight_def by auto
    from round.IH [OF none rd rm _ this] round.prems(1) show ?thesis
      by (simp add: read_frame_round [where rm = rm, OF none rd rm])
  qed
qed

lemma in_flight_all:
  "\<lbrakk>\<forall>f\<in>set fs. wf_frame f \<and> canonical_kind (kind f); fresh_seqs (highest_inbound_seq self) fs;
    in_flight rm self evs fs; length fs \<le> n\<rbrakk> \<Longrightarrow>
   \<exists>self'. read_frames rm n self evs = (fs, self', []) \<and> wire_read_buf self' = [] \<and> plaintext_buf self' = []"
proof (induction fs arbitrary: self evs n)
  case Nil
  then show ?case using in_flight_done [OF Nil.prems(3)] by (cases n) auto
next
  case (Cons f fs)
  obtain m where n: "n = Suc m" "length fs \<le> m" using Cons.prems(4) by (cases n) auto
  obtain self1 evs1 where rd: "read_frame rm self evs = (Ready (Inr f), self1, evs1)"
      and fl: "in_flight rm self1 evs1 fs"
      and h: "highest_inbound_seq self1 = (highest_inbound_seq self)(stream_id f \<mapsto> seq f)"
    using in_flight_next [of f self rm evs fs] Cons.prems by auto
  have "fresh_seqs (highest_inbound_seq self1) fs" unfolding h using Cons.prems(2) by simp
  from Cons.IH [OF _ this fl n(2)] Cons.prems(1) show ?case using rd n(1) by auto
qed

subsection \<open>Properties\<close>

text \<open>
  (C3) Frames are delivered. Whatever the blocks in which the network hands over the bytes of a
  sequence of written frames, the reader gets exactly these frames, in order, then waits for
  more with empty buffers: for every list of encodable frames whose sequence numbers are fresh on
  their streams, and a Noise session whose two ends are in step.
\<close>

theorem frames_delivered:
  assumes "noise_in_step wm rm in_step" and "in_step (transport sender) (transport receiver)"
    and "wire_read_buf receiver = []" and "plaintext_buf receiver = []"
    and "\<forall>f\<in>set fs. wf_frame f \<and> canonical_kind (kind f)"
    and "fresh_seqs (highest_inbound_seq receiver) fs"
    and "[] \<notin> set evs" and "concat evs = snd (snd (write_frames wm sender fs []))"
    and "length fs \<le> n"
  shows "fst (write_frames wm sender fs []) = Inr ()
    \<and> (\<exists>receiver'. read_frames rm n receiver evs = (fs, receiver', [])
         \<and> wire_read_buf receiver' = [] \<and> plaintext_buf receiver' = [])"
proof -
  obtain cs ps t r' where wr: "write_frames wm sender fs [] = (Inr (), sender\<lparr>transport := t\<rparr>, concat (map record_bytes cs))"
      "decrypt_all rm (transport receiver) cs = Some (ps, r')" "[] \<notin> set ps"
      "concat ps = concat (map wire_image fs)" "\<forall>c\<in>set cs. length c \<le> MAX_NOISE_MESSAGE_LEN"
    using write_frames_in_step [OF assms(1,2), of fs "[]"] assms(5) by auto
  then have "in_flight rm receiver evs fs" using assms(3,4,7,8) unfolding in_flight_def by auto
  from in_flight_all [OF assms(5,6) this assms(9)] wr(1) show ?thesis by simp
qed

text \<open>A session for the witnesses: a message counter in front of every message, checked on read.\<close>

definition counter_write :: "nat \<Rightarrow> u8 list \<Rightarrow> string + u8 list \<times> nat" where
  "counter_write n chunk = Inr (of_nat n # chunk, Suc n)"

definition counter_read :: "nat \<Rightarrow> u8 list \<Rightarrow> string + u8 list \<times> nat" where
  "counter_read n c = (case c of [] \<Rightarrow> Inl ''Decrypt'' | b # chunk \<Rightarrow>
     if b = of_nat n then Inr (chunk, Suc n) else Inl ''Decrypt'')"

definition counter_stream :: "nat noise_frame_stream" where
  "counter_stream = \<lparr>transport = 0, remote_static = None, wire_read_buf = [], plaintext_buf = [],
     highest_inbound_seq = Map.empty\<rparr>"

lemma counter_in_step: "noise_in_step counter_write counter_read (=)"
  by (simp add: noise_in_step_def counter_write_def counter_read_def MAX_NOISE_MESSAGE_LEN_def
      MAX_NOISE_PLAINTEXT_CHUNK_def)

definition sample_frames :: "frame list" where
  "sample_frames = [new_frame Command 1 1 [7, 8], new_frame Telemetry 2 1 [], new_frame Command 1 2 [9]]"

lemma sample_frames_ok:
  "\<forall>f\<in>set sample_frames. wf_frame f \<and> canonical_kind (kind f)"
  "fresh_seqs (highest_inbound_seq counter_stream) sample_frames" "length sample_frames \<le> 5"
  by (simp_all add: sample_frames_def counter_stream_def wf_frame_def canonical_kind_def new_frame_def
      tlv_consts from_u16_def)

theorem frames_delivered_witness:
  "\<exists>receiver'. read_frames counter_read 5 counter_stream
      (map (\<lambda>b. [b]) (snd (snd (write_frames counter_write counter_stream sample_frames []))))
    = (sample_frames, receiver', [])"
  using frames_delivered [OF counter_in_step, of counter_stream counter_stream, OF _ _ _ sample_frames_ok(1,2),
      of "map (\<lambda>b. [b]) (snd (snd (write_frames counter_write counter_stream sample_frames [])))",
      OF _ _ _ _ _ sample_frames_ok(3)]
  by (auto simp: counter_stream_def)

text \<open>
  (C16) \<open>read_frame\<close> is safe to cancel: reading with the blocks so far and, if that is pending,
  again with the later ones, is the same as one read with all of them.
\<close>

theorem read_frame_cancel_safe:
  "read_frame rm self (evs @ later) =
     (case read_frame rm self evs of
        (Pending, self', _) \<Rightarrow> read_frame rm self' later
      | (Ready r, self', rest) \<Rightarrow> (Ready r, self', rest @ later))"
  by (simp add: read_frame_append resume_with_def)

text \<open>
  (C17) No frame is accepted twice or out of order: whatever bytes arrive and whatever they decrypt to,
  the frames that reads deliver on one stream have strictly increasing sequence numbers, all
  above the number accepted on the stream before.
\<close>

theorem frames_never_replayed:
  "sorted_wrt (<) (map seq (filter (\<lambda>f. stream_id f = i) (fst (read_frames rm n self evs))))
   \<and> list_all (\<lambda>f. case highest_inbound_seq self (stream_id f) of None \<Rightarrow> True | Some l \<Rightarrow> l < seq f)
       (fst (read_frames rm n self evs))"
proof -
  obtain fs self' evs' where "read_frames rm n self evs = (fs, self', evs')" by (metis prod_cases3)
  with read_frames_fresh [OF this] show ?thesis
    by (auto simp: fresh_seqs_increasing list_all_iff dest: fresh_seqs_above split: option.split)
qed

text \<open>
  The enrolled server authenticates its peer: with an expected key, a handshake that succeeds
  read a first message that revealed exactly this static key, and the stream it establishes
  starts with empty buffers and no sequence numbers.
\<close>

theorem server_authenticates_peer:
  assumes "server_enrolled snow build_responder io_in sk (Some expected) = Inr (stream, io_out, rest)"
  shows "remote_static stream = Some expected \<and> wire_read_buf stream = [] \<and> plaintext_buf stream = []
    \<and> highest_inbound_seq stream = Map.empty
    \<and> (\<exists>h incoming pl h'. build_responder sk = Inr h
         \<and> io_in = record_bytes incoming @ rest
         \<and> hs_read_message snow h incoming = Inr (pl, h') \<and> hs_get_remote_static snow h' = Some expected)"
proof -
  have rec: "io = record_bytes m @ r" if "read_noise_message io = Inr (m, r)" for io m r
  proof -
    have len: "length io \<ge> 2" "length m = unat (from_be_bytes (take 2 io) :: u16)" "m @ r = drop 2 io"
      using that by (auto simp: read_noise_message_def Let_def simp del: drop_drop split: if_splits)
    have "to_be_bytes 2 (of_nat (length m) :: u16) = take 2 io"
      using to_from_be_bytes [of "take 2 io", where ?'a = 16] len(1,2) by simp
    then show ?thesis using len(3) unfolding record_bytes_def by simp
  qed
  show ?thesis using assms
    by (auto simp: server_enrolled_def handshake_ik_server_def from_handshake_def result_simps
        split: prod.splits dest!: rec)
qed

definition echo_handshake :: "(u8 list, nat) snow_handshake" where
  "echo_handshake = \<lparr>hs_write_message = (\<lambda>h p. Inr (h @ p, h)), hs_read_message = (\<lambda>h m. Inr ([], m)),
     hs_get_remote_static = Some, hs_into_transport_mode = (\<lambda>h. Inr (length h))\<rparr>"

theorem server_authenticates_peer_witness:
  "\<exists>stream. server_enrolled echo_handshake Inr [0, 2, 5, 6, 1] [3] (Some [5, 6]) = Inr (stream, [0, 2, 5, 6], [1])
     \<and> remote_static stream = Some [5, 6]"
proof -
  let ?st = "\<lparr>transport = 2, remote_static = Some [5, 6], wire_read_buf = [], plaintext_buf = [],
     highest_inbound_seq = Map.empty\<rparr>"
  have "server_enrolled echo_handshake Inr [0, 2, 5, 6, 1] [3] (Some [5, 6]) = Inr (?st, [0, 2, 5, 6], [1])"
    by (simp add: server_enrolled_def handshake_ik_server_def from_handshake_def echo_handshake_def
        read_noise_message_def write_noise_message_def from_be_bytes_def to_be_bytes_numeral
        MAX_NOISE_MESSAGE_LEN_def)
  from server_authenticates_peer [OF this] this show ?thesis by blast
qed

end
