(* ===== verification/Rust_Str.thy ===== *)
theory Rust_Str
  imports Prelude
begin

section \<open>Strings: Rust's \<open>str\<close> as its UTF-8 bytes\<close>

text \<open>
  A \<open>&str\<close> is the list of its UTF-8 bytes. Every operation below that looks for ASCII delimiters
  or folds ASCII case acts on single bytes, exactly as it does on the characters of a valid UTF-8
  string, because no byte of a multi-byte sequence is an ASCII byte. Unicode white space and
  control characters are recognised by their UTF-8 encodings; UTF-8 is self-synchronising, so an
  encoding occurs in a valid string only where that character stands.
\<close>

abbreviation byte :: "char \<Rightarrow> nat" where
  "byte c \<equiv> of_char c"

definition is_ascii_digit :: "char \<Rightarrow> bool" where
  "is_ascii_digit c \<longleftrightarrow> 48 \<le> byte c \<and> byte c \<le> 57"

definition is_ascii_alphabetic :: "char \<Rightarrow> bool" where
  "is_ascii_alphabetic c \<longleftrightarrow> 65 \<le> byte c \<and> byte c \<le> 90 \<or> 97 \<le> byte c \<and> byte c \<le> 122"

definition is_ascii_hexdigit :: "char \<Rightarrow> bool" where
  "is_ascii_hexdigit c \<longleftrightarrow> is_ascii_digit c
     \<or> 65 \<le> byte c \<and> byte c \<le> 70 \<or> 97 \<le> byte c \<and> byte c \<le> 102"

definition ascii_lower :: "char \<Rightarrow> char" where
  "ascii_lower c = (if 65 \<le> byte c \<and> byte c \<le> 90 then char_of (byte c + 32) else c)"

definition ascii_upper :: "char \<Rightarrow> char" where
  "ascii_upper c = (if 97 \<le> byte c \<and> byte c \<le> 122 then char_of (byte c - 32) else c)"

lemma ascii_lower_upper: "ascii_lower (ascii_upper c) = ascii_lower c"
proof (cases "97 \<le> byte c \<and> byte c \<le> 122")
  case True
  then have "(byte c - 32) mod 256 = byte c - 32" by (intro mod_less) linarith
  then show ?thesis using True by (auto simp: ascii_lower_def ascii_upper_def)
qed (auto simp: ascii_upper_def)

definition to_ascii_lowercase :: "string \<Rightarrow> string" where
  "to_ascii_lowercase s = map ascii_lower s"

definition to_ascii_uppercase :: "string \<Rightarrow> string" where
  "to_ascii_uppercase s = map ascii_upper s"

definition eq_ignore_ascii_case :: "string \<Rightarrow> string \<Rightarrow> bool" where
  "eq_ignore_ascii_case a b \<longleftrightarrow> to_ascii_lowercase a = to_ascii_lowercase b"

subsection \<open>Searching\<close>

fun starts_with :: "string \<Rightarrow> string \<Rightarrow> bool" where
  "starts_with s [] = True"
| "starts_with [] (p # ps) = False"
| "starts_with (c # cs) (p # ps) = (c = p \<and> starts_with cs ps)"

definition ends_with :: "string \<Rightarrow> string \<Rightarrow> bool" where
  "ends_with s p \<longleftrightarrow> starts_with (rev s) (rev p)"

definition strip_prefix :: "string \<Rightarrow> string \<Rightarrow> string option" where
  "strip_prefix s p = (if starts_with s p then Some (drop (length p) s) else None)"

definition strip_suffix :: "string \<Rightarrow> string \<Rightarrow> string option" where
  "strip_suffix s p = (if ends_with s p then Some (take (length s - length p) s) else None)"

fun contains_str :: "string \<Rightarrow> string \<Rightarrow> bool" where
  "contains_str [] p = (p = [])"
| "contains_str (c # cs) p = (starts_with (c # cs) p \<or> contains_str cs p)"

abbreviation contains_char :: "string \<Rightarrow> char \<Rightarrow> bool" where
  "contains_char s c \<equiv> List.member s c"

fun split_once :: "char \<Rightarrow> string \<Rightarrow> (string \<times> string) option" where
  "split_once d [] = None"
| "split_once d (c # cs) =
     (if c = d then Some ([], cs)
      else map_option (\<lambda>(a, b). (c # a, b)) (split_once d cs))"

fun split_on :: "char \<Rightarrow> string \<Rightarrow> string list" where
  "split_on d [] = [[]]"
| "split_on d (c # cs) =
     (if c = d then [] # split_on d cs
      else (case split_on d cs of [] \<Rightarrow> [[c]] | p # ps \<Rightarrow> (c # p) # ps))"

fun join_with :: "string \<Rightarrow> string list \<Rightarrow> string" where
  "join_with sep [] = []"
| "join_with sep [p] = p"
| "join_with sep (p # q # ps) = p @ sep @ join_with sep (q # ps)"

text \<open>\<open>str::split\<close> with a string separator.\<close>

function split_str :: "string \<Rightarrow> string \<Rightarrow> string list" where
  "split_str sep [] = [[]]"
| "split_str sep (c # cs) =
     (if sep \<noteq> [] \<and> starts_with (c # cs) sep then [] # split_str sep (drop (length sep) (c # cs))
      else (case split_str sep cs of p # ps \<Rightarrow> (c # p) # ps | [] \<Rightarrow> [[c]]))"
  by pat_completeness auto
termination by (relation "measure (length \<circ> snd)") auto

text \<open>\<open>str::from_utf8\<close>: the well-formed byte sequences of the Unicode standard.\<close>

definition is_continuation :: "char \<Rightarrow> bool" where
  "is_continuation c \<longleftrightarrow> 0x80 \<le> byte c \<and> byte c \<le> 0xBF"

definition second_byte_ok :: "nat \<Rightarrow> char \<Rightarrow> bool" where
  "second_byte_ok b c \<longleftrightarrow>
     (if b = 0xE0 then 0xA0 else if b = 0xF0 then 0x90 else 0x80) \<le> byte c
     \<and> byte c \<le> (if b = 0xED then 0x9F else if b = 0xF4 then 0x8F else 0xBF)"

fun valid_utf8 :: "string \<Rightarrow> bool" where
  "valid_utf8 [] = True"
| "valid_utf8 (c # cs) =
     (if byte c < 0x80 then valid_utf8 cs
      else if 0xC2 \<le> byte c \<and> byte c \<le> 0xDF then
        (case cs of c1 # r \<Rightarrow> is_continuation c1 \<and> valid_utf8 r | _ \<Rightarrow> False)
      else if 0xE0 \<le> byte c \<and> byte c \<le> 0xEF then
        (case cs of c1 # c2 # r \<Rightarrow> second_byte_ok (byte c) c1 \<and> is_continuation c2 \<and> valid_utf8 r | _ \<Rightarrow> False)
      else if 0xF0 \<le> byte c \<and> byte c \<le> 0xF4 then
        (case cs of c1 # c2 # c3 # r \<Rightarrow>
           second_byte_ok (byte c) c1 \<and> is_continuation c2 \<and> is_continuation c3 \<and> valid_utf8 r | _ \<Rightarrow> False)
      else False)"

lemma valid_utf8_ascii: "(\<And>c. c \<in> set s \<Longrightarrow> byte c < 0x80) \<Longrightarrow> valid_utf8 s"
  by (induction s) simp_all

lemma starts_with_iff: "starts_with s p \<longleftrightarrow> (\<exists>t. s = p @ t)"
  by (induction s p rule: starts_with.induct) auto

lemma starts_with_append [simp]: "starts_with (p @ t) p"
  by (auto simp: starts_with_iff)

lemma strip_prefix_Some: "strip_prefix s p = Some t \<longleftrightarrow> s = p @ t"
  by (auto simp: strip_prefix_def starts_with_iff)

lemma split_once_Some:
  "split_once d s = Some (a, b) \<longleftrightarrow> s = a @ d # b \<and> d \<notin> set a"
proof (induction s arbitrary: a)
  case Nil
  then show ?case by simp
next
  case (Cons c cs)
  show ?case
  proof (cases a)
    case Nil
    then show ?thesis by auto
  next
    case (Cons x xs)
    then show ?thesis using Cons.IH [of xs] by auto
  qed
qed

lemma split_once_None: "split_once d s = None \<longleftrightarrow> d \<notin> set s"
  by (induction s) auto

lemma split_on_nonempty [simp]: "split_on d s \<noteq> []"
  by (cases s) (auto split: list.splits)

lemma join_with_Cons_char [simp]: "join_with sep ((c # p) # ps) = c # join_with sep (p # ps)"
  by (cases ps) auto

lemma join_split_on: "join_with [d] (split_on d s) = s"
proof (induction s)
  case Nil
  then show ?case by simp
next
  case (Cons c cs)
  then show ?case by (cases "split_on d cs") (auto split: list.splits)
qed

lemma split_on_no_delim: "p \<in> set (split_on d s) \<Longrightarrow> d \<notin> set p"
proof (induction s arbitrary: p)
  case Nil
  then show ?case by simp
next
  case (Cons c cs)
  then show ?case by (auto split: if_splits list.splits)
qed

lemma split_on_append:
  "d \<notin> set p \<Longrightarrow> split_on d (p @ d # s) = p # split_on d s"
  by (induction p) auto

lemma split_on_single: "d \<notin> set p \<Longrightarrow> split_on d p = [p]"
  by (induction p) auto

lemma split_on_join:
  "ps \<noteq> [] \<Longrightarrow> \<forall>p\<in>set ps. d \<notin> set p \<Longrightarrow> split_on d (join_with [d] ps) = ps"
proof (induction "[d]" ps rule: join_with.induct)
  case (3 p q ps)
  then show ?case by (simp add: split_on_append)
qed (simp_all add: split_on_single)

subsection \<open>White space\<close>

definition ws_encodings :: "string list" where
  "ws_encodings =
     [[CHR 0x09], [CHR 0x0A], [CHR 0x0B], [CHR 0x0C], [CHR 0x0D], [CHR 0x20],
      [CHR 0xC2, CHR 0x85], [CHR 0xC2, CHR 0xA0],
      [CHR 0xE1, CHR 0x9A, CHR 0x80],
      [CHR 0xE2, CHR 0x80, CHR 0x80], [CHR 0xE2, CHR 0x80, CHR 0x81],
      [CHR 0xE2, CHR 0x80, CHR 0x82], [CHR 0xE2, CHR 0x80, CHR 0x83],
      [CHR 0xE2, CHR 0x80, CHR 0x84], [CHR 0xE2, CHR 0x80, CHR 0x85],
      [CHR 0xE2, CHR 0x80, CHR 0x86], [CHR 0xE2, CHR 0x80, CHR 0x87],
      [CHR 0xE2, CHR 0x80, CHR 0x88], [CHR 0xE2, CHR 0x80, CHR 0x89],
      [CHR 0xE2, CHR 0x80, CHR 0x8A],
      [CHR 0xE2, CHR 0x80, CHR 0xA8], [CHR 0xE2, CHR 0x80, CHR 0xA9],
      [CHR 0xE2, CHR 0x80, CHR 0xAF], [CHR 0xE2, CHR 0x81, CHR 0x9F],
      [CHR 0xE3, CHR 0x80, CHR 0x80]]"

text \<open>The bytes of the white-space character a string starts (ends) with; 0 when there is none.\<close>

definition ws_len :: "string \<Rightarrow> nat" where
  "ws_len s = (case find (starts_with s) ws_encodings of None \<Rightarrow> 0 | Some w \<Rightarrow> length w)"

definition ws_end_len :: "string \<Rightarrow> nat" where
  "ws_end_len s = (case find (ends_with s) ws_encodings of None \<Rightarrow> 0 | Some w \<Rightarrow> length w)"

lemma ws_len_Nil [simp]: "ws_len [] = 0"
  by (simp add: ws_len_def ws_encodings_def)

lemma ws_end_len_Nil [simp]: "ws_end_len [] = 0"
  by (simp add: ws_end_len_def ws_encodings_def ends_with_def)

function trim_start :: "string \<Rightarrow> string" where
  "trim_start s = (if ws_len s = 0 then s else trim_start (drop (ws_len s) s))"
  by pat_completeness auto
termination
proof (relation "measure length")
  fix s :: string
  assume "ws_len s \<noteq> 0"
  then show "(drop (ws_len s) s, s) \<in> measure length" by (cases s) auto
qed simp

function trim_end :: "string \<Rightarrow> string" where
  "trim_end s = (if ws_end_len s = 0 then s else trim_end (take (length s - ws_end_len s) s))"
  by pat_completeness auto
termination
proof (relation "measure length")
  fix s :: string
  assume "ws_end_len s \<noteq> 0"
  then show "(take (length s - ws_end_len s) s, s) \<in> measure length" by (cases s) auto
qed simp

declare trim_start.simps [simp del] trim_end.simps [simp del]

definition trim :: "string \<Rightarrow> string" where
  "trim s = trim_end (trim_start s)"

text \<open>The bytes up to the first white-space character, and the rest.\<close>

fun span_word :: "string \<Rightarrow> string \<times> string" where
  "span_word [] = ([], [])"
| "span_word (c # cs) =
     (if ws_len (c # cs) > 0 then ([], c # cs)
      else (case span_word cs of (w, r) \<Rightarrow> (c # w, r)))"

lemma span_word_length: "span_word s = (w, r) \<Longrightarrow> length r \<le> length s"
proof (induction s arbitrary: w r)
  case (Cons c cs)
  then show ?case by (fastforce split: if_splits prod.splits)
qed simp

lemma trim_start_length: "length (trim_start s) \<le> length s"
proof (induction s rule: trim_start.induct)
  case (1 s)
  then show ?case by (cases "ws_len s = 0") (auto simp: trim_start.simps [of s])
qed

lemma trim_start_ws_len [simp]: "ws_len (trim_start s) = 0"
proof (induction s rule: trim_start.induct)
  case (1 s)
  then show ?case by (cases "ws_len s = 0") (auto simp: trim_start.simps [of s])
qed

lemma trim_start_idle: "ws_len s = 0 \<Longrightarrow> trim_start s = s"
  by (simp add: trim_start.simps)

lemma trim_end_idle: "ws_end_len s = 0 \<Longrightarrow> trim_end s = s"
  by (simp add: trim_end.simps)

lemma trim_idle: "ws_len s = 0 \<Longrightarrow> ws_end_len s = 0 \<Longrightarrow> trim s = s"
  by (simp add: trim_def trim_start_idle trim_end_idle)

lemma trim_Nil [simp]: "trim [] = []"
  by (rule trim_idle) simp_all

function split_whitespace :: "string \<Rightarrow> string list" where
  "split_whitespace s =
     (case span_word (trim_start s) of (w, r) \<Rightarrow>
        if w = [] then [] else w # split_whitespace r)"
  by pat_completeness auto
termination
proof (relation "measure length", goal_cases)
  case (2 s w r)
  then have sp: "span_word (trim_start s) = (w, r)" and "w \<noteq> []" by simp_all
  then have "length r < length (trim_start s)"
    by (cases "trim_start s") (auto dest!: span_word_length split: if_splits prod.splits)
  also have "length (trim_start s) \<le> length s" by (rule trim_start_length)
  finally show ?case by simp
qed simp

declare split_whitespace.simps [simp del]

subsection \<open>Decimal numbers\<close>

definition digit_value :: "char \<Rightarrow> nat" where
  "digit_value c = byte c - 48"

fun digits_value :: "nat \<Rightarrow> string \<Rightarrow> nat option" where
  "digits_value acc [] = Some acc"
| "digits_value acc (c # cs) =
     (if is_ascii_digit c then digits_value (10 * acc + digit_value c) cs else None)"

text \<open>\<open>str::parse\<close> for the unsigned and the signed integer types, by their bounds.\<close>

definition parse_unsigned :: "nat \<Rightarrow> string \<Rightarrow> nat option" where
  "parse_unsigned bound s =
     (let ds = (if starts_with s ''+'' then drop 1 s else s)
      in if ds = [] then None
         else (case digits_value 0 ds of
                 None \<Rightarrow> None
               | Some n \<Rightarrow> if n \<le> bound then Some n else None))"

definition parse_signed :: "int \<Rightarrow> int \<Rightarrow> string \<Rightarrow> int option" where
  "parse_signed lo hi s =
     (let neg = starts_with s ''-'';
          ds = (if neg \<or> starts_with s ''+'' then drop 1 s else s)
      in if ds = [] then None
         else (case digits_value 0 ds of
                 None \<Rightarrow> None
               | Some n \<Rightarrow>
                   let v = (if neg then - int n else int n)
                   in if lo \<le> v \<and> v \<le> hi then Some v else None))"

definition digit_char :: "nat \<Rightarrow> char" where
  "digit_char d = char_of (48 + d)"

fun show_nat :: "nat \<Rightarrow> string" where
  "show_nat n = (if n < 10 then [digit_char n] else show_nat (n div 10) @ [digit_char (n mod 10)])"

declare show_nat.simps [simp del]

definition show_int :: "int \<Rightarrow> string" where
  "show_int i = (if i < 0 then ''-'' @ show_nat (nat (- i)) else show_nat (nat i))"

lemma byte_char_of: "n < 256 \<Longrightarrow> byte (char_of n) = n"
  by simp

lemma byte_digit_char: "d < 10 \<Longrightarrow> byte (digit_char d) = 48 + d"
  by (simp add: digit_char_def)

lemma digit_char_is_digit: "d < 10 \<Longrightarrow> is_ascii_digit (digit_char d)"
  by (simp add: is_ascii_digit_def byte_digit_char)

lemma digit_value_digit_char: "d < 10 \<Longrightarrow> digit_value (digit_char d) = d"
  by (simp add: digit_value_def byte_digit_char)

lemma digits_value_append:
  "digits_value acc (xs @ ys) =
     (case digits_value acc xs of None \<Rightarrow> None | Some n \<Rightarrow> digits_value n ys)"
  by (induction xs arbitrary: acc) auto

lemma show_nat_nonempty [simp]: "show_nat n \<noteq> []"
  by (simp add: show_nat.simps)

lemma show_nat_digits: "c \<in> set (show_nat n) \<Longrightarrow> is_ascii_digit c"
proof (induction n rule: show_nat.induct)
  case (1 n)
  then show ?case
    by (cases "n < 10") (auto simp: show_nat.simps [of n] digit_char_is_digit)
qed

lemma digits_value_show_nat: "digits_value 0 (show_nat n) = Some n"
proof (induction n rule: show_nat.induct)
  case (1 n)
  show ?case
  proof (cases "n < 10")
    case True
    then show ?thesis
      by (simp add: show_nat.simps [of n] digit_char_is_digit digit_value_digit_char)
  next
    case False
    with 1 show ?thesis
      by (simp add: show_nat.simps [of n] digits_value_append digit_char_is_digit
          digit_value_digit_char)
  qed
qed

lemma show_nat_no_sign: "\<not> starts_with (show_nat n) ''+''" "\<not> starts_with (show_nat n) ''-''"
proof -
  obtain c cs where s: "show_nat n = c # cs" by (cases "show_nat n") auto
  with show_nat_digits [of c n] have "is_ascii_digit c" by simp
  then have "c \<noteq> CHR ''+''" "c \<noteq> CHR ''-''" by (auto simp: is_ascii_digit_def)
  with s show "\<not> starts_with (show_nat n) ''+''" "\<not> starts_with (show_nat n) ''-''" by simp_all
qed

text \<open>Printing and parsing a number are inverse.\<close>

lemma parse_show_nat: "n \<le> bound \<Longrightarrow> parse_unsigned bound (show_nat n) = Some n"
  by (simp add: parse_unsigned_def show_nat_no_sign digits_value_show_nat)

lemma parse_unsigned_bound: "parse_unsigned bound s = Some n \<Longrightarrow> n \<le> bound"
  by (auto simp: parse_unsigned_def Let_def split: option.splits if_splits)

lemma show_nat_inj: "show_nat m = show_nat n \<longleftrightarrow> m = n"
  by (metis digits_value_show_nat option.inject)

text \<open>White space begins and ends with bytes that are not printable characters of ASCII.\<close>

definition visible :: "char \<Rightarrow> bool" where
  "visible c \<longleftrightarrow> 0x20 < byte c \<and> byte c < 0x7F"

lemma digit_visible: "is_ascii_digit c \<Longrightarrow> visible c"
  by (simp add: is_ascii_digit_def visible_def)

lemma white_not_visible: "w \<in> set ws_encodings \<Longrightarrow> w \<noteq> [] \<and> \<not> visible (hd w) \<and> \<not> visible (last w)"
proof -
  have "list_all (\<lambda>w. w \<noteq> [] \<and> \<not> visible (hd w) \<and> \<not> visible (last w)) ws_encodings"
    by (simp add: ws_encodings_def visible_def)
  then show "w \<in> set ws_encodings \<Longrightarrow> w \<noteq> [] \<and> \<not> visible (hd w) \<and> \<not> visible (last w)"
    by (simp add: list_all_iff)
qed

lemma ws_len_0: "(\<And>w. w \<in> set ws_encodings \<Longrightarrow> \<not> starts_with s w) \<Longrightarrow> ws_len s = 0"
  by (auto simp: ws_len_def find_Some_iff in_set_conv_nth split: option.splits)

lemma ws_end_len_0: "(\<And>w. w \<in> set ws_encodings \<Longrightarrow> \<not> ends_with s w) \<Longrightarrow> ws_end_len s = 0"
  by (auto simp: ws_end_len_def find_Some_iff in_set_conv_nth split: option.splits)

lemma visible_not_white:
  assumes "visible c"
  shows "ws_len (c # s) = 0" and "ws_end_len (s @ [c]) = 0"
proof -
  show "ws_len (c # s) = 0"
  proof (rule ws_len_0)
    fix w assume w: "w \<in> set ws_encodings"
    obtain d ds where "w = d # ds" "\<not> visible d" using white_not_visible [OF w] by (cases w) auto
    then show "\<not> starts_with (c # s) w" using assms by auto
  qed
  show "ws_end_len (s @ [c]) = 0"
  proof (rule ws_end_len_0)
    fix w assume w: "w \<in> set ws_encodings"
    obtain d ds where "w = ds @ [d]" "\<not> visible d" using white_not_visible [OF w] by (cases w rule: rev_cases) auto
    then show "\<not> ends_with (s @ [c]) w" using assms by (auto simp: ends_with_def)
  qed
qed

lemmas digit_not_white = visible_not_white [OF digit_visible]

lemma trim_visible:
  assumes "visible (hd s)" and "visible (last s)" and "s \<noteq> []"
  shows "trim s = s"
proof (rule trim_idle)
  show "ws_len s = 0" using visible_not_white(1) [OF assms(1), of "tl s"] assms(3) by simp
  show "ws_end_len s = 0" using visible_not_white(2) [OF assms(2), of "butlast s"] assms(3) by simp
qed

lemmas trim_digits = trim_visible [OF digit_visible digit_visible]

lemma show_nat_ends: "is_ascii_digit (hd (show_nat n))" "is_ascii_digit (last (show_nat n))"
  by (rule show_nat_digits [of _ n], simp)+

text \<open>The number a string of digits stands for.\<close>

definition push_digits :: "nat \<Rightarrow> string \<Rightarrow> nat" where
  "push_digits acc ds = foldl (\<lambda>acc c. 10 * acc + digit_value c) acc ds"

abbreviation number_of :: "string \<Rightarrow> nat" where
  "number_of \<equiv> push_digits 0"

lemma push_digits_simps [simp]:
  "push_digits acc [] = acc" "push_digits acc (c # cs) = push_digits (10 * acc + digit_value c) cs"
  by (simp_all add: push_digits_def)

lemma digits_value_number: "digits_value acc ds = Some n \<longleftrightarrow> list_all is_ascii_digit ds \<and> n = push_digits acc ds"
  by (induction ds arbitrary: acc) auto

lemma digit_value_bound: "is_ascii_digit c \<Longrightarrow> digit_value c < 10 \<and> byte c = 48 + digit_value c"
  by (auto simp: is_ascii_digit_def digit_value_def)

lemma digit_nonzero: "is_ascii_digit c \<Longrightarrow> c \<noteq> CHR ''0'' \<Longrightarrow> 1 \<le> digit_value c"
proof -
  assume "is_ascii_digit c" "c \<noteq> CHR ''0''"
  then have "byte c \<noteq> byte (CHR ''0'')" by (metis of_char_eq_iff)
  then show ?thesis using \<open>is_ascii_digit c\<close> unfolding digit_value_def is_ascii_digit_def by simp arith
qed

lemma push_digits_bounds:
  assumes "list_all is_ascii_digit ds"
  shows "a * 10 ^ length ds \<le> push_digits a ds \<and> push_digits a ds < Suc a * 10 ^ length ds"
  using assms
proof (induction ds arbitrary: a)
  case (Cons c ds)
  have "Suc (10 * a + digit_value c) \<le> 10 * Suc a" using Cons.prems digit_value_bound [of c] by simp
  then have "Suc (10 * a + digit_value c) * 10 ^ length ds \<le> 10 * Suc a * 10 ^ length ds" by (rule mult_le_mono1)
  moreover have "10 * a * 10 ^ length ds \<le> (10 * a + digit_value c) * 10 ^ length ds" by (intro mult_le_mono1) simp
  moreover have "(10 * a + digit_value c) * 10 ^ length ds \<le> push_digits (10 * a + digit_value c) ds
      \<and> push_digits (10 * a + digit_value c) ds < Suc (10 * a + digit_value c) * 10 ^ length ds"
    using Cons.IH Cons.prems by simp
  moreover have "a * 10 ^ length (c # ds) = 10 * a * 10 ^ length ds" "Suc a * 10 ^ length (c # ds) = 10 * Suc a * 10 ^ length ds"
    by (simp_all add: algebra_simps)
  ultimately show ?case unfolding push_digits_simps(2) by linarith
qed simp

end
