(* ===== verification/Auth.thy ===== *)
theory Auth
  imports Tlv Rust_Str "HOL-Library.AList"
begin

section \<open>Privilege assertions (\<open>crates/common/src/security/auth.rs\<close>)\<close>

text \<open>
  The gateway asks for a signed assertion before it forwards a privileged command: an HMAC over the
  hash of the intent, a nonce and a validity window, checked in constant time, with a cache of
  the nonces seen so that no assertion works twice. SHA-256, HMAC and hexadecimal coding are crates
  outside the repository; they are the fields of a record that the definitions take.
\<close>

record crypto =
  sha256 :: "u8 list \<Rightarrow> u8 list"
  hmac_sha256 :: "u8 list \<Rightarrow> u8 list \<Rightarrow> u8 list"
  hex_encode :: "u8 list \<Rightarrow> string"
  hex_decode :: "string \<Rightarrow> u8 list option"

definition as_bytes :: "string \<Rightarrow> u8 list" where
  "as_bytes s = map of_char s"

definition MAX_PRIVILEGE_ASSERTION_AGE_SECS :: u64 where
  "MAX_PRIVILEGE_ASSERTION_AGE_SECS = 300"

definition MAX_PRIVILEGE_ASSERTION_CLOCK_SKEW_SECS :: u64 where
  "MAX_PRIVILEGE_ASSERTION_CLOCK_SKEW_SECS = 60"

record privilege_assertion =
  nonce_hex :: string
  issued_unix :: u64
  expires_unix :: u64
  assertion_hex :: string

datatype privilege_assertion_error =
  InvalidNonce | InvalidTime | InvalidAssertion | Replay | ReplayProtectionSaturated

text \<open>The cache: a hash map as an association list with distinct keys, and the order of arrival.\<close>

record privilege_assertion_replay_cache =
  seen :: "(string \<times> u64) list"
  order :: "(string \<times> u64) list"
  max_entries :: nat

definition new_replay_cache :: "nat \<Rightarrow> privilege_assertion_replay_cache" where
  "new_replay_cache entries = \<lparr>seen = [], order = [], max_entries = max entries 1\<rparr>"

definition default_replay_cache :: privilege_assertion_replay_cache where
  "default_replay_cache = new_replay_cache 4096"

fun purge_loop ::
    "u64 \<Rightarrow> (string \<times> u64) list \<Rightarrow> (string \<times> u64) list \<Rightarrow> (string \<times> u64) list
      \<Rightarrow> (string \<times> u64) list \<times> (string \<times> u64) list" where
  "purge_loop now_unix sn [] active = (sn, active)"
| "purge_loop now_unix sn ((nonce, expires) # ord) active =
     (if expires < now_unix
      then purge_loop now_unix
        (if map_of sn nonce = Some expires then AList.delete nonce sn else sn) ord active
      else purge_loop now_unix sn ord (active @ [(nonce, expires)]))"

definition purge_expired :: "privilege_assertion_replay_cache \<Rightarrow> u64 \<Rightarrow> privilege_assertion_replay_cache" where
  "purge_expired self now_unix =
     (case purge_loop now_unix (seen self) (order self) [] of
        (sn, active) \<Rightarrow> self\<lparr>seen := sn, order := active\<rparr>)"

definition remember ::
    "privilege_assertion_replay_cache \<Rightarrow> string \<Rightarrow> u64 \<Rightarrow> u64
      \<Rightarrow> (privilege_assertion_error + unit) \<times> privilege_assertion_replay_cache" where
  "remember self nonce expires now_unix =
     (let self = purge_expired self now_unix in
      if map_of (seen self) nonce \<noteq> None then (Inl Replay, self)
      else if length (seen self) \<ge> max_entries self then (Inl ReplayProtectionSaturated, self)
      else (Inr (), self\<lparr>seen := AList.update nonce expires (seen self),
                         order := order self @ [(nonce, expires)]\<rparr>))"

definition derive_super_key :: "crypto \<Rightarrow> string \<Rightarrow> u8 list \<Rightarrow> u8 list" where
  "derive_super_key cr password salt =
     sha256 cr (as_bytes ''vpsman-super-key-v1'' @ to_be_bytes 8 (of_nat (length salt) :: u64)
       @ salt @ as_bytes password)"

definition payload_hash :: "crypto \<Rightarrow> u8 list \<Rightarrow> string" where
  "payload_hash cr bs = hex_encode cr (sha256 cr bs)"

definition sign_privilege_assertion ::
    "crypto \<Rightarrow> u8 list \<Rightarrow> string \<Rightarrow> u8 list \<Rightarrow> u64 \<Rightarrow> u64 \<Rightarrow> privilege_assertion" where
  "sign_privilege_assertion cr verifier_key intent_hash_hex nonce issued expires =
     \<lparr>nonce_hex = hex_encode cr nonce, issued_unix = issued, expires_unix = expires,
      assertion_hex = hex_encode cr (hmac_sha256 cr verifier_key
        (as_bytes ''vpsman-gateway-privilege-assertion-v1'' @ as_bytes intent_hash_hex @ nonce
          @ to_be_bytes 8 issued @ to_be_bytes 8 expires))\<rparr>"

unbundle bit_operations_syntax

definition constant_time_eq :: "u8 list \<Rightarrow> u8 list \<Rightarrow> bool" where
  "constant_time_eq a b \<longleftrightarrow>
     length a = length b \<and> fold (\<lambda>(left, right) acc. acc OR (left XOR right)) (zip a b) 0 = 0"

definition verify_privilege_assertion ::
    "crypto \<Rightarrow> u8 list \<Rightarrow> string \<Rightarrow> privilege_assertion \<Rightarrow> u64 \<Rightarrow> privilege_assertion_replay_cache
      \<Rightarrow> (privilege_assertion_error + string) \<times> privilege_assertion_replay_cache" where
  "verify_privilege_assertion cr verifier_key intent assertion now_unix cache =
     (if expires_unix assertion < issued_unix assertion
       \<or> expires_unix assertion < now_unix
       \<or> issued_unix assertion > saturating_add now_unix MAX_PRIVILEGE_ASSERTION_CLOCK_SKEW_SECS
       \<or> saturating_sub now_unix (issued_unix assertion) > MAX_PRIVILEGE_ASSERTION_AGE_SECS
      then (Inl InvalidTime, cache)
      else case hex_decode cr (nonce_hex assertion) of
        None \<Rightarrow> (Inl InvalidNonce, cache)
      | Some nonce \<Rightarrow>
          if length nonce \<noteq> 16 then (Inl InvalidNonce, cache)
          else
            let intent_hash_hex = payload_hash cr (as_bytes intent);
                expected = sign_privilege_assertion cr verifier_key intent_hash_hex nonce
                  (issued_unix assertion) (expires_unix assertion) in
            if \<not> constant_time_eq (as_bytes (assertion_hex expected)) (as_bytes (assertion_hex assertion))
            then (Inl InvalidAssertion, cache)
            else
              let replay_expires_unix =
                    min (saturating_add (issued_unix assertion) MAX_PRIVILEGE_ASSERTION_AGE_SECS)
                      (expires_unix assertion) in
              (case remember cache (nonce_hex assertion) replay_expires_unix now_unix of
                 (Inl e, cache) \<Rightarrow> (Inl e, cache)
               | (Inr _, cache) \<Rightarrow> (Inr intent_hash_hex, cache)))"

subsection \<open>Replay guards\<close>

text \<open>
  What the verification relies on: a store of used keys with expiry times that refuses a key it
  holds and never forgets one before its time. Along a clock that does not run backwards, a key is
  then accepted again only after the expiry of the entry it made.
\<close>

fun accepted_uses ::
    "('c \<Rightarrow> 'k \<Rightarrow> 't \<Rightarrow> 't \<Rightarrow> ('e + unit) \<times> 'c) \<Rightarrow> 'c \<Rightarrow> ('k \<times> 't \<times> 't) list \<Rightarrow> ('k \<times> 't \<times> 't) list" where
  "accepted_uses use c [] = []"
| "accepted_uses use c ((k, e, now) # rs) =
     (if is_ok (fst (use c k e now)) then [(k, e, now)] else [])
       @ accepted_uses use (snd (use c k e now)) rs"

lemma accepted_uses_subset: "set (accepted_uses use c rs) \<subseteq> set rs"
  by (induction use c rs rule: accepted_uses.induct) auto

locale replay_guard =
  fixes ok :: "'c \<Rightarrow> bool"
    and entry :: "'c \<Rightarrow> 'k \<Rightarrow> ('t::linorder) option"
    and use :: "'c \<Rightarrow> 'k \<Rightarrow> 't \<Rightarrow> 't \<Rightarrow> ('e + unit) \<times> 'c"
  assumes use_ok: "ok c \<Longrightarrow> ok (snd (use c k e now))"
    and use_enters: "ok c \<Longrightarrow> is_ok (fst (use c k e now)) \<Longrightarrow> entry (snd (use c k e now)) k = Some e"
    and use_refuses: "ok c \<Longrightarrow> entry c k = Some x \<Longrightarrow> now \<le> x \<Longrightarrow> \<not> is_ok (fst (use c k e now))"
    and use_keeps: "ok c \<Longrightarrow> entry c l = Some x \<Longrightarrow> now \<le> x \<Longrightarrow> entry (snd (use c k e now)) l = Some x"
begin

lemma held_key_refused:
  "\<lbrakk>ok c; entry c k = Some x; sorted (map (\<lambda>(_, _, now). now) rs); (k, e, now) \<in> set (accepted_uses use c rs)\<rbrakk>
    \<Longrightarrow> x < now"
proof (induction rs arbitrary: c)
  case (Cons r rs)
  obtain k1 e1 now1 where r: "r = (k1, e1, now1)" by (cases r)
  show ?case
  proof (cases "now1 \<le> x")
    case False
    have "(k, e, now) \<in> set (r # rs)" using Cons.prems(4) by (rule subsetD [OF accepted_uses_subset])
    then have "now1 \<le> now" using Cons.prems(3) r by auto
    then show ?thesis using False by simp
  next
    case True
    have "\<not> (k = k1 \<and> is_ok (fst (use c k1 e1 now1)))"
      using use_refuses [OF Cons.prems(1,2) True] by auto
    then have "(k, e, now) \<in> set (accepted_uses use (snd (use c k1 e1 now1)) rs)"
      using Cons.prems(4) r by (auto split: if_splits)
    from Cons.IH [OF use_ok [OF Cons.prems(1)] use_keeps [OF Cons.prems(1,2) True] _ this] Cons.prems(3)
    show ?thesis by simp
  qed
qed simp

lemma reuse_only_after_expiry:
  "ok c \<Longrightarrow> sorted (map (\<lambda>(_, _, now). now) rs) \<Longrightarrow>
     sorted_wrt (\<lambda>(k, e, _) (k', _, now'). k = k' \<longrightarrow> e < now') (accepted_uses use c rs)"
proof (induction rs arbitrary: c)
  case (Cons r rs)
  obtain k e now where r: "r = (k, e, now)" by (cases r)
  define c' where "c' = snd (use c k e now)"
  have ok': "ok c'" and srt: "sorted (map (\<lambda>(_, _, now). now) rs)"
    using use_ok [OF Cons.prems(1)] Cons.prems(2) by (auto simp: c'_def)
  have "e < now'" if "is_ok (fst (use c k e now))" "(k, e', now') \<in> set (accepted_uses use c' rs)" for e' now'
    using held_key_refused [OF ok' _ srt that(2)] use_enters [OF Cons.prems(1) that(1)] by (simp add: c'_def)
  then show ?case using Cons.IH [OF ok' srt] r by (auto simp: c'_def)
qed simp

end

subsection \<open>The replay cache\<close>

definition cache_ok :: "privilege_assertion_replay_cache \<Rightarrow> bool" where
  "cache_ok c \<longleftrightarrow> distinct (map fst (order c)) \<and> distinct (map fst (seen c))
     \<and> map_of (seen c) = map_of (order c) \<and> length (seen c) \<le> max_entries c \<and> 1 \<le> max_entries c"

lemma same_map_same_length:
  assumes "distinct (map fst xs)" "distinct (map fst ys)" "map_of xs = map_of ys"
  shows "length xs = length ys"
proof -
  have "dom (map_of xs) = dom (map_of ys)" using assms(3) by simp
  then have "set (map fst xs) = set (map fst ys)" by (simp add: dom_map_of_conv_image_fst)
  then show ?thesis using assms(1,2) distinct_card by (metis length_map)
qed

lemma purge_loop_spec:
  "distinct (map fst (active @ ord)) \<Longrightarrow> distinct (map fst sn) \<Longrightarrow> map_of sn = map_of (active @ ord) \<Longrightarrow>
   purge_loop now sn ord active = (sn', act') \<Longrightarrow>
   act' = active @ filter (\<lambda>(n, e). \<not> e < now) ord \<and> distinct (map fst sn') \<and> map_of sn' = map_of act'"
proof (induction ord arbitrary: sn active)
  case (Cons r ord)
  obtain n e where r: "r = (n, e)" by (cases r)
  show ?case
  proof (cases "e < now")
    case True
    have "n \<notin> fst ` set active" "n \<notin> fst ` set ord" using Cons.prems(1) r by auto
    then have none: "map_of active n = None" "map_of ord n = None" by (simp_all add: map_of_eq_None_iff)
    then have n: "map_of (active @ r # ord) n = Some e" using r by (simp add: map_add_def)
    have "map_of (AList.delete n sn) = map_of (active @ ord)"
    proof
      fix m show "map_of (AList.delete n sn) m = map_of (active @ ord) m"
      proof (cases "m = n")
        case True
        then show ?thesis using none by (simp add: delete_conv' map_add_def)
      next
        case False
        then show ?thesis using Cons.prems(3) r by (simp add: delete_conv' map_add_def split: option.split)
      qed
    qed
    then show ?thesis
      using Cons.IH [of active "AList.delete n sn"] Cons.prems True r n distinct_delete [OF Cons.prems(2), of n]
      by simp
  next
    case False
    then show ?thesis using Cons.IH [of "active @ [r]" sn] Cons.prems r by simp
  qed
qed simp

lemma purge_expired_spec:
  assumes "cache_ok c"
  shows "order (purge_expired c now) = filter (\<lambda>(n, e). \<not> e < now) (order c)"
    "cache_ok (purge_expired c now)" "max_entries (purge_expired c now) = max_entries c"
proof -
  obtain sn act where p: "purge_loop now (seen c) (order c) [] = (sn, act)" by force
  have spec: "act = filter (\<lambda>(n, e). \<not> e < now) (order c)" "distinct (map fst sn)" "map_of sn = map_of act"
    using purge_loop_spec [OF _ _ _ p] assms by (simp_all add: cache_ok_def)
  have d: "distinct (map fst act)" using assms spec(1) by (simp add: cache_ok_def distinct_map_filter)
  have "length sn = length act" using same_map_same_length [OF spec(2) d spec(3)] .
  also have "\<dots> \<le> length (order c)" by (simp add: spec(1))
  also have "\<dots> = length (seen c)" using same_map_same_length assms by (metis cache_ok_def)
  finally show "cache_ok (purge_expired c now)" using assms spec(2,3) d p
    by (simp add: cache_ok_def purge_expired_def)
  show "order (purge_expired c now) = filter (\<lambda>(n, e). \<not> e < now) (order c)"
    "max_entries (purge_expired c now) = max_entries c" using p spec(1) by (simp_all add: purge_expired_def)
qed

lemma cache_ok_lookup:
  "cache_ok c \<Longrightarrow> map_of (seen c) n = Some e \<longleftrightarrow> (n, e) \<in> set (order c)"
  by (simp add: cache_ok_def)

lemma purge_keeps_unexpired:
  "cache_ok c \<Longrightarrow> map_of (seen (purge_expired c now)) n = Some e \<longleftrightarrow> map_of (seen c) n = Some e \<and> now \<le> e"
  by (auto simp: cache_ok_lookup purge_expired_spec)

lemma alist_update_new: "k \<notin> fst ` set al \<Longrightarrow> AList.update k v al = al @ [(k, v)]"
  by (induction al) auto

lemma remember_cases:
  assumes "cache_ok c"
  shows "cache_ok (snd (remember c n e now))"
    "is_ok (fst (remember c n e now)) \<Longrightarrow>
      map_of (seen (snd (remember c n e now))) = (map_of (seen (purge_expired c now)))(n \<mapsto> e)"
    "\<not> is_ok (fst (remember c n e now)) \<Longrightarrow> snd (remember c n e now) = purge_expired c now"
    "is_ok (fst (remember c n e now)) \<longleftrightarrow>
      map_of (seen (purge_expired c now)) n = None \<and> length (seen (purge_expired c now)) < max_entries c"
proof -
  define d where "d = purge_expired c now"
  have d: "cache_ok d" "max_entries d = max_entries c" using purge_expired_spec [OF assms] by (simp_all add: d_def)
  note rem = remember_def [of c n e now, folded d_def, unfolded Let_def]
  show "is_ok (fst (remember c n e now)) \<Longrightarrow>
      map_of (seen (snd (remember c n e now))) = (map_of (seen (purge_expired c now)))(n \<mapsto> e)"
    "\<not> is_ok (fst (remember c n e now)) \<Longrightarrow> snd (remember c n e now) = purge_expired c now"
    "is_ok (fst (remember c n e now)) \<longleftrightarrow>
      map_of (seen (purge_expired c now)) n = None \<and> length (seen (purge_expired c now)) < max_entries c"
    using d(2) by (auto simp: rem update_conv' simp flip: d_def split: if_splits)
  show "cache_ok (snd (remember c n e now))"
  proof (cases "map_of (seen d) n = None \<and> length (seen d) < max_entries d")
    case True
    then have none: "map_of (order d) n = None" using d(1) by (simp add: cache_ok_def)
    then have n: "n \<notin> fst ` set (order d)" "n \<notin> fst ` set (seen d)"
      using True by (simp_all add: map_of_eq_None_iff)
    then have "length (AList.update n e (seen d)) = Suc (length (seen d))"
      by (simp add: alist_update_new)
    moreover have "map_of (AList.update n e (seen d)) = map_of (order d @ [(n, e)])"
      using d(1) none by (auto simp: update_conv' cache_ok_def map_add_def fun_eq_iff split: option.splits)
    ultimately show ?thesis using True d(1) n(1)
      by (simp add: rem cache_ok_def distinct_update del: map_of_append)
  next
    case False
    then have "snd (remember c n e now) = d" by (auto simp: rem)
    then show ?thesis using d(1) by simp
  qed
qed

interpretation assertion_cache: replay_guard cache_ok "\<lambda>c. map_of (seen c)" remember
proof
  fix c :: privilege_assertion_replay_cache and k l :: string and e x now :: u64
  assume ok: "cache_ok c"
  show "cache_ok (snd (remember c k e now))" using remember_cases(1) [OF ok] .
  show "map_of (seen (snd (remember c k e now))) k = Some e" if "is_ok (fst (remember c k e now))"
    using remember_cases(2) [OF ok that] by simp
  show "\<not> is_ok (fst (remember c k e now))" if "map_of (seen c) k = Some x" "now \<le> x"
    using remember_cases(4) [OF ok] purge_keeps_unexpired [OF ok, of now k x] that by simp
  show "map_of (seen (snd (remember c k e now))) l = Some x" if "map_of (seen c) l = Some x" "now \<le> x"
    using remember_cases(2-4) [OF ok, of k e now] purge_keeps_unexpired [OF ok, of now l x] that
    by (cases "is_ok (fst (remember c k e now))") auto
qed

subsection \<open>Verification\<close>

lemma fold_or_zero:
  "fold (\<lambda>(l, r) acc. acc OR (l XOR r)) ps (a :: u8) = 0 \<longleftrightarrow> a = 0 \<and> (\<forall>(l, r)\<in>set ps. l = r)"
proof (induction ps arbitrary: a)
  case (Cons p ps)
  obtain l r where p: "p = (l, r)" by force
  have "a OR (l XOR r) = 0 \<longleftrightarrow> a = 0 \<and> l = r"
    by (metis or_eq_0_iff xor_self_eq bit.xor_left_self xor.right_neutral)
  then show ?case using Cons.IH p by auto
qed simp

lemma constant_time_eq_eq: "constant_time_eq a b \<longleftrightarrow> a = b"
proof -
  have "(\<forall>(l, r)\<in>set (zip a b). l = r) \<longleftrightarrow> a = b" if "length a = length b"
    using that by (induction a b rule: list_induct2) auto
  then show ?thesis by (auto simp: constant_time_eq_def fold_or_zero)
qed

lemma as_bytes_inj: "as_bytes s = as_bytes t \<longleftrightarrow> s = t"
proof -
  have "inj (of_char :: char \<Rightarrow> u8)"
  proof (rule injI)
    fix c d :: char
    assume "(of_char c :: u8) = of_char d"
    then have "unat (of_nat (of_char c) :: u8) = unat (of_nat (of_char d) :: u8)" by (simp add: of_nat_of_char)
    then have "(of_char c :: nat) = of_char d"
      using nat_of_char_less_256 [of c] nat_of_char_less_256 [of d] by (simp add: unat_of_nat del: of_nat_of_char)
    then show "c = d" by simp
  qed
  then show ?thesis by (simp add: as_bytes_def inj_map_eq_map)
qed

definition replay_expiry :: "privilege_assertion \<Rightarrow> u64" where
  "replay_expiry a = min (saturating_add (issued_unix a) MAX_PRIVILEGE_ASSERTION_AGE_SECS) (expires_unix a)"

text \<open>An assertion that is in its window and carries the tag of its key, intent and nonce.\<close>

definition assertion_ok :: "crypto \<Rightarrow> u8 list \<Rightarrow> string \<Rightarrow> privilege_assertion \<Rightarrow> u64 \<Rightarrow> bool" where
  "assertion_ok cr key intent a now \<longleftrightarrow>
     issued_unix a \<le> expires_unix a \<and> now \<le> expires_unix a
     \<and> unat (issued_unix a) \<le> unat now + 60 \<and> unat now \<le> unat (issued_unix a) + 300
     \<and> (case hex_decode cr (nonce_hex a) of None \<Rightarrow> False | Some nonce \<Rightarrow>
          length nonce = 16
          \<and> assertion_hex a = assertion_hex (sign_privilege_assertion cr key
               (payload_hash cr (as_bytes intent)) nonce (issued_unix a) (expires_unix a)))"

lemma window_eq:
  "issued > saturating_add now MAX_PRIVILEGE_ASSERTION_CLOCK_SKEW_SECS \<longleftrightarrow> unat now + 60 < unat issued"
  "saturating_sub now issued > MAX_PRIVILEGE_ASSERTION_AGE_SECS \<longleftrightarrow> unat issued + 300 < unat now"
proof -
  have "unat (saturating_add now (60 :: u64)) = min (unat now + 60) (2 ^ 64 - 1)"
    using unat_saturating_add [of now 60] by simp
  moreover have "unat issued \<le> 2 ^ 64 - 1" using unat_le_max [of issued] by simp
  ultimately show "issued > saturating_add now MAX_PRIVILEGE_ASSERTION_CLOCK_SKEW_SECS \<longleftrightarrow> unat now + 60 < unat issued"
    by (auto simp: word_less_nat_alt MAX_PRIVILEGE_ASSERTION_CLOCK_SKEW_SECS_def)
  show "saturating_sub now issued > MAX_PRIVILEGE_ASSERTION_AGE_SECS \<longleftrightarrow> unat issued + 300 < unat now"
    using unat_saturating_sub [of now issued]
    by (auto simp: word_less_nat_alt MAX_PRIVILEGE_ASSERTION_AGE_SECS_def)
qed

lemma verify_as_guarded_use:
  "assertion_ok cr key intent a now \<Longrightarrow>
     verify_privilege_assertion cr key intent a now cache =
       (case remember cache (nonce_hex a) (replay_expiry a) now of
          (Inl e, cache) \<Rightarrow> (Inl e, cache)
        | (Inr _, cache) \<Rightarrow> (Inr (payload_hash cr (as_bytes intent)), cache))"
  by (auto simp: verify_privilege_assertion_def assertion_ok_def replay_expiry_def window_eq Let_def
      constant_time_eq_eq not_less split: option.splits)

lemma verify_rejects:
  "\<not> assertion_ok cr key intent a now \<Longrightarrow>
     \<exists>e. verify_privilege_assertion cr key intent a now cache = (Inl e, cache)"
  by (auto simp: verify_privilege_assertion_def assertion_ok_def window_eq Let_def
      constant_time_eq_eq as_bytes_inj not_less split: option.splits)

lemma now_within_replay_expiry: "assertion_ok cr key intent a now \<Longrightarrow> now \<le> replay_expiry a"
proof -
  assume ok: "assertion_ok cr key intent a now"
  have "unat (saturating_add (issued_unix a) (300 :: u64)) = min (unat (issued_unix a) + 300) (2 ^ 64 - 1)"
    using unat_saturating_add [of "issued_unix a" 300] by simp
  moreover have "unat now \<le> 2 ^ 64 - 1" using unat_le_max [of now] by simp
  ultimately show ?thesis using ok
    by (auto simp: assertion_ok_def replay_expiry_def word_le_nat_alt MAX_PRIVILEGE_ASSERTION_AGE_SECS_def)
qed

text \<open>A sequence of verification requests against one cache, and the ones that are accepted.\<close>

type_synonym verification = "string \<times> privilege_assertion \<times> u64"

fun verify_all ::
    "crypto \<Rightarrow> u8 list \<Rightarrow> privilege_assertion_replay_cache \<Rightarrow> verification list \<Rightarrow> verification list" where
  "verify_all cr key cache [] = []"
| "verify_all cr key cache ((intent, a, now) # rs) =
     (if is_ok (fst (verify_privilege_assertion cr key intent a now cache)) then [(intent, a, now)] else [])
       @ verify_all cr key (snd (verify_privilege_assertion cr key intent a now cache)) rs"

abbreviation as_use :: "verification \<Rightarrow> string \<times> u64 \<times> u64" where
  "as_use r \<equiv> (case r of (_, a, now) \<Rightarrow> (nonce_hex a, replay_expiry a, now))"

lemma verify_all_uses:
  "map as_use (verify_all cr key cache rs) =
     accepted_uses remember cache (map as_use (filter (\<lambda>(intent, a, now). assertion_ok cr key intent a now) rs))"
proof (induction rs arbitrary: cache)
  case (Cons r rs)
  obtain intent a now where r: "r = (intent, a, now)" by (cases r)
  obtain u c where u: "remember cache (nonce_hex a) (replay_expiry a) now = (u, c)" by force
  show ?case
  proof (cases "assertion_ok cr key intent a now")
    case True
    then show ?thesis using Cons.IH [of c] r u by (cases u) (simp_all add: verify_as_guarded_use)
  next
    case False
    from verify_rejects [OF False, of cache] show ?thesis using Cons.IH [of cache] r False by auto
  qed
qed simp

lemma verify_all_ok:
  "(intent, a, now) \<in> set (verify_all cr key cache rs) \<Longrightarrow> assertion_ok cr key intent a now"
proof (induction rs arbitrary: cache)
  case (Cons r rs)
  obtain intent' a' now' where r: "r = (intent', a', now')" by (cases r)
  show ?case using Cons r verify_rejects [of cr key intent' a' now' cache]
    by (cases "assertion_ok cr key intent' a' now'") (auto split: if_splits)
qed simp

lemma verify_keeps_cache_ok: "cache_ok c \<Longrightarrow> cache_ok (snd (verify_privilege_assertion cr key intent a now c))"
proof (cases "assertion_ok cr key intent a now")
  case True
  assume "cache_ok c"
  from remember_cases(1) [OF this] show ?thesis using True
    by (simp add: verify_as_guarded_use split: prod.splits sum.splits) (metis snd_conv)
next
  case False
  assume "cache_ok c"
  with verify_rejects [OF False, of c] show ?thesis by auto
qed

lemma distinct_map_sorted_wrt: "distinct (map f xs) \<longleftrightarrow> sorted_wrt (\<lambda>x y. f x \<noteq> f y) xs"
  by (induction xs) auto

lemma lower_upper: "to_ascii_lowercase (to_ascii_uppercase s) = to_ascii_lowercase s"
  by (simp add: to_ascii_lowercase_def to_ascii_uppercase_def ascii_lower_upper)

lemma of_char_of_unat: "(of_char (char_of (unat b) :: char) :: u8) = b"
proof -
  have "unat b < 256" using unat_le_max [of b] by simp
  then have "(of_char (char_of (unat b) :: char) :: nat) = unat b" by simp
  then show ?thesis using of_nat_of_char [of "char_of (unat b)", where ?'a = u8, symmetric] by simp
qed

subsection \<open>Properties\<close>

text \<open>
  (C4) A privilege assertion works once: in any sequence of verifications against one cache,
  whatever requests an attacker chooses and with a clock that does not run backwards, no assertion is accepted twice, and a nonce string is accepted again only when the
  window of the assertion that used it first has passed.
\<close>

theorem assertion_accepted_once:
  assumes "cache_ok cache" and "sorted (map (\<lambda>(_, _, now). now) rs)"
  shows "distinct (map (\<lambda>(_, a, _). a) (verify_all cr key cache rs))
    \<and> sorted_wrt (\<lambda>(_, a, _) (_, b, now). nonce_hex a = nonce_hex b \<longrightarrow> replay_expiry a < now)
        (verify_all cr key cache rs)"
proof -
  let ?acc = "verify_all cr key cache rs" and ?ok = "\<lambda>(intent, a, now). assertion_ok cr key intent a now"
  have "sorted (map (\<lambda>(_, _, now). now) (filter ?ok rs))" using assms(2) by (rule sorted_filter)
  then have "sorted (map (\<lambda>(_, _, now). now) (map as_use (filter ?ok rs)))"
    by (simp add: comp_def case_prod_unfold)
  from assertion_cache.reuse_only_after_expiry [OF assms(1) this]
  have "sorted_wrt (\<lambda>(k, e, _) (k', _, now'). k = k' \<longrightarrow> e < now') (map as_use ?acc)"
    by (simp only: verify_all_uses)
  then have late: "sorted_wrt (\<lambda>(_, a, _) (_, b, now). nonce_hex a = nonce_hex b \<longrightarrow> replay_expiry a < now) ?acc"
    by (simp add: sorted_wrt_map case_prod_unfold)
  have win: "snd (snd y) \<le> replay_expiry (fst (snd y))" if "y \<in> set ?acc" for y
  proof -
    obtain i b t where "y = (i, b, t)" by (cases y)
    with that show ?thesis using now_within_replay_expiry [OF verify_all_ok, of i b t] by simp
  qed
  have "sorted_wrt (\<lambda>x y. fst (snd x) \<noteq> fst (snd y)) ?acc"
  proof (rule sorted_wrt_mono_rel [OF _ late])
    fix x y
    assume "y \<in> set ?acc"
      and "(\<lambda>(_, a, _) (_, b, now). nonce_hex a = nonce_hex b \<longrightarrow> replay_expiry a < now) x y"
    then show "fst (snd x) \<noteq> fst (snd y)" using win [of y] by (auto simp: case_prod_unfold)
  qed
  then show ?thesis using late by (simp add: distinct_map_sorted_wrt case_prod_unfold)
qed

definition sample_crypto :: crypto where
  "sample_crypto = \<lparr>sha256 = (\<lambda>_. [1]), hmac_sha256 = (\<lambda>_ _. [2]),
     hex_encode = map (\<lambda>b. char_of (97 + unat b)),
     hex_decode = (\<lambda>s. Some (map (\<lambda>c. of_char c - 97) (to_ascii_lowercase s)))\<rparr>"

definition sample_assertion :: privilege_assertion where
  "sample_assertion = \<lparr>nonce_hex = ''abababababababab'', issued_unix = 1000, expires_unix = 1100,
     assertion_hex = ''c''\<rparr>"

lemma sample_assertion_ok: "assertion_ok sample_crypto [] ''reboot'' sample_assertion 1010"
  by (simp add: assertion_ok_def sample_crypto_def sample_assertion_def sign_privilege_assertion_def
      to_ascii_lowercase_def ascii_lower_def char_of_def bit_0)

lemma new_cache_ok: "cache_ok (new_replay_cache n)"
  by (simp add: cache_ok_def new_replay_cache_def)

theorem assertion_accepted_once_witness:
  "distinct (map (\<lambda>(_, a, _). a) (verify_all sample_crypto [] (new_replay_cache 8)
     [(''reboot'', sample_assertion, 1010), (''reboot'', sample_assertion, 1020)]))"
  using assertion_accepted_once [OF new_cache_ok, of
     "[(''reboot'', sample_assertion, 1010), (''reboot'', sample_assertion, 1020)]" sample_crypto "[]" 8]
  by simp

text \<open>
  Exactly the good assertions pass: verification returns the intent's hash if and only if the
  assertion is within its window, its nonce decodes to sixteen bytes, its tag is the HMAC for this
  key, intent, nonce and window, no unexpired entry has its nonce, and the cache has room.
\<close>

theorem verification_exact:
  assumes "cache_ok cache"
  shows "fst (verify_privilege_assertion cr key intent a now cache) = Inr h \<longleftrightarrow>
    h = payload_hash cr (as_bytes intent) \<and> assertion_ok cr key intent a now
    \<and> \<not> (\<exists>e. map_of (seen cache) (nonce_hex a) = Some e \<and> now \<le> e)
    \<and> length (filter (\<lambda>(_, e). now \<le> e) (order cache)) < max_entries cache"
proof (cases "assertion_ok cr key intent a now")
  case False
  then show ?thesis using verify_rejects [OF False, of cache] by auto
next
  case True
  let ?p = "purge_expired cache now"
  have "length (seen ?p) = length (order ?p)"
    using purge_expired_spec(2) [OF assms, of now] unfolding cache_ok_def
    by (elim conjE) (rule same_map_same_length)
  also have "order ?p = filter (\<lambda>(_, e). now \<le> e) (order cache)"
    using purge_expired_spec(1) [OF assms, of now] by (simp add: not_less)
  finally have len: "length (seen ?p) = length (filter (\<lambda>(_, e). now \<le> e) (order cache))" .
  have "map_of (seen ?p) (nonce_hex a) = None \<longleftrightarrow> \<not> (\<exists>e. map_of (seen cache) (nonce_hex a) = Some e \<and> now \<le> e)"
    using purge_keeps_unexpired [OF assms, of now "nonce_hex a"] by (metis not_None_eq)
  with remember_cases(4) [OF assms, of "nonce_hex a" "replay_expiry a" now] len show ?thesis
    by (auto simp: verify_as_guarded_use [OF True] True is_ok_def split: prod.splits sum.splits)
qed

theorem verification_exact_witness:
  "fst (verify_privilege_assertion sample_crypto [] ''reboot'' sample_assertion 1010 (new_replay_cache 8)) = Inr ''b''"
  using verification_exact [OF new_cache_ok, of sample_crypto "[]" "''reboot''" sample_assertion 1010 8 "''b''"]
    sample_assertion_ok
  by (simp add: new_replay_cache_def payload_hash_def sample_crypto_def char_of_def bit_0)

text \<open>
  (C18) The spelling of a nonce is not authenticated. The tag covers the decoded nonce, hexadecimal
  decoding ignores case, and the cache remembers the text: an assertion that was accepted is accepted
  a second time, within its window, with the letters of its nonce in the other case.
\<close>

theorem nonce_case_replay:
  assumes "\<And>s. hex_decode cr (to_ascii_uppercase s) = hex_decode cr s"
    and "assertion_ok cr key intent a now" and "to_ascii_uppercase (nonce_hex a) \<noteq> nonce_hex a"
    and "1 < max_entries cache" and "seen cache = []" and "order cache = []"
  shows "verify_all cr key cache
      [(intent, a, now), (intent, a\<lparr>nonce_hex := to_ascii_uppercase (nonce_hex a)\<rparr>, now)]
    = [(intent, a, now), (intent, a\<lparr>nonce_hex := to_ascii_uppercase (nonce_hex a)\<rparr>, now)]"
proof -
  define b where "b = a\<lparr>nonce_hex := to_ascii_uppercase (nonce_hex a)\<rparr>"
  have okb: "assertion_ok cr key intent b now"
    using assms(1,2) by (auto simp: assertion_ok_def b_def split: option.splits)
  have "now \<le> replay_expiry a" "nonce_hex b \<noteq> nonce_hex a"
    using now_within_replay_expiry [OF assms(2)] assms(3) by (simp_all add: b_def)
  then have "verify_all cr key cache [(intent, a, now), (intent, b, now)] = [(intent, a, now), (intent, b, now)]"
    using assms(4-6)
    by (simp add: verify_as_guarded_use [OF assms(2)] verify_as_guarded_use [OF okb] remember_def purge_expired_def
        not_less)
  then show ?thesis by (simp add: b_def)
qed

theorem nonce_case_replay_witness:
  "length (verify_all sample_crypto [] (new_replay_cache 8)
     [(''reboot'', sample_assertion, 1010),
      (''reboot'', sample_assertion\<lparr>nonce_hex := ''ABABABABABABABAB''\<rparr>, 1010)]) = 2"
proof -
  have up: "to_ascii_uppercase (nonce_hex sample_assertion) = ''ABABABABABABABAB''"
    by (simp add: sample_assertion_def to_ascii_uppercase_def ascii_upper_def char_of_def bit_0)
  have case_blind: "hex_decode sample_crypto (to_ascii_uppercase s) = hex_decode sample_crypto s" for s
    by (simp add: sample_crypto_def lower_upper)
  have "to_ascii_uppercase (nonce_hex sample_assertion) \<noteq> nonce_hex sample_assertion"
    unfolding up by (simp add: sample_assertion_def)
  from nonce_case_replay [OF case_blind sample_assertion_ok this, of "new_replay_cache 8", unfolded up]
  show ?thesis by (simp add: new_replay_cache_def)
qed

text \<open>
  A fresh signature verifies: what \<open>sign_privilege_assertion\<close> makes for an intent and a sixteen
  byte nonce is accepted within its window by a cache that has room and does not hold the nonce,
  and yields the intent's hash.
\<close>

theorem signature_verifies:
  assumes "\<And>bs. hex_decode cr (hex_encode cr bs) = Some bs" and "cache_ok cache" and "length nonce = 16"
    and "issued \<le> expires" and "now \<le> expires"
    and "unat issued \<le> unat now + 60" and "unat now \<le> unat issued + 300"
    and "map_of (seen cache) (hex_encode cr nonce) = None" and "length (order cache) < max_entries cache"
  shows "fst (verify_privilege_assertion cr key intent
      (sign_privilege_assertion cr key (payload_hash cr (as_bytes intent)) nonce issued expires) now cache)
    = Inr (payload_hash cr (as_bytes intent))"
proof -
  have "length (filter (\<lambda>(_, e). now \<le> e) (order cache)) \<le> length (order cache)" by simp
  with assms(9) have room: "length (filter (\<lambda>(_, e). now \<le> e) (order cache)) < max_entries cache"
    by (rule le_less_trans [rotated])
  let ?a = "sign_privilege_assertion cr key (payload_hash cr (as_bytes intent)) nonce issued expires"
  have ok: "assertion_ok cr key intent ?a now"
    using assms(1,3-7) by (simp add: assertion_ok_def sign_privilege_assertion_def)
  have free: "map_of (seen (purge_expired cache now)) (nonce_hex ?a) = None"
    using purge_keeps_unexpired [OF assms(2), of now "nonce_hex ?a"] assms(8)
    by (cases "map_of (seen (purge_expired cache now)) (nonce_hex ?a)") (auto simp: sign_privilege_assertion_def)
  have "length (seen (purge_expired cache now)) = length (order (purge_expired cache now))"
    using purge_expired_spec(2) [OF assms(2), of now] unfolding cache_ok_def
    by (elim conjE) (rule same_map_same_length)
  then have "is_ok (fst (remember cache (nonce_hex ?a) (replay_expiry ?a) now))"
    using remember_cases(4) [OF assms(2)] free room purge_expired_spec(1) [OF assms(2), of now]
    by (simp add: not_less)
  then show ?thesis by (auto simp: verify_as_guarded_use [OF ok] is_ok_def split: prod.splits sum.splits)
qed

definition hex_letters :: crypto where
  "hex_letters = \<lparr>sha256 = take 1, hmac_sha256 = (\<lambda>k m. take 1 k), hex_encode = map (\<lambda>b. char_of (unat b)),
     hex_decode = (\<lambda>s. Some (map of_char s))\<rparr>"

theorem signature_verifies_witness:
  "is_ok (fst (verify_privilege_assertion hex_letters [3] ''restart''
      (sign_privilege_assertion hex_letters [3] (payload_hash hex_letters (as_bytes ''restart''))
         (replicate 16 9) 1000 1200) 1100 (new_replay_cache 4)))"
proof -
  have "hex_decode hex_letters (hex_encode hex_letters bs) = Some bs" for bs
    by (simp add: hex_letters_def comp_def of_char_of_unat)
  from signature_verifies [OF this new_cache_ok, of "replicate 16 9" 1000 1200 1100 4 "[3]" "''restart''"]
  show ?thesis by (simp add: new_replay_cache_def)
qed

end
