(* ===== verification/Gateway_State.thy ===== *)
theory Gateway_State
  imports Auth
begin

section \<open>Gateway state (\<open>crates/gateway/src/runtime/state.rs\<close>)\<close>

text \<open>
  The state the gateway's tasks share: the live agent sessions, the dispatch fences that keep
  commands away from an agent whose lifecycle is changing, the generation counters of these fences,
  the markers of commands that were queued, and the replay cache. With the operations of
  \<open>state.rs\<close> on it and the message types of \<open>crates/common/src/protocol/protocol.rs\<close> they use.

  An \<open>Instant\<close> is a number of nanoseconds. A hash map that the code only reads and writes by key is a
  map; one that it iterates over is an association list with distinct keys. The command inside a
  job request, which the gateway never looks at, is a type variable. Locks are not part of the
  state: an operation runs under its client's lifecycle lock, so it is one step here.
\<close>

type_synonym instant = nat

definition from_secs :: "u64 \<Rightarrow> nat" where
  "from_secs s = unat s * 1000000000"

definition MAX_RETAINED_COMMAND_OUTPUTS :: nat where
  "MAX_RETAINED_COMMAND_OUTPUTS = 256"

definition MAX_RETAINED_COMMAND_OUTPUT_BYTES :: nat where
  "MAX_RETAINED_COMMAND_OUTPUT_BYTES = 1024 * 1024"

definition SESSION_COMMAND_QUEUE_CAPACITY :: nat where
  "SESSION_COMMAND_QUEUE_CAPACITY = 1024"

subsection \<open>Messages\<close>

record 'c job_request =
  jr_job_id :: uuid
  jr_command_version :: u16
  jr_command :: 'c
  jr_max_timeout_secs :: u64

record job_cancel_request =
  jc_job_id :: uuid
  jc_reason :: "string option"

datatype terminal_control_action =
    TerminalInput string
  | TerminalResize u16 u16
  | TerminalClose "string option"

record terminal_control_request =
  tc_request_id :: uuid
  tc_session_id :: uuid
  tc_action :: terminal_control_action

record job_ack =
  ack_job_id :: uuid
  ack_accepted :: bool
  ack_message :: string

record job_cancel_ack =
  cack_job_id :: uuid
  cack_accepted :: bool
  cack_applied :: bool
  cack_message :: string

datatype output_stream = Stdout | Stderr | Pty | Status

record command_output =
  co_job_id :: uuid
  co_stream :: output_stream
  co_data :: "u8 list"
  co_exit_code :: "32 word option"
  co_done :: bool

record command_dispatch_result =
  dr_client_id :: string
  dr_job_id :: uuid
  dr_command_version :: u16
  dr_accepted :: bool
  dr_message :: string
  dr_outputs :: "command_output list"

record command_cancel_result =
  cr_client_id :: string
  cr_job_id :: uuid
  cr_acked :: bool
  cr_accepted :: bool
  cr_applied :: bool
  cr_message :: string

subsection \<open>Dispatch fences\<close>

datatype fence_purpose = Suspension | Deletion

record fence_owner =
  own_token :: uuid
  own_epoch :: uuid
  own_generation :: u64

record fence_fallback =
  fb_token :: uuid
  fb_epoch :: uuid
  fb_generation :: u64
  fb_purpose :: fence_purpose
  fb_requires_durable_recheck :: bool

datatype fence_state =
    Prepared instant "fence_fallback option"
  | Persistent
  | DurableRecheck "fence_fallback option"

record fence =
  f_token :: uuid
  f_epoch :: uuid
  f_generation :: u64
  f_purpose :: fence_purpose
  f_state :: fence_state

record fence_generation =
  latest_generation :: u64
  latest_token :: "uuid option"
  latest_purpose :: "fence_purpose option"
  latest_supersedes_prepared_suspension :: bool
  retired_generation :: u64

definition default_fence_generation :: fence_generation where
  "default_fence_generation = \<lparr>latest_generation = 0, latest_token = None, latest_purpose = None,
     latest_supersedes_prepared_suspension = False, retired_generation = 0\<rparr>"

record enqueue_marker =
  mk_generation :: uuid
  mk_expires_at :: instant

definition active_at :: "fence \<Rightarrow> instant \<Rightarrow> bool" where
  "active_at self now =
     (case f_state self of
        Prepared expires_at _ \<Rightarrow> expires_at > now
      | Persistent \<Rightarrow> True
      | DurableRecheck _ \<Rightarrow> True)"

definition lease_expired_at :: "fence \<Rightarrow> instant \<Rightarrow> bool" where
  "lease_expired_at self now =
     (case f_state self of Prepared expires_at _ \<Rightarrow> expires_at \<le> now | _ \<Rightarrow> False)"

definition requires_durable_recheck :: "fence \<Rightarrow> bool" where
  "requires_durable_recheck self = (case f_state self of DurableRecheck _ \<Rightarrow> True | _ \<Rightarrow> False)"

definition fence_fallback_of :: "fence \<Rightarrow> fence_fallback option" where
  "fence_fallback_of self =
     (case f_state self of
        Prepared _ fallback \<Rightarrow> fallback
      | DurableRecheck fallback \<Rightarrow> fallback
      | Persistent \<Rightarrow> None)"

definition fence_owner_of :: "fence \<Rightarrow> fence_owner" where
  "fence_owner_of self = \<lparr>own_token = f_token self, own_epoch = f_epoch self, own_generation = f_generation self\<rparr>"

subsection \<open>Sessions and the shared state\<close>

datatype close_request = Graceful string | Immediate string

datatype 'c session_message =
    Command "'c job_request" string
  | Cancel job_cancel_request
  | TerminalControl terminal_control_request

text \<open>A session's bounded command channel is its queue and whether the receiver is gone.\<close>

record 'c gateway_session =
  session_id :: uuid
  process_incarnation_id :: uuid
  queue :: "'c session_message list"
  receiver_closed :: bool
  close_tx :: "close_request option"

record 'c gateway_state =
  sessions :: "string \<rightharpoonup> 'c gateway_session"
  fence_epoch :: uuid
  fence_generations :: "string \<rightharpoonup> fence_generation"
  fences :: "string \<rightharpoonup> fence"
  command_enqueues :: "(string \<times> (uuid \<times> enqueue_marker) list) list"
  privilege_assertions :: privilege_assertion_replay_cache
  disconnected_at :: "string \<rightharpoonup> instant"
  reconnect_grace_secs :: u64
  dispatch_ack_secs :: u64

definition default_gateway_state :: "uuid \<Rightarrow> 'c gateway_state" where
  "default_gateway_state new_epoch = \<lparr>sessions = Map.empty, fence_epoch = new_epoch,
     fence_generations = Map.empty, fences = Map.empty, command_enqueues = [],
     privilege_assertions = default_replay_cache, disconnected_at = Map.empty,
     reconnect_grace_secs = 60, dispatch_ack_secs = 30\<rparr>"

definition generation_of :: "'c gateway_state \<Rightarrow> string \<Rightarrow> fence_generation" where
  "generation_of st client = (case fence_generations st client of None \<Rightarrow> default_fence_generation | Some g \<Rightarrow> g)"

definition retire_client_dispatch_fence_generation ::
    "'c gateway_state \<Rightarrow> string \<Rightarrow> uuid \<Rightarrow> u64 \<Rightarrow> 'c gateway_state" where
  "retire_client_dispatch_fence_generation st client gateway_epoch generation =
     (if gateway_epoch \<noteq> fence_epoch st then st
      else let g = generation_of st client in
        st\<lparr>fence_generations := (fence_generations st)(client \<mapsto>
             g\<lparr>retired_generation := max (retired_generation g) generation\<rparr>)\<rparr>)"

definition set_runtime_timing :: "'c gateway_state \<Rightarrow> u64 \<Rightarrow> u64 \<Rightarrow> 'c gateway_state" where
  "set_runtime_timing st grace_secs ack_secs =
     st\<lparr>reconnect_grace_secs := max grace_secs 1, dispatch_ack_secs := max ack_secs 1\<rparr>"

definition live_markers :: "instant \<Rightarrow> (uuid \<times> enqueue_marker) list \<Rightarrow> (uuid \<times> enqueue_marker) list" where
  "live_markers now = filter (\<lambda>(_, marker). mk_expires_at marker > now)"

definition enqueue_count :: "(string \<times> (uuid \<times> enqueue_marker) list) list \<Rightarrow> nat" where
  "enqueue_count ce = sum_list (map (length \<circ> snd) ce)"

definition prune_expired_command_enqueues :: "'c gateway_state \<Rightarrow> instant \<Rightarrow> nat \<times> 'c gateway_state" where
  "prune_expired_command_enqueues st now =
     (let before = enqueue_count (command_enqueues st);
          ce = filter (\<lambda>(_, ms). ms \<noteq> []) (map (\<lambda>(c, ms). (c, live_markers now ms)) (command_enqueues st));
          after = enqueue_count ce
      in (before - after, st\<lparr>command_enqueues := ce\<rparr>))"

text \<open>
  The registry of lifecycle locks: a client's lock is a number, kept weakly, that is, only while
  some task still holds it (\<open>live\<close>).
\<close>

record lifecycle_owners =
  owners :: "(string \<times> nat) list"
  next_lock :: nat

definition lifecycle_owner :: "lifecycle_owners \<Rightarrow> (nat \<Rightarrow> bool) \<Rightarrow> string \<Rightarrow> nat \<times> lifecycle_owners" where
  "lifecycle_owner self live client =
     (let os = filter (\<lambda>(_, lock). live lock) (owners self) in
      case map_of os client of
        Some lock \<Rightarrow> (lock, self\<lparr>owners := os\<rparr>)
      | None \<Rightarrow> (next_lock self, \<lparr>owners = AList.update client (next_lock self) os,
                   next_lock = Suc (next_lock self)\<rparr>))"

subsection \<open>Pending commands\<close>

text \<open>A pending command; its response channel is present until something is sent on it.\<close>

record pending_command =
  pc_client_id :: string
  pc_job_id :: uuid
  pc_command_version :: u16
  pc_payload_hash :: string
  pc_ack :: "job_ack option"
  pc_outputs :: "command_output list"
  pc_response :: bool

definition retained_output_bytes :: "command_output list \<Rightarrow> nat" where
  "retained_output_bytes outputs = sum_list (map (\<lambda>output. usize_add (length (co_data output)) 64) outputs)"

fun drop_oldest_outputs :: "command_output list \<Rightarrow> u64 \<Rightarrow> command_output list \<times> u64" where
  "drop_oldest_outputs outputs dropped =
     (if length outputs > MAX_RETAINED_COMMAND_OUTPUTS
       \<or> retained_output_bytes outputs > MAX_RETAINED_COMMAND_OUTPUT_BYTES
      then (case outputs of
              [] \<Rightarrow> (outputs, dropped)
            | _ # rest \<Rightarrow> drop_oldest_outputs rest (saturating_add dropped 1))
      else (outputs, dropped))"

declare drop_oldest_outputs.simps [simp del]

definition retain_output_if_response_waiting :: "pending_command \<Rightarrow> command_output \<Rightarrow> u64 \<times> pending_command" where
  "retain_output_if_response_waiting self output =
     (if \<not> pc_response self then (0, self)
      else case drop_oldest_outputs (pc_outputs self @ [output]) 0 of
        (outputs, dropped) \<Rightarrow> (dropped, self\<lparr>pc_outputs := outputs\<rparr>))"

definition finish_pending_command_response ::
    "pending_command \<Rightarrow> job_ack option \<Rightarrow> command_output list
      \<Rightarrow> command_dispatch_result option \<times> pending_command" where
  "finish_pending_command_response pending ack_override outputs_override =
     (let no_ack = \<lparr>ack_job_id = pc_job_id pending, ack_accepted = False,
            ack_message = ''command completed without ack''\<rparr>;
          ack = (case ack_override of Some a \<Rightarrow> a | None \<Rightarrow>
            (case pc_ack pending of Some a \<Rightarrow> a | None \<Rightarrow> no_ack));
          pending = pending\<lparr>pc_ack := None\<rparr>;
          (outputs, pending) = (if outputs_override = []
            then (pc_outputs pending, pending\<lparr>pc_outputs := []\<rparr>) else (outputs_override, pending))
      in if \<not> pc_response pending then (None, pending)
         else (Some \<lparr>dr_client_id = pc_client_id pending, dr_job_id = pc_job_id pending,
                 dr_command_version = pc_command_version pending, dr_accepted = ack_accepted ack,
                 dr_message = ack_message ack, dr_outputs = outputs\<rparr>,
               pending\<lparr>pc_response := False\<rparr>))"

definition cancel_ack_result :: "string \<Rightarrow> job_cancel_ack \<Rightarrow> command_cancel_result" where
  "cancel_ack_result client ack =
     \<lparr>cr_client_id = client, cr_job_id = cack_job_id ack, cr_acked = True,
      cr_accepted = cack_accepted ack, cr_applied = cack_applied ack, cr_message = cack_message ack\<rparr>"

subsection \<open>Retained output\<close>

definition outputs_fit :: "command_output list \<Rightarrow> bool" where
  "outputs_fit outputs \<longleftrightarrow> length outputs \<le> MAX_RETAINED_COMMAND_OUTPUTS
     \<and> retained_output_bytes outputs \<le> MAX_RETAINED_COMMAND_OUTPUT_BYTES"

lemma outputs_fit_Nil [simp]: "outputs_fit []"
  by (simp add: outputs_fit_def retained_output_bytes_def)

lemma outputs_fit_tl: "outputs_fit (x # xs) \<Longrightarrow> outputs_fit xs"
  by (simp add: outputs_fit_def retained_output_bytes_def)

lemma drop_oldest_alt:
  "drop_oldest_outputs outs d =
     (if outputs_fit outs then (outs, d) else drop_oldest_outputs (tl outs) (saturating_add d 1))"
  by (subst drop_oldest_outputs.simps)
    (cases outs; auto simp: outputs_fit_def retained_output_bytes_def)

lemma drop_oldest_fit: "outputs_fit outs \<Longrightarrow> drop_oldest_outputs outs d = (outs, d)"
  by (subst drop_oldest_alt) simp

lemma drop_oldest_spec:
  "\<exists>n \<le> length outs. fst (drop_oldest_outputs outs d) = drop n outs \<and> outputs_fit (drop n outs)
     \<and> (\<forall>m<n. \<not> outputs_fit (drop m outs)) \<and> unat (snd (drop_oldest_outputs outs d)) = min (2 ^ 64 - 1) (unat d + n)"
proof (induction outs arbitrary: d)
  case Nil
  show ?case using unat_le_max [of d] by (simp add: drop_oldest_fit)
next
  case (Cons x xs)
  show ?case
  proof (cases "outputs_fit (x # xs)")
    case True
    then show ?thesis using unat_le_max [of d] by (auto simp: drop_oldest_fit intro!: exI [of _ 0])
  next
    case False
    obtain n where n: "n \<le> length xs" "fst (drop_oldest_outputs xs (saturating_add d 1)) = drop n xs" "outputs_fit (drop n xs)"
        "\<forall>m<n. \<not> outputs_fit (drop m xs)"
        "unat (snd (drop_oldest_outputs xs (saturating_add d 1))) = min (2 ^ 64 - 1) (unat (saturating_add d 1) + n)"
      using Cons.IH [of "saturating_add d 1"] by blast
    have step: "drop_oldest_outputs (x # xs) d = drop_oldest_outputs xs (saturating_add d 1)"
      using False by (subst drop_oldest_alt) simp
    have "\<not> outputs_fit (drop m (x # xs))" if "m < Suc n" for m
      using that n(4) False by (cases m) auto
    then show ?thesis using n(1-3,5) step
      by (intro exI [of _ "Suc n"]) (auto simp: unat_saturating_add)
  qed
qed

subsection \<open>Properties\<close>

text \<open>
  Buffered output is bounded and keeps the newest: after each retained chunk the buffer has at
  most 256 chunks and a mebibyte, it is what remains of the old buffer and the chunk after dropping
  the least possible number of chunks from the front, and that number is the one reported.
\<close>

theorem retained_output_bounded:
  assumes "pc_response self"
  shows "\<exists>n. pc_outputs (snd (retain_output_if_response_waiting self output)) = drop n (pc_outputs self @ [output])
    \<and> length (drop n (pc_outputs self @ [output])) \<le> 256
    \<and> retained_output_bytes (drop n (pc_outputs self @ [output])) \<le> 1048576
    \<and> (\<forall>m<n. \<not> outputs_fit (drop m (pc_outputs self @ [output])))
    \<and> unat (fst (retain_output_if_response_waiting self output)) = min (2 ^ 64 - 1) n"
  using drop_oldest_spec [of "pc_outputs self @ [output]" 0] assms
  by (auto simp: retain_output_if_response_waiting_def outputs_fit_def MAX_RETAINED_COMMAND_OUTPUTS_def
      MAX_RETAINED_COMMAND_OUTPUT_BYTES_def split: prod.splits)

definition sample_pending :: "command_output list \<Rightarrow> pending_command" where
  "sample_pending outs = \<lparr>pc_client_id = ''a'', pc_job_id = 1, pc_command_version = 1, pc_payload_hash = [],
     pc_ack = None, pc_outputs = outs, pc_response = True\<rparr>"

definition sample_output :: command_output where
  "sample_output = \<lparr>co_job_id = 1, co_stream = Stdout, co_data = [1, 2], co_exit_code = None, co_done = False\<rparr>"

theorem retained_output_bounded_witness:
  "length (pc_outputs (snd (retain_output_if_response_waiting (sample_pending (replicate 256 sample_output)) sample_output))) \<le> 256"
  using retained_output_bounded [of "sample_pending (replicate 256 sample_output)" sample_output]
  by (auto simp: sample_pending_def)

definition locks_ok :: "lifecycle_owners \<Rightarrow> bool" where
  "locks_ok self \<longleftrightarrow> distinct (map fst (owners self)) \<and> distinct (map snd (owners self))
     \<and> list_all (\<lambda>(_, lock). lock < next_lock self) (owners self)"

fun lock_requests :: "lifecycle_owners \<Rightarrow> ((nat \<Rightarrow> bool) \<times> string) list \<Rightarrow> (string \<times> nat) list" where
  "lock_requests self [] = []"
| "lock_requests self ((live, client) # rs) =
     (let (lock, self) = lifecycle_owner self live client in (client, lock) # lock_requests self rs)"

lemma lifecycle_owner_ok:
  assumes "locks_ok self" and "lifecycle_owner self live client = (lock, self')"
  shows "locks_ok self'" "map_of (owners self') client = Some lock"
    "\<And>c l. map_of (owners self) c = Some l \<Longrightarrow> live l \<Longrightarrow> map_of (owners self') c = Some l"
proof -
  define os where "os = filter (\<lambda>(_, lock). live lock) (owners self)"
  have d: "distinct (map fst os)" "distinct (map snd os)" "list_all (\<lambda>(_, lock). lock < next_lock self) os"
    using assms(1) by (auto simp: locks_ok_def os_def distinct_map_filter list_all_iff)
  have keep: "map_of os c = Some l" if "map_of (owners self) c = Some l" "live l" for c l
    using that assms(1) d(1) by (auto simp: os_def locks_ok_def)
  have "locks_ok self' \<and> map_of (owners self') client = Some lock
      \<and> (\<forall>c l. map_of (owners self) c = Some l \<longrightarrow> live l \<longrightarrow> map_of (owners self') c = Some l)"
  proof (cases "map_of os client")
    case (Some l)
    then show ?thesis using assms(2) d keep by (auto simp: lifecycle_owner_def locks_ok_def simp flip: os_def)
  next
    case None
    then have new: "client \<notin> fst ` set os" by (simp add: map_of_eq_None_iff)
    have fresh: "next_lock self \<notin> snd ` set os" using d(3) by (auto simp: list_all_iff)
    have "self' = \<lparr>owners = os @ [(client, next_lock self)], next_lock = Suc (next_lock self)\<rparr>" "lock = next_lock self"
      using assms(2) None by (auto simp: lifecycle_owner_def alist_update_new [OF new] simp flip: os_def)
    note self' = this
    have "locks_ok self'" using d new fresh by (auto simp: locks_ok_def list_all_iff self')
    moreover have "map_of (owners self') client = Some lock" using None by (simp add: self' map_add_def)
    moreover have "map_of (owners self') c = Some l" if "map_of (owners self) c = Some l" "live l" for c l
      using keep [OF that] None by (auto simp: self' map_add_def)
    ultimately show ?thesis by blast
  qed
  then show "locks_ok self'" "map_of (owners self') client = Some lock"
    "\<And>c l. map_of (owners self) c = Some l \<Longrightarrow> live l \<Longrightarrow> map_of (owners self') c = Some l" by blast+
qed

lemma locks_ok_inj:
  "locks_ok self \<Longrightarrow> map_of (owners self) c = Some l \<Longrightarrow> map_of (owners self) d = Some l \<Longrightarrow> c = d"
  using inj_onD [of snd "set (owners self)" "(c, l)" "(d, l)"]
  by (auto simp: locks_ok_def distinct_map dest!: map_of_SomeD)

lemma held_lock_kept:
  "\<lbrakk>locks_ok self; map_of (owners self) client = Some lock; list_all (\<lambda>(live, _). live lock) rs\<rbrakk>
    \<Longrightarrow> list_all (\<lambda>(c, l). c = client \<longleftrightarrow> l = lock) (lock_requests self rs)"
proof (induction rs arbitrary: self)
  case (Cons r rs)
  obtain live c where r: "r = (live, c)" by force
  obtain l self1 where lk: "lifecycle_owner self live c = (l, self1)" by force
  note ok = lifecycle_owner_ok [OF Cons.prems(1) lk]
  have held: "map_of (owners self1) client = Some lock" using ok(3) Cons.prems(2,3) r by simp
  have "c = client \<longleftrightarrow> l = lock" using ok(1,2) held locks_ok_inj [OF ok(1)] by auto
  moreover have "list_all (\<lambda>(c, l). c = client \<longleftrightarrow> l = lock) (lock_requests self1 rs)"
    using Cons.IH [OF ok(1) held] Cons.prems(3) by simp
  ultimately show ?case using r lk by simp
qed simp

text \<open>
  One lock per client: while some task holds the lock a client was given, every further
  request for this client gets the same lock, and no request gives it to another client.
\<close>

theorem one_lock_per_client:
  assumes "locks_ok self" and "lifecycle_owner self live client = (lock, self')"
    and "list_all (\<lambda>(live, _). live lock) rs"
  shows "list_all (\<lambda>(c, l). c = client \<longleftrightarrow> l = lock) (lock_requests self' rs)"
  using held_lock_kept [OF lifecycle_owner_ok(1,2) [OF assms(1,2)] assms(3)] .

theorem one_lock_per_client_witness:
  "list_all (\<lambda>(c, l). c = ''a'' \<longleftrightarrow> l = 7)
     (lock_requests \<lparr>owners = [(''a'', 7)], next_lock = 8\<rparr> [(\<lambda>l. l = 7, ''b''), (\<lambda>_. True, ''a'')])"
  using one_lock_per_client [of "\<lparr>owners = [], next_lock = 7\<rparr>" "\<lambda>_. True" "''a''" 7
      "\<lparr>owners = [(''a'', 7)], next_lock = 8\<rparr>" "[(\<lambda>l. l = 7, ''b''), (\<lambda>_. True, ''a'')]"]
  by (simp add: locks_ok_def lifecycle_owner_def)

end
