(* ===== verification/Gateway_Control.thy ===== *)
theory Gateway_Control
  imports Gateway_State
begin

section \<open>Gateway control operations (\<open>crates/gateway/src/transport/control.rs\<close>)\<close>

text \<open>
  The operations the API server invokes on the gateway: sending a command to an agent, the
  four-phase protocol of the dispatch fences (acquire, prepare, promote, clear), cancelling,
  disconnecting, controlling a terminal and verifying privilege assertions. Each takes the shared
  state and the instant it reads from the clock, and returns its answer and the new state. Where
  the code reads the clock again a few lines on (the end of a first prepare), the same instant is
  used; a dispatch, which may wait, takes each reading separately.
\<close>

subsection \<open>Requests and answers\<close>

record 'c command_dispatch =
  cd_client_id :: string
  cd_request :: "'c job_request"
  cd_expected_process_incarnation_id :: uuid
  cd_expected_gateway_epoch :: "uuid option"
  cd_payload_hash :: string
  cd_lifecycle_recheck :: "fence_owner option"

record fence_acquire =
  a_client_id :: string
  a_token :: uuid
  a_purpose :: fence_purpose
  a_supersede_prepared_suspension :: bool

record fence_acquire_result =
  ar_client_id :: string
  ar_owner :: fence_owner

record fence_prepare =
  p_client_id :: string
  p_token :: uuid
  p_epoch :: uuid
  p_generation :: u64
  p_renewal :: bool
  p_lease_secs :: u64
  p_purpose :: fence_purpose

record fence_promote =
  m_client_id :: string
  m_token :: uuid
  m_epoch :: uuid
  m_generation :: u64
  m_purpose :: fence_purpose

record fence_clear =
  c_client_id :: string
  c_expected_token :: uuid
  c_epoch :: uuid
  c_expected_generation :: u64
  c_restore_fallback :: bool
  c_reason :: string

record fence_result =
  r_client_id :: string
  r_accepted :: bool
  r_fenced :: bool
  r_ownership_continuous :: bool
  r_message :: string
  r_enqueued_job_ids :: "uuid list"

record session_disconnect =
  sd_client_id :: string
  sd_reason :: string
  sd_required_dispatch_fence_owner :: "fence_owner option"

record session_disconnect_result =
  sdr_client_id :: string
  sdr_accepted :: bool
  sdr_disconnected :: bool
  sdr_message :: string

record command_cancel =
  cc_client_id :: string
  cc_request :: job_cancel_request

record terminal_control =
  tt_client_id :: string
  tt_expected_process_incarnation_id :: uuid
  tt_request :: terminal_control_request

text \<open>The errors of the operations, one constructor per message the code formats.\<close>

datatype gateway_error =
    GatewayEpochRecheckRequired uuid
  | LifecycleRecheckRequired fence_owner
  | AgentSuspended string
  | LifecycleRecheckStale string
  | LifecycleFenced string
  | IncarnationMismatch string uuid uuid
  | SessionQueueFull string
  | SessionClosed string
  | AgentNotOnline string
  | GatewayMessage string

subsection \<open>Batches\<close>

definition GATEWAY_CLIENT_DISPATCH_FENCE_BATCH_MAX_ITEMS :: nat where
  "GATEWAY_CLIENT_DISPATCH_FENCE_BATCH_MAX_ITEMS = 1000"

definition GATEWAY_CONTROL_BATCH_MAX_ITEMS :: nat where
  "GATEWAY_CONTROL_BATCH_MAX_ITEMS = 1000"

fun first_duplicate :: "string list \<Rightarrow> string list \<Rightarrow> string option" where
  "first_duplicate unique [] = None"
| "first_duplicate unique (c # cs) =
     (if c \<in> set unique then Some c else first_duplicate (c # unique) cs)"

definition validate_dispatch_fence_batch :: "nat \<Rightarrow> string list \<Rightarrow> string + unit" where
  "validate_dispatch_fence_batch item_count client_ids =
     (if \<not> (1 \<le> item_count \<and> item_count \<le> GATEWAY_CLIENT_DISPATCH_FENCE_BATCH_MAX_ITEMS)
      then Inl (''dispatch_fence_batch_size_out_of_range:expected=1..=''
        @ show_nat GATEWAY_CLIENT_DISPATCH_FENCE_BATCH_MAX_ITEMS @ '':actual='' @ show_nat item_count)
      else case first_duplicate [] client_ids of
        Some client_id \<Rightarrow> Inl (''dispatch_fence_batch_duplicate_client_id:'' @ client_id)
      | None \<Rightarrow> Inr ())"

fun check_request_ids :: "string \<Rightarrow> string list \<Rightarrow> string list \<Rightarrow> string + unit" where
  "check_request_ids error_prefix unique [] = Inr ()"
| "check_request_ids error_prefix unique (r # rs) =
     (if r = [] then Inl (error_prefix @ ''_empty_request_id'')
      else if r \<in> set unique then Inl (error_prefix @ ''_duplicate_request_id:'' @ r)
      else check_request_ids error_prefix (r # unique) rs)"

definition validate_gateway_control_batch :: "nat \<Rightarrow> string list \<Rightarrow> string \<Rightarrow> string + unit" where
  "validate_gateway_control_batch item_count request_ids error_prefix =
     (if \<not> (1 \<le> item_count \<and> item_count \<le> GATEWAY_CONTROL_BATCH_MAX_ITEMS)
      then Inl (error_prefix @ ''_size_out_of_range:expected=1..=''
        @ show_nat GATEWAY_CONTROL_BATCH_MAX_ITEMS @ '':actual='' @ show_nat item_count)
      else check_request_ids error_prefix [] request_ids)"

text \<open>The loop over a batch: one operation per item, at the instant the item is reached.\<close>

fun run_batch :: "('s \<Rightarrow> instant \<Rightarrow> 'i \<Rightarrow> 'r \<times> 's) \<Rightarrow> 's \<Rightarrow> (instant \<times> 'i) list \<Rightarrow> 'r list \<times> 's" where
  "run_batch f st [] = ([], st)"
| "run_batch f st ((now, item) # items) =
     (let (r, st) = f st now item; (rs, st) = run_batch f st items in (r # rs, st))"

subsection \<open>Fences\<close>

definition normalize_expired_dispatch_fence :: "(string \<rightharpoonup> fence) \<Rightarrow> string \<Rightarrow> instant \<Rightarrow> (string \<rightharpoonup> fence)" where
  "normalize_expired_dispatch_fence fs client now =
     (case fs client of
        None \<Rightarrow> fs
      | Some fence \<Rightarrow>
          if \<not> lease_expired_at fence now then fs
          else fs(client \<mapsto> fence\<lparr>f_state := DurableRecheck (fence_fallback_of fence)\<rparr>))"

definition persistent :: "fence \<Rightarrow> bool" where
  "persistent fence = (case f_state fence of Persistent \<Rightarrow> True | _ \<Rightarrow> False)"

definition prepared :: "fence \<Rightarrow> bool" where
  "prepared fence = (case f_state fence of Prepared _ _ \<Rightarrow> True | _ \<Rightarrow> False)"

definition allocate_generation :: "fence_generation \<Rightarrow> fence_acquire \<Rightarrow> string + fence_generation" where
  "allocate_generation generation acquire =
     (if latest_token generation = Some (a_token acquire)
      then if latest_purpose generation \<noteq> Some (a_purpose acquire)
           then Inl ''dispatch_fence_token_purpose_conflict''
           else if latest_supersedes_prepared_suspension generation \<noteq> a_supersede_prepared_suspension acquire
           then Inl ''dispatch_fence_token_transition_conflict''
           else Inr generation
      else case checked_add (latest_generation generation) 1 of
          None \<Rightarrow> Inl ''client dispatch-fence generation exhausted''
        | Some g \<Rightarrow> Inr (generation\<lparr>latest_generation := g, latest_token := Some (a_token acquire),
            latest_purpose := Some (a_purpose acquire),
            latest_supersedes_prepared_suspension := a_supersede_prepared_suspension acquire\<rparr>))"

definition replaceable_for :: "fence \<Rightarrow> fence_acquire \<Rightarrow> bool" where
  "replaceable_for existing acquire =
     (let supersedes_prepared_suspension = a_supersede_prepared_suspension acquire
            \<and> f_purpose existing = Suspension \<and> prepared existing
      in supersedes_prepared_suspension
         \<or> requires_durable_recheck existing
         \<or> (persistent existing
            \<and> (f_purpose existing = Suspension
               \<or> (f_purpose existing = Deletion \<and> a_purpose acquire = Deletion))))"

definition allocate_owner ::
    "'c gateway_state \<Rightarrow> fence_acquire \<Rightarrow> (gateway_error + fence_acquire_result) \<times> 'c gateway_state" where
  "allocate_owner st acquire =
     (let client = a_client_id acquire in
      case allocate_generation (generation_of st client) acquire of
        Inl message \<Rightarrow> (Inl (GatewayMessage message), st)
      | Inr generation \<Rightarrow>
          (Inr \<lparr>ar_client_id = client, ar_owner = \<lparr>own_token = a_token acquire,
              own_epoch = fence_epoch st, own_generation = latest_generation generation\<rparr>\<rparr>,
           st\<lparr>fence_generations := (fence_generations st)(client \<mapsto> generation)\<rparr>))"

definition acquire_gateway_client_dispatch_fence ::
    "'c gateway_state \<Rightarrow> instant \<Rightarrow> fence_acquire \<Rightarrow> (gateway_error + fence_acquire_result) \<times> 'c gateway_state" where
  "acquire_gateway_client_dispatch_fence st now acquire =
     (if a_supersede_prepared_suspension acquire \<and> a_purpose acquire \<noteq> Suspension
      then (Inl (GatewayMessage ''dispatch_fence_prepared_suspension_supersession_purpose_invalid''), st)
      else
        let client = a_client_id acquire;
            st = st\<lparr>fences := normalize_expired_dispatch_fence (fences st) client now\<rparr>
        in case fences st client of
             None \<Rightarrow> allocate_owner st acquire
           | Some existing \<Rightarrow>
               if f_token existing = a_token acquire
               then if f_purpose existing \<noteq> a_purpose acquire
                    then (Inl (GatewayMessage ''dispatch_fence_token_purpose_conflict''), st)
                    else (Inr \<lparr>ar_client_id = client, ar_owner = fence_owner_of existing\<rparr>, st)
               else if \<not> replaceable_for existing acquire
               then (Inl (GatewayMessage ''dispatch_fence_conflict''), st)
               else allocate_owner st acquire)"

definition protected_enqueued_job_ids :: "'c gateway_state \<Rightarrow> string \<Rightarrow> instant \<Rightarrow> uuid list \<times> 'c gateway_state" where
  "protected_enqueued_job_ids st client now =
     (case map_of (command_enqueues st) client of
        None \<Rightarrow> ([], st)
      | Some ms \<Rightarrow>
          let ms = live_markers now ms; job_ids = map fst ms in
          (sort job_ids,
           st\<lparr>command_enqueues := (if job_ids = [] then AList.delete client (command_enqueues st)
                else AList.update client ms (command_enqueues st))\<rparr>))"

definition fence_answer :: "string \<Rightarrow> bool \<Rightarrow> bool \<Rightarrow> bool \<Rightarrow> string \<Rightarrow> uuid list \<Rightarrow> fence_result" where
  "fence_answer client accepted fenced continuous message job_ids =
     \<lparr>r_client_id = client, r_accepted = accepted, r_fenced = fenced,
      r_ownership_continuous = continuous, r_message = message, r_enqueued_job_ids = job_ids\<rparr>"

definition lease_end :: "instant \<Rightarrow> fence_prepare \<Rightarrow> instant" where
  "lease_end now prepare = now + from_secs (clamp 1 300 (p_lease_secs prepare))"

definition fenced_at :: "'c gateway_state \<Rightarrow> string \<Rightarrow> instant \<Rightarrow> bool" where
  "fenced_at st client now = (case fences st client of None \<Rightarrow> False | Some fence \<Rightarrow> active_at fence now)"

text \<open>
  The conditions a prepare works out when the client has a fence already, one definition for each
  of the code's local variables.
\<close>

definition same_owner :: "fence_prepare \<Rightarrow> fence \<Rightarrow> bool" where
  "same_owner prepare existing \<longleftrightarrow>
     f_token existing = p_token prepare \<and> f_epoch existing = p_epoch prepare
     \<and> f_generation existing = p_generation prepare \<and> f_purpose existing = p_purpose prepare"

definition authorized_unsuspend_transition :: "fence_prepare \<Rightarrow> fence_generation \<Rightarrow> bool" where
  "authorized_unsuspend_transition prepare generation \<longleftrightarrow>
     latest_generation generation = p_generation prepare
     \<and> latest_token generation = Some (p_token prepare)
     \<and> latest_purpose generation = Some (p_purpose prepare)
     \<and> latest_supersedes_prepared_suspension generation"

definition replaces_prepared_suspension :: "fence_prepare \<Rightarrow> fence_generation \<Rightarrow> fence \<Rightarrow> bool" where
  "replaces_prepared_suspension prepare generation existing \<longleftrightarrow>
     \<not> same_owner prepare existing
     \<and> authorized_unsuspend_transition prepare generation
     \<and> f_purpose existing = Suspension
     \<and> p_purpose prepare = Suspension
     \<and> prepared existing
     \<and> p_generation prepare > f_generation existing"

definition replaces_recoverable_fence :: "fence_prepare \<Rightarrow> fence \<Rightarrow> bool" where
  "replaces_recoverable_fence prepare existing \<longleftrightarrow>
     \<not> same_owner prepare existing
     \<and> (requires_durable_recheck existing
        \<or> (persistent existing
           \<and> (f_purpose existing = Suspension
              \<or> (f_purpose existing = Deletion \<and> p_purpose prepare = Deletion))))"

definition initial_authorized :: "fence_prepare \<Rightarrow> fence_generation \<Rightarrow> bool" where
  "initial_authorized prepare generation \<longleftrightarrow>
     latest_generation generation = p_generation prepare
     \<and> latest_token generation = Some (p_token prepare)
     \<and> p_generation prepare > retired_generation generation"

definition renew_fence ::
    "'c gateway_state \<Rightarrow> instant \<Rightarrow> fence_prepare \<Rightarrow> fence \<Rightarrow> fence_result \<times> 'c gateway_state" where
  "renew_fence st now prepare existing =
     (let client = p_client_id prepare;
          (existing, st) = (if prepared existing
            then let existing = existing\<lparr>f_state := Prepared (lease_end now prepare) (fence_fallback_of existing)\<rparr>
                 in (existing, st\<lparr>fences := (fences st)(client \<mapsto> existing)\<rparr>)
            else (existing, st));
          (job_ids, st) = protected_enqueued_job_ids st client now
      in (fence_answer client True True (\<not> requires_durable_recheck existing)
            (if requires_durable_recheck existing then ''dispatch_fence_requires_durable_recheck''
             else ''dispatch_fence_already_owned'') job_ids, st))"

definition replace_fence ::
    "'c gateway_state \<Rightarrow> instant \<Rightarrow> fence_prepare \<Rightarrow> fence_generation \<Rightarrow> fence \<Rightarrow> fence_result \<times> 'c gateway_state" where
  "replace_fence st now prepare generation existing =
     (let client = p_client_id prepare;
          st = st\<lparr>fences := (fences st)(client \<mapsto>
             \<lparr>f_token = p_token prepare, f_epoch = p_epoch prepare, f_generation = p_generation prepare,
              f_purpose = p_purpose prepare,
              f_state = Prepared (lease_end now prepare) (Some
                \<lparr>fb_token = f_token existing, fb_epoch = f_epoch existing,
                 fb_generation = f_generation existing, fb_purpose = f_purpose existing,
                 fb_requires_durable_recheck = authorized_unsuspend_transition prepare generation
                   \<or> requires_durable_recheck existing\<rparr>)\<rparr>)\<rparr>;
          st = retire_client_dispatch_fence_generation st client (p_epoch prepare) (f_generation existing);
          (job_ids, st) = protected_enqueued_job_ids st client now
      in (fence_answer client True True False
            (if replaces_prepared_suspension prepare generation existing
             then ''dispatch_fence_superseded_prepared_suspension''
             else ''dispatch_fence_replaced_recoverable_owner'') job_ids, st))"

text \<open>
  Prepare when the client has a fence already: renew it for its owner, refuse, or replace a
  fence that may be replaced, keeping the replaced owner as the fallback.
\<close>

definition prepare_existing ::
    "'c gateway_state \<Rightarrow> instant \<Rightarrow> fence_prepare \<Rightarrow> fence_generation \<Rightarrow> fence \<Rightarrow> fence_result \<times> 'c gateway_state" where
  "prepare_existing st now prepare generation existing =
     (let client = p_client_id prepare in
      if same_owner prepare existing then
        if p_generation prepare \<le> retired_generation generation
        then (fence_answer client False True False ''dispatch_fence_generation_retired'' [], st)
        else renew_fence st now prepare existing
      else if p_renewal prepare then
        (fence_answer client False True False
           (if (case fence_fallback_of existing of None \<Rightarrow> False | Some replaced \<Rightarrow>
                  fb_token replaced = p_token prepare \<and> fb_epoch replaced = p_epoch prepare
                  \<and> fb_generation replaced = p_generation prepare \<and> fb_purpose replaced = p_purpose prepare)
            then ''dispatch_fence_owner_is_fallback'' else ''dispatch_fence_conflict'') [], st)
      else if \<not> initial_authorized prepare generation then
        (fence_answer client False True False ''dispatch_fence_generation_stale'' [], st)
      else if replaces_prepared_suspension prepare generation existing \<or> replaces_recoverable_fence prepare existing
      then replace_fence st now prepare generation existing
      else (fence_answer client False True False ''dispatch_fence_conflict'' [], st))"

definition install_fence :: "'c gateway_state \<Rightarrow> instant \<Rightarrow> fence_prepare \<Rightarrow> fence_result \<times> 'c gateway_state" where
  "install_fence st now prepare =
     (let client = p_client_id prepare;
          st = st\<lparr>fences := (fences st)(client \<mapsto>
             \<lparr>f_token = p_token prepare, f_epoch = p_epoch prepare, f_generation = p_generation prepare,
              f_purpose = p_purpose prepare, f_state = Prepared (lease_end now prepare) None\<rparr>)\<rparr>;
          (job_ids, st) = protected_enqueued_job_ids st client now
      in (fence_answer client True True False ''dispatch_fence_prepared'' job_ids, st))"

definition prepare_gateway_client_dispatch_fence ::
    "'c gateway_state \<Rightarrow> instant \<Rightarrow> fence_prepare \<Rightarrow> fence_result \<times> 'c gateway_state" where
  "prepare_gateway_client_dispatch_fence st now prepare =
     (let client = p_client_id prepare in
      if p_epoch prepare \<noteq> fence_epoch st
      then (fence_answer client False False False ''dispatch_fence_gateway_epoch_stale'' [], st)
      else
        let generation = generation_of st client;
            st = st\<lparr>fences := normalize_expired_dispatch_fence (fences st) client now\<rparr>
        in case fences st client of
             Some existing \<Rightarrow> prepare_existing st now prepare generation existing
           | None \<Rightarrow>
               if \<not> (\<not> p_renewal prepare \<and> initial_authorized prepare generation)
               then (fence_answer client False False False ''dispatch_fence_generation_stale'' [], st)
               else install_fence st now prepare)"

definition owned_by_promote :: "fence_promote \<Rightarrow> fence \<Rightarrow> bool" where
  "owned_by_promote promote fence \<longleftrightarrow>
     f_token fence = m_token promote \<and> f_epoch fence = m_epoch promote
     \<and> f_generation fence = m_generation promote \<and> f_purpose fence = m_purpose promote"

definition fallback_of_promote :: "fence_promote \<Rightarrow> fence \<Rightarrow> bool" where
  "fallback_of_promote promote fence =
     (case fence_fallback_of fence of None \<Rightarrow> False | Some replaced \<Rightarrow>
        fb_token replaced = m_token promote \<and> fb_epoch replaced = m_epoch promote
        \<and> fb_generation replaced = m_generation promote \<and> fb_purpose replaced = m_purpose promote)"

definition commit_fence ::
    "'c gateway_state \<Rightarrow> instant \<Rightarrow> fence_promote \<Rightarrow> fence \<Rightarrow> fence_result \<times> 'c gateway_state" where
  "commit_fence st now promote fence =
     (let client = m_client_id promote;
          ownership_continuous = active_at fence now \<and> \<not> requires_durable_recheck fence;
          st = st\<lparr>fences := (fences st)(client \<mapsto> fence\<lparr>f_state := Persistent\<rparr>)\<rparr>;
          fenced = fenced_at st client now;
          (job_ids, st) = protected_enqueued_job_ids st client now
      in (fence_answer client True fenced ownership_continuous ''dispatch_fence_promoted'' job_ids, st))"

definition promote_gateway_client_dispatch_fence ::
    "'c gateway_state \<Rightarrow> instant \<Rightarrow> fence_promote \<Rightarrow> fence_result \<times> 'c gateway_state" where
  "promote_gateway_client_dispatch_fence st now promote =
     (let client = m_client_id promote in
      if m_epoch promote \<noteq> fence_epoch st
      then (fence_answer client False (fenced_at st client now) False ''dispatch_fence_gateway_epoch_stale'' [], st)
      else if m_generation promote \<le> retired_generation (generation_of st client)
      then (fence_answer client False (fenced_at st client now) False ''dispatch_fence_generation_retired'' [], st)
      else
        let exact_before_normalize =
              (case fences st client of None \<Rightarrow> False | Some fence \<Rightarrow> owned_by_promote promote fence);
            st = (if \<not> exact_before_normalize
              then st\<lparr>fences := normalize_expired_dispatch_fence (fences st) client now\<rparr> else st)
        in case fences st client of
             None \<Rightarrow>
               (fence_answer client False False False ''dispatch_fence_owner_superseded_or_missing'' [], st)
           | Some fence \<Rightarrow>
               if owned_by_promote promote fence then commit_fence st now promote fence
               else (fence_answer client False (fenced_at st client now) False
                      (if fallback_of_promote promote fence then ''dispatch_fence_owner_is_fallback''
                       else ''dispatch_fence_owner_superseded_or_missing'') [], st))"

definition owned_by_clear :: "fence_clear \<Rightarrow> fence \<Rightarrow> bool" where
  "owned_by_clear clear fence \<longleftrightarrow>
     f_token fence = c_expected_token clear \<and> f_epoch fence = c_epoch clear
     \<and> f_generation fence = c_expected_generation clear"

definition fallback_of_clear :: "fence_clear \<Rightarrow> fence \<Rightarrow> bool" where
  "fallback_of_clear clear fence =
     (case fence_fallback_of fence of None \<Rightarrow> False | Some replaced \<Rightarrow>
        fb_token replaced = c_expected_token clear \<and> fb_epoch replaced = c_epoch clear
        \<and> fb_generation replaced = c_expected_generation clear)"

text \<open>The fence that a clear by its owner leaves: the fallback, if it is to be restored, or none.\<close>

definition cleared_fence :: "fence_clear \<Rightarrow> fence \<Rightarrow> fence option" where
  "cleared_fence clear current =
     (if c_restore_fallback clear
      then (case fence_fallback_of current of
              Some replaced \<Rightarrow> Some \<lparr>f_token = fb_token replaced, f_epoch = fb_epoch replaced,
                f_generation = fb_generation replaced, f_purpose = fb_purpose replaced,
                f_state = (if fb_requires_durable_recheck replaced then DurableRecheck None else Persistent)\<rparr>
            | None \<Rightarrow> None)
      else None)"

definition clear_gateway_client_dispatch_fence ::
    "'c gateway_state \<Rightarrow> instant \<Rightarrow> fence_clear \<Rightarrow> fence_result \<times> 'c gateway_state" where
  "clear_gateway_client_dispatch_fence st now clear =
     (let client = c_client_id clear in
      if c_epoch clear \<noteq> fence_epoch st
      then (fence_answer client False (fenced_at st client now) False ''dispatch_fence_gateway_epoch_stale'' [], st)
      else
        let retired_before = retired_generation (generation_of st client);
            current = fences st client;
            directly_owned = (case current of None \<Rightarrow> False | Some fence \<Rightarrow> owned_by_clear clear fence);
            owned_as_fallback = \<not> directly_owned
              \<and> (case current of None \<Rightarrow> False | Some fence \<Rightarrow> fallback_of_clear clear fence);
            restored = directly_owned \<and> c_restore_fallback clear
              \<and> (case current of None \<Rightarrow> False | Some fence \<Rightarrow> fence_fallback_of fence \<noteq> None);
            retired_owner_visible = c_expected_generation clear \<le> retired_before
              \<and> (directly_owned \<or> owned_as_fallback);
            st = (if directly_owned \<and> \<not> retired_owner_visible
              then st\<lparr>fences := (fences st)(client := Option.bind current (cleared_fence clear))\<rparr> else st);
            fenced = fenced_at st client now;
            should_retire = \<not> retired_owner_visible \<and> \<not> owned_as_fallback;
            accepted = \<not> retired_owner_visible \<and> (directly_owned \<or> (\<not> fenced \<and> \<not> owned_as_fallback));
            st = (if should_retire
              then retire_client_dispatch_fence_generation st client (c_epoch clear) (c_expected_generation clear) else st)
        in (fence_answer client accepted fenced False
              (if retired_owner_visible then ''dispatch_fence_generation_retired''
               else if restored then ''dispatch_fence_restored:'' @ c_reason clear
               else if directly_owned then ''dispatch_fence_cleared:'' @ c_reason clear
               else if owned_as_fallback then ''dispatch_fence_clear_owner_is_fallback''
               else if fenced then ''dispatch_fence_clear_token_mismatch''
               else ''dispatch_fence_already_clear'') [], st))"

definition prepare_gateway_client_dispatch_fence_batch ::
    "'c gateway_state \<Rightarrow> (instant \<times> fence_prepare) list \<Rightarrow> (string + fence_result list) \<times> 'c gateway_state" where
  "prepare_gateway_client_dispatch_fence_batch st items =
     (case validate_dispatch_fence_batch (length items) (map (p_client_id \<circ> snd) items) of
        Inl e \<Rightarrow> (Inl e, st)
      | Inr _ \<Rightarrow> (case run_batch prepare_gateway_client_dispatch_fence st items of (rs, st) \<Rightarrow> (Inr rs, st)))"

definition promote_gateway_client_dispatch_fence_batch ::
    "'c gateway_state \<Rightarrow> (instant \<times> fence_promote) list \<Rightarrow> (string + fence_result list) \<times> 'c gateway_state" where
  "promote_gateway_client_dispatch_fence_batch st items =
     (case validate_dispatch_fence_batch (length items) (map (m_client_id \<circ> snd) items) of
        Inl e \<Rightarrow> (Inl e, st)
      | Inr _ \<Rightarrow> (case run_batch promote_gateway_client_dispatch_fence st items of (rs, st) \<Rightarrow> (Inr rs, st)))"

definition clear_gateway_client_dispatch_fence_batch ::
    "'c gateway_state \<Rightarrow> (instant \<times> fence_clear) list \<Rightarrow> (string + fence_result list) \<times> 'c gateway_state" where
  "clear_gateway_client_dispatch_fence_batch st items =
     (case validate_dispatch_fence_batch (length items) (map (c_client_id \<circ> snd) items) of
        Inl e \<Rightarrow> (Inl e, st)
      | Inr _ \<Rightarrow> (case run_batch clear_gateway_client_dispatch_fence st items of (rs, st) \<Rightarrow> (Inr rs, st)))"

subsection \<open>Commands\<close>

text \<open>The bounded channel of a session.\<close>

datatype try_send_error = Full | Closed

definition try_send :: "'c gateway_session \<Rightarrow> 'c session_message \<Rightarrow> try_send_error + 'c gateway_session" where
  "try_send session message =
     (if receiver_closed session then Inl Closed
      else if length (queue session) \<ge> SESSION_COMMAND_QUEUE_CAPACITY then Inl Full
      else Inr (session\<lparr>queue := queue session @ [message]\<rparr>))"

definition send_error :: "string \<Rightarrow> try_send_error \<Rightarrow> gateway_error" where
  "send_error client error = (case error of Full \<Rightarrow> SessionQueueFull client | Closed \<Rightarrow> SessionClosed client)"

definition client_enqueues :: "'c gateway_state \<Rightarrow> string \<Rightarrow> (uuid \<times> enqueue_marker) list" where
  "client_enqueues st client = (case map_of (command_enqueues st) client of None \<Rightarrow> [] | Some ms \<Rightarrow> ms)"

definition insert_enqueue :: "'c gateway_state \<Rightarrow> string \<Rightarrow> uuid \<Rightarrow> enqueue_marker \<Rightarrow> 'c gateway_state" where
  "insert_enqueue st client job_id marker =
     st\<lparr>command_enqueues := AList.update client (AList.update job_id marker (client_enqueues st client))
          (command_enqueues st)\<rparr>"

definition rollback_failed_command_enqueue ::
    "'c gateway_state \<Rightarrow> string \<times> uuid \<Rightarrow> enqueue_marker \<Rightarrow> enqueue_marker option \<Rightarrow> 'c gateway_state" where
  "rollback_failed_command_enqueue st enqueue_key inserted_marker prior_marker =
     (case enqueue_key of (client, job_id) \<Rightarrow>
      if map_of (client_enqueues st client) job_id \<noteq> Some inserted_marker then st
      else case prior_marker of
        Some prior \<Rightarrow> insert_enqueue st client job_id prior
      | None \<Rightarrow>
          let ms = AList.delete job_id (client_enqueues st client) in
          if ms = [] then st\<lparr>command_enqueues := AList.delete client (command_enqueues st)\<rparr>
          else st\<lparr>command_enqueues := AList.update client ms (command_enqueues st)\<rparr>)"

text \<open>What one round of a dispatch reads from its environment: the clock, three times, and a fresh id.\<close>

record dispatch_round =
  t_check :: instant
  t_enqueue :: instant
  t_deadline :: instant
  new_marker_id :: uuid

datatype dispatch_outcome = DispatchFailed gateway_error | DispatchAgain | DispatchEnqueued

definition enqueue_lifetime :: "'c gateway_state \<Rightarrow> 'c command_dispatch \<Rightarrow> u64" where
  "enqueue_lifetime st dispatch = clamp 60 10800
     (saturating_add (saturating_add (jr_max_timeout_secs (cd_request dispatch)) (dispatch_ack_secs st)) 60)"

definition enqueue_command ::
    "'c gateway_state \<Rightarrow> dispatch_round \<Rightarrow> 'c command_dispatch \<Rightarrow> 'c gateway_session \<Rightarrow> dispatch_outcome \<times> 'c gateway_state" where
  "enqueue_command st rnd dispatch session =
     (let client = cd_client_id dispatch;
          job_id = jr_job_id (cd_request dispatch);
          marker = \<lparr>mk_generation = new_marker_id rnd,
                    mk_expires_at = t_enqueue rnd + from_secs (enqueue_lifetime st dispatch)\<rparr>;
          prior = map_of (client_enqueues st client) job_id;
          st = insert_enqueue st client job_id marker
      in case try_send session (Command (cd_request dispatch) (cd_payload_hash dispatch)) of
           Inl error \<Rightarrow>
             (DispatchFailed (send_error client error),
              rollback_failed_command_enqueue st (client, job_id) marker prior)
         | Inr session \<Rightarrow> (DispatchEnqueued, st\<lparr>sessions := (sessions st)(client \<mapsto> session)\<rparr>))"

definition dispatch_attempt ::
    "'c gateway_state \<Rightarrow> instant option \<Rightarrow> dispatch_round \<Rightarrow> 'c command_dispatch \<Rightarrow> dispatch_outcome \<times> 'c gateway_state" where
  "dispatch_attempt st grace_deadline rnd dispatch =
     (let client = cd_client_id dispatch; current_fence = fences st client in
      if cd_expected_gateway_epoch dispatch \<noteq> Some (fence_epoch st)
      then (DispatchFailed (GatewayEpochRecheckRequired (fence_epoch st)), st)
      else if (case current_fence of None \<Rightarrow> False | Some fence \<Rightarrow> \<not> active_at fence (t_check rnd))
      then (DispatchAgain, st\<lparr>fences := normalize_expired_dispatch_fence (fences st) client (t_check rnd)\<rparr>)
      else
        let refusal =
              (case current_fence of
                 Some fence \<Rightarrow>
                   if requires_durable_recheck fence
                   then if cd_lifecycle_recheck dispatch \<noteq> Some (fence_owner_of fence)
                        then Some (LifecycleRecheckRequired (fence_owner_of fence)) else None
                   else Some (AgentSuspended client)
               | None \<Rightarrow> if cd_lifecycle_recheck dispatch \<noteq> None then Some (LifecycleRecheckStale client) else None)
        in case refusal of
             Some e \<Rightarrow> (DispatchFailed e, st)
           | None \<Rightarrow>
               (case sessions st client of
                  Some session \<Rightarrow>
                    if process_incarnation_id session \<noteq> cd_expected_process_incarnation_id dispatch
                    then (DispatchFailed (IncarnationMismatch client
                            (cd_expected_process_incarnation_id dispatch) (process_incarnation_id session)), st)
                    else enqueue_command st rnd dispatch session
                | None \<Rightarrow>
                    (case grace_deadline of
                       Some deadline \<Rightarrow>
                         if t_deadline rnd < deadline then (DispatchAgain, st)
                         else (DispatchFailed (AgentNotOnline client), st)
                     | None \<Rightarrow> (DispatchFailed (AgentNotOnline client), st))))"

definition grace_deadline_of :: "'c gateway_state \<Rightarrow> string \<Rightarrow> instant option" where
  "grace_deadline_of st client =
     map_option (\<lambda>disconnected. disconnected + from_secs (reconnect_grace_secs st)) (disconnected_at st client)"

text \<open>
  The whole loop, over a list of rounds; between two rounds the other tasks change the state, which
  is the function that comes with the round. \<open>DispatchAgain\<close> is the answer when the rounds end
  before the loop does.
\<close>

fun dispatch_loop ::
    "'c gateway_state \<Rightarrow> instant option \<Rightarrow> (('c gateway_state \<Rightarrow> 'c gateway_state) \<times> dispatch_round) list
      \<Rightarrow> 'c command_dispatch \<Rightarrow> dispatch_outcome \<times> 'c gateway_state" where
  "dispatch_loop st deadline [] dispatch = (DispatchAgain, st)"
| "dispatch_loop st deadline ((others, rnd) # rounds) dispatch =
     (case dispatch_attempt (others st) deadline rnd dispatch of
        (DispatchAgain, st) \<Rightarrow> dispatch_loop st deadline rounds dispatch
      | (outcome, st) \<Rightarrow> (outcome, st))"

definition dispatch_gateway_command ::
    "'c gateway_state \<Rightarrow> (('c gateway_state \<Rightarrow> 'c gateway_state) \<times> dispatch_round) list
      \<Rightarrow> 'c command_dispatch \<Rightarrow> dispatch_outcome \<times> 'c gateway_state" where
  "dispatch_gateway_command st rounds dispatch =
     dispatch_loop st (grace_deadline_of st (cd_client_id dispatch)) rounds dispatch"

text \<open>Waiting for an agent's answer, with the two ways it fails.\<close>

datatype 'r awaited = Responded 'r | TimedOut | Dropped

definition await_response :: "string \<Rightarrow> string \<Rightarrow> 'r awaited \<Rightarrow> gateway_error + 'r" where
  "await_response timed_out dropped r =
     (case r of
        Responded x \<Rightarrow> Inr x
      | TimedOut \<Rightarrow> Inl (GatewayMessage timed_out)
      | Dropped \<Rightarrow> Inl (GatewayMessage dropped))"

definition await_command_ack :: "command_dispatch_result awaited \<Rightarrow> gateway_error + command_dispatch_result" where
  "await_command_ack = await_response ''gateway command ack timed out'' ''gateway command response dropped''"

definition cancel_gateway_command ::
    "'c gateway_state \<Rightarrow> command_cancel \<Rightarrow> command_cancel_result awaited
      \<Rightarrow> (gateway_error + command_cancel_result) \<times> 'c gateway_state" where
  "cancel_gateway_command st cancel answer =
     (let client = cc_client_id cancel in
      case sessions st client of
        None \<Rightarrow> (Inr \<lparr>cr_client_id = client, cr_job_id = jc_job_id (cc_request cancel), cr_acked = False,
                  cr_accepted = False, cr_applied = False, cr_message = ''agent_not_online''\<rparr>, st)
      | Some session \<Rightarrow>
          (case try_send session (Cancel (cc_request cancel)) of
             Inl error \<Rightarrow> (Inl (send_error client error), st)
           | Inr session \<Rightarrow>
               (await_response ''gateway command cancel timed out'' ''gateway command cancel response dropped'' answer,
                st\<lparr>sessions := (sessions st)(client \<mapsto> session)\<rparr>)))"

text \<open>Disconnecting returns, besides its answer, the session that was removed and told to close.\<close>

definition disconnect_gateway_session ::
    "'c gateway_state \<Rightarrow> session_disconnect
      \<Rightarrow> (session_disconnect_result \<times> 'c gateway_session option) \<times> 'c gateway_state" where
  "disconnect_gateway_session st disconnect =
     (let client = sd_client_id disconnect;
          answer = (\<lambda>disconnected message. \<lparr>sdr_client_id = client, sdr_accepted = True,
            sdr_disconnected = disconnected, sdr_message = message\<rparr>);
          owned = (case sd_required_dispatch_fence_owner disconnect of
            None \<Rightarrow> True
          | Some required_owner \<Rightarrow>
              let retired = own_epoch required_owner \<noteq> fence_epoch st
                    \<or> (case fence_generations st client of None \<Rightarrow> False
                       | Some generation \<Rightarrow> own_generation required_owner \<le> retired_generation generation)
              in (case fences st client of None \<Rightarrow> False | Some fence \<Rightarrow>
                    \<not> retired \<and> fence_owner_of fence = required_owner
                    \<and> f_purpose fence = Deletion \<and> persistent fence))
      in if \<not> owned then ((answer False ''dispatch_fence_owner_superseded'', None), st)
         else case sessions st client of
           None \<Rightarrow> ((answer False ''agent_not_online'', None), st)
         | Some session \<Rightarrow>
             ((answer True ''disconnect_requested'',
               Some (session\<lparr>close_tx := Some (Graceful (sd_reason disconnect))\<rparr>)),
              st\<lparr>sessions := (sessions st)(client := None)\<rparr>))"

definition disconnect_gateway_sessions ::
    "'c gateway_state \<Rightarrow> (instant \<times> session_disconnect) list
      \<Rightarrow> (string + (session_disconnect_result \<times> 'c gateway_session option) list) \<times> 'c gateway_state" where
  "disconnect_gateway_sessions st items =
     (case validate_gateway_control_batch (length items) (map (sd_client_id \<circ> snd) items) ''session_disconnect_batch'' of
        Inl e \<Rightarrow> (Inl e, st)
      | Inr _ \<Rightarrow> (case run_batch (\<lambda>st _. disconnect_gateway_session st) st items of (rs, st) \<Rightarrow> (Inr rs, st)))"

definition constructive_terminal_action :: "terminal_control_action \<Rightarrow> bool" where
  "constructive_terminal_action action =
     (case action of TerminalInput _ \<Rightarrow> True | TerminalResize _ _ \<Rightarrow> True | TerminalClose _ \<Rightarrow> False)"

definition dispatch_terminal_control ::
    "'c gateway_state \<Rightarrow> instant \<Rightarrow> terminal_control \<Rightarrow> 'a awaited \<Rightarrow> (gateway_error + string \<times> 'a) \<times> 'c gateway_state" where
  "dispatch_terminal_control st now control answer =
     (let client = tt_client_id control;
          constructive = constructive_terminal_action (tc_action (tt_request control));
          st = (if constructive
            then st\<lparr>fences := normalize_expired_dispatch_fence (fences st) client now\<rparr> else st);
          deletion_fenced = constructive \<and> (case fences st client of None \<Rightarrow> False | Some fence \<Rightarrow>
            f_purpose fence = Deletion \<and> active_at fence now)
      in if deletion_fenced then (Inl (LifecycleFenced client), st)
         else case sessions st client of
           None \<Rightarrow> (Inl (AgentNotOnline client), st)
         | Some session \<Rightarrow>
             if process_incarnation_id session \<noteq> tt_expected_process_incarnation_id control
             then (Inl (IncarnationMismatch client (tt_expected_process_incarnation_id control)
                     (process_incarnation_id session)), st)
             else case try_send session (TerminalControl (tt_request control)) of
               Inl error \<Rightarrow> (Inl (send_error client error), st)
             | Inr session \<Rightarrow>
                 (and_then (await_response ''gateway terminal control timed out''
                     ''gateway terminal control response dropped'' answer) (\<lambda>ack. Inr (client, ack)),
                  st\<lparr>sessions := (sessions st)(client \<mapsto> session)\<rparr>))"

subsection \<open>Privilege verification\<close>

record privilege_verification =
  pv_intent :: string
  pv_assertion :: privilege_assertion

record privilege_verification_result =
  pvr_approved :: bool
  pvr_intent_hash_hex :: string
  pvr_message :: string

record privilege_batch_item_result =
  pbi_request_id :: string
  pbi_approved :: bool
  pbi_intent_hash_hex :: "string option"
  pbi_message :: string
  pbi_error_code :: "string option"

definition debug_assertion_error :: "privilege_assertion_error \<Rightarrow> string" where
  "debug_assertion_error e =
     (case e of
        InvalidNonce \<Rightarrow> ''InvalidNonce''
      | InvalidTime \<Rightarrow> ''InvalidTime''
      | InvalidAssertion \<Rightarrow> ''InvalidAssertion''
      | Replay \<Rightarrow> ''Replay''
      | ReplayProtectionSaturated \<Rightarrow> ''ReplayProtectionSaturated'')"

definition decode_verifier_key :: "crypto \<Rightarrow> string option \<Rightarrow> string + u8 list" where
  "decode_verifier_key cr value =
     and_then (ok_or ''privilege verifier is not configured''
       (case map_option trim value of None \<Rightarrow> None | Some v \<Rightarrow> if v = [] then None else Some v)) (\<lambda>v.
     and_then (ok_or ''privilege verifier key must be hex'' (hex_decode cr v)) (\<lambda>bytes.
     and_then (ensure (length bytes = 32) ''privilege verifier key must be 32 bytes'') (\<lambda>_. Inr bytes)))"

definition verify_gateway_privilege ::
    "crypto \<Rightarrow> 'c gateway_state \<Rightarrow> string option \<Rightarrow> u64 \<Rightarrow> privilege_verification
      \<Rightarrow> (string + privilege_verification_result) \<times> 'c gateway_state" where
  "verify_gateway_privilege cr st verifier_key_hex now_unix verification =
     (case decode_verifier_key cr verifier_key_hex of
        Inl e \<Rightarrow> (Inl e, st)
      | Inr key \<Rightarrow>
          (case verify_privilege_assertion cr key (pv_intent verification) (pv_assertion verification)
                  now_unix (privilege_assertions st) of
             (Inl e, cache) \<Rightarrow> (Inl (''privilege_assertion_'' @ debug_assertion_error e), st\<lparr>privilege_assertions := cache\<rparr>)
           | (Inr h, cache) \<Rightarrow>
               (Inr \<lparr>pvr_approved = True, pvr_intent_hash_hex = h, pvr_message = ''approved''\<rparr>,
                st\<lparr>privilege_assertions := cache\<rparr>)))"

fun verify_batch_items ::
    "crypto \<Rightarrow> u8 list \<Rightarrow> u64 \<Rightarrow> privilege_assertion_replay_cache \<Rightarrow> (string \<times> privilege_verification) list
      \<Rightarrow> (string + privilege_batch_item_result list) \<times> privilege_assertion_replay_cache" where
  "verify_batch_items cr key now_unix cache [] = (Inr [], cache)"
| "verify_batch_items cr key now_unix cache ((request_id, verification) # items) =
     (case verify_privilege_assertion cr key (pv_intent verification) (pv_assertion verification) now_unix cache of
        (Inr h, cache) \<Rightarrow>
          (case verify_batch_items cr key now_unix cache items of
             (Inl e, cache) \<Rightarrow> (Inl e, cache)
           | (Inr rs, cache) \<Rightarrow>
               (Inr (\<lparr>pbi_request_id = request_id, pbi_approved = True, pbi_intent_hash_hex = Some h,
                  pbi_message = ''approved'', pbi_error_code = None\<rparr> # rs), cache))
      | (Inl e, cache) \<Rightarrow>
          if e = ReplayProtectionSaturated
          then (Inl (''privilege_assertion_'' @ debug_assertion_error ReplayProtectionSaturated), cache)
          else
            (case verify_batch_items cr key now_unix cache items of
               (Inl e, cache) \<Rightarrow> (Inl e, cache)
             | (Inr rs, cache) \<Rightarrow>
                 (Inr (\<lparr>pbi_request_id = request_id, pbi_approved = False, pbi_intent_hash_hex = None,
                    pbi_message = ''privilege verification failed'',
                    pbi_error_code = Some (''privilege_assertion_'' @ debug_assertion_error e)\<rparr> # rs), cache)))"

definition verify_gateway_privileges ::
    "crypto \<Rightarrow> 'c gateway_state \<Rightarrow> string option \<Rightarrow> u64 \<Rightarrow> (string \<times> privilege_verification) list
      \<Rightarrow> (string + privilege_batch_item_result list) \<times> 'c gateway_state" where
  "verify_gateway_privileges cr st verifier_key_hex now_unix items =
     (case validate_gateway_control_batch (length items) (map fst items) ''privilege_verification_batch'' of
        Inl e \<Rightarrow> (Inl e, st)
      | Inr _ \<Rightarrow>
          (case decode_verifier_key cr verifier_key_hex of
             Inl e \<Rightarrow> (Inl e, st)
           | Inr key \<Rightarrow>
               (case verify_batch_items cr key now_unix (privilege_assertions st) items of
                  (r, cache) \<Rightarrow> (r, st\<lparr>privilege_assertions := cache\<rparr>))))"

end
