(* ===== verification/Gateway_Fences.thy ===== *)
theory Gateway_Fences
  imports Gateway_Control
begin

section \<open>The dispatch-fence protocol\<close>

text \<open>
  The operations of \<open>control.rs\<close> as the steps of a transition system, the invariants of its reachable
  states, and what the fences promise: who may install, keep, replace and remove one, and that a
  fenced agent gets no command.
\<close>

datatype 'c gateway_op =
    OpAcquire instant fence_acquire
  | OpPrepare instant fence_prepare
  | OpPromote instant fence_promote
  | OpClear instant fence_clear
  | OpDispatch "instant option" dispatch_round "'c command_dispatch"
  | OpCancel command_cancel
  | OpDisconnect session_disconnect
  | OpTerminal instant terminal_control
  | OpPrune instant
  | OpVerify string u64 privilege_verification
  | OpTiming u64 u64
  | OpSession string "'c gateway_session option" "instant option"

text \<open>
  The last operation is what the session tasks do to the registry: a session comes, goes, takes
  messages off its queue, and its time of disconnection is noted.
\<close>

inductive gateway_step :: "crypto \<Rightarrow> 'c gateway_state \<Rightarrow> 'c gateway_op \<Rightarrow> 'c gateway_state \<Rightarrow> bool" for cr where
  Acquire: "gateway_step cr st (OpAcquire now a) (snd (acquire_gateway_client_dispatch_fence st now a))"
| Prepare: "gateway_step cr st (OpPrepare now p) (snd (prepare_gateway_client_dispatch_fence st now p))"
| Promote: "gateway_step cr st (OpPromote now m) (snd (promote_gateway_client_dispatch_fence st now m))"
| Clear: "gateway_step cr st (OpClear now c) (snd (clear_gateway_client_dispatch_fence st now c))"
| Dispatch: "gateway_step cr st (OpDispatch deadline rnd d) (snd (dispatch_attempt st deadline rnd d))"
| Cancel: "gateway_step cr st (OpCancel c) (snd (cancel_gateway_command st c answer))"
| Disconnect: "gateway_step cr st (OpDisconnect d) (snd (disconnect_gateway_session st d))"
| Terminal: "gateway_step cr st (OpTerminal now t) (snd (dispatch_terminal_control st now t (answer :: unit awaited)))"
| Prune: "gateway_step cr st (OpPrune now) (snd (prune_expired_command_enqueues st now))"
| Verify: "gateway_step cr st (OpVerify key now v) (snd (verify_gateway_privilege cr st (Some key) now v))"
| Timing: "gateway_step cr st (OpTiming grace ack) (set_runtime_timing st grace ack)"
| Session: "gateway_step cr st (OpSession client session gone)
     (st\<lparr>sessions := (sessions st)(client := session), disconnected_at := (disconnected_at st)(client := gone)\<rparr>)"

inductive_cases gateway_stepE: "gateway_step cr st op st'"

inductive gateway_run :: "crypto \<Rightarrow> 'c gateway_state \<Rightarrow> 'c gateway_op list \<Rightarrow> 'c gateway_state \<Rightarrow> bool" for cr where
  Done: "gateway_run cr st [] st"
| More: "gateway_step cr st op st1 \<Longrightarrow> gateway_run cr st1 ops st2 \<Longrightarrow> gateway_run cr st (op # ops) st2"

inductive_cases gateway_run_NilE [elim!]: "gateway_run cr st [] st'"
inductive_cases gateway_run_ConsE [elim!]: "gateway_run cr st (op # ops) st'"

text \<open>An invariant of single steps is an invariant of runs.\<close>

lemma gateway_run_invariant:
  assumes "gateway_run cr st ops st'" and "I st"
    and "\<And>op s s'. op \<in> set ops \<Longrightarrow> gateway_step cr s op s' \<Longrightarrow> I s \<Longrightarrow> I s'"
  shows "I st'"
  using assms by (induction rule: gateway_run.induct) auto

subsection \<open>What the operations leave alone\<close>

lemma protected_fields [simp]:
  "fences (snd (protected_enqueued_job_ids st client now)) = fences st"
  "fence_generations (snd (protected_enqueued_job_ids st client now)) = fence_generations st"
  "fence_epoch (snd (protected_enqueued_job_ids st client now)) = fence_epoch st"
  "sessions (snd (protected_enqueued_job_ids st client now)) = sessions st"
  "generation_of (snd (protected_enqueued_job_ids st client now)) = generation_of st"
  by (auto simp: protected_enqueued_job_ids_def generation_of_def Let_def fun_eq_iff split: option.splits)

lemma retire_fields [simp]:
  "fences (retire_client_dispatch_fence_generation st client e g) = fences st"
  "fence_epoch (retire_client_dispatch_fence_generation st client e g) = fence_epoch st"
  "sessions (retire_client_dispatch_fence_generation st client e g) = sessions st"
  "command_enqueues (retire_client_dispatch_fence_generation st client e g) = command_enqueues st"
  by (simp_all add: retire_client_dispatch_fence_generation_def Let_def)

lemma retire_generation:
  "generation_of (retire_client_dispatch_fence_generation st client (fence_epoch st) g) c =
     (if c = client then (generation_of st c)\<lparr>retired_generation := max (retired_generation (generation_of st c)) g\<rparr>
      else generation_of st c)"
  by (simp add: retire_client_dispatch_fence_generation_def generation_of_def Let_def)

lemma generation_of_update [simp]:
  "generation_of (st\<lparr>fences := fs\<rparr>) = generation_of st"
  "generation_of (st\<lparr>sessions := ss\<rparr>) = generation_of st"
  "generation_of (st\<lparr>command_enqueues := ce\<rparr>) = generation_of st"
  "generation_of (st\<lparr>privilege_assertions := pa\<rparr>) = generation_of st"
  "generation_of (st\<lparr>disconnected_at := da\<rparr>) = generation_of st"
  "generation_of (st\<lparr>fence_generations := (fence_generations st)(client \<mapsto> g)\<rparr>) = (generation_of st)(client := g)"
  by (auto simp: generation_of_def fun_eq_iff)

lemma normalize_other [simp]: "c \<noteq> client \<Longrightarrow> normalize_expired_dispatch_fence fs client now c = fs c"
  by (simp add: normalize_expired_dispatch_fence_def split: option.splits)

lemma normalize_None [simp]: "normalize_expired_dispatch_fence fs client now c = None \<longleftrightarrow> fs c = None"
  by (simp add: normalize_expired_dispatch_fence_def split: option.splits)

lemma normalize_Some:
  "normalize_expired_dispatch_fence fs client now c = Some f' \<Longrightarrow>
     \<exists>f. fs c = Some f \<and> f_token f' = f_token f \<and> f_epoch f' = f_epoch f \<and> f_generation f' = f_generation f
       \<and> f_purpose f' = f_purpose f \<and> fence_fallback_of f' = fence_fallback_of f
       \<and> (f' = f \<or> (lease_expired_at f now \<and> requires_durable_recheck f'))"
  by (auto simp: normalize_expired_dispatch_fence_def fence_fallback_of_def requires_durable_recheck_def
      split: option.splits if_splits)

lemma enqueue_fields [simp]:
  "fences (insert_enqueue st client job m) = fences st"
  "fence_epoch (insert_enqueue st client job m) = fence_epoch st"
  "sessions (insert_enqueue st client job m) = sessions st"
  "generation_of (insert_enqueue st client job m) = generation_of st"
  "fences (rollback_failed_command_enqueue st key m prior) = fences st"
  "fence_epoch (rollback_failed_command_enqueue st key m prior) = fence_epoch st"
  "sessions (rollback_failed_command_enqueue st key m prior) = sessions st"
  "generation_of (rollback_failed_command_enqueue st key m prior) = generation_of st"
  by (auto simp: insert_enqueue_def rollback_failed_command_enqueue_def Let_def split: prod.splits option.splits)

subsection \<open>The abstract fence of one client\<close>

text \<open>
  What the protocol means for one client: its fence, if any, and its generation counters, changed
  by events that name the owner who causes them. This is the specification the operations refine.
\<close>

type_synonym client_fence = "fence option \<times> fence_generation"

datatype fence_event =
    Expired instant
  | Allocated uuid
  | Installed fence_owner
  | Renewed fence_owner
  | Replaced fence_owner
  | Committed fence_owner
  | Removed fence_owner
  | Restored fence_owner
  | Retired fence_owner

definition authorized :: "uuid \<Rightarrow> fence_generation \<Rightarrow> fence_owner \<Rightarrow> bool" where
  "authorized e g ow \<longleftrightarrow> own_epoch ow = e \<and> own_generation ow = latest_generation g
     \<and> latest_token g = Some (own_token ow) \<and> retired_generation g < own_generation ow"

definition fence_for :: "fence_owner \<Rightarrow> fence_purpose \<Rightarrow> fence_state \<Rightarrow> fence" where
  "fence_for ow p s = \<lparr>f_token = own_token ow, f_epoch = own_epoch ow, f_generation = own_generation ow,
     f_purpose = p, f_state = s\<rparr>"

definition fallback_to :: "fence \<Rightarrow> bool \<Rightarrow> fence_fallback" where
  "fallback_to f recheck = \<lparr>fb_token = f_token f, fb_epoch = f_epoch f, fb_generation = f_generation f,
     fb_purpose = f_purpose f, fb_requires_durable_recheck = recheck\<rparr>"

definition restored_fence :: "fence_fallback \<Rightarrow> fence" where
  "restored_fence fb = \<lparr>f_token = fb_token fb, f_epoch = fb_epoch fb, f_generation = fb_generation fb,
     f_purpose = fb_purpose fb,
     f_state = (if fb_requires_durable_recheck fb then DurableRecheck None else Persistent)\<rparr>"

definition replaceable_by :: "fence \<Rightarrow> fence_owner \<Rightarrow> fence_purpose \<Rightarrow> bool" where
  "replaceable_by f ow p \<longleftrightarrow>
     requires_durable_recheck f
     \<or> (persistent f \<and> (f_purpose f = Suspension \<or> p = Deletion))
     \<or> (prepared f \<and> f_purpose f = Suspension \<and> p = Suspension \<and> f_generation f < own_generation ow)"

abbreviation retire_in :: "u64 \<Rightarrow> fence_generation \<Rightarrow> fence_generation" where
  "retire_in n g \<equiv> g\<lparr>retired_generation := max (retired_generation g) n\<rparr>"

inductive fence_changes :: "uuid \<Rightarrow> client_fence \<Rightarrow> fence_event \<Rightarrow> client_fence \<Rightarrow> bool" for e where
  ev_expired: "f_state f = Prepared t fb \<Longrightarrow> t \<le> now \<Longrightarrow>
    fence_changes e (Some f, g) (Expired now) (Some (f\<lparr>f_state := DurableRecheck fb\<rparr>), g)"
| ev_allocated: "checked_add (latest_generation g) 1 = Some n \<Longrightarrow> latest_token g \<noteq> Some tok \<Longrightarrow>
    fence_changes e (fo, g) (Allocated tok) (fo, g\<lparr>latest_generation := n, latest_token := Some tok,
      latest_purpose := Some p, latest_supersedes_prepared_suspension := s\<rparr>)"
| ev_installed: "authorized e g ow \<Longrightarrow>
    fence_changes e (None, g) (Installed ow) (Some (fence_for ow p (Prepared t None)), g)"
| ev_renewed: "fence_owner_of f = ow \<Longrightarrow> prepared f \<Longrightarrow> retired_generation g < own_generation ow \<Longrightarrow>
    fence_changes e (Some f, g) (Renewed ow) (Some (f\<lparr>f_state := Prepared t (fence_fallback_of f)\<rparr>), g)"
| ev_replaced: "authorized e g ow \<Longrightarrow> replaceable_by f ow p \<Longrightarrow> (requires_durable_recheck f \<Longrightarrow> recheck) \<Longrightarrow>
    fence_changes e (Some f, g) (Replaced ow)
      (Some (fence_for ow p (Prepared t (Some (fallback_to f recheck)))), retire_in (f_generation f) g)"
| ev_committed: "fence_owner_of f = ow \<Longrightarrow> retired_generation g < own_generation ow \<Longrightarrow>
    fence_changes e (Some f, g) (Committed ow) (Some (f\<lparr>f_state := Persistent\<rparr>), g)"
| ev_removed: "fence_owner_of f = ow \<Longrightarrow> retired_generation g < own_generation ow \<Longrightarrow>
    fence_changes e (Some f, g) (Removed ow) (None, retire_in (own_generation ow) g)"
| ev_restored: "fence_owner_of f = ow \<Longrightarrow> retired_generation g < own_generation ow \<Longrightarrow>
    fence_fallback_of f = Some fb \<Longrightarrow>
    fence_changes e (Some f, g) (Restored ow) (Some (restored_fence fb), retire_in (own_generation ow) g)"
| ev_retired: "(\<And>f. fo = Some f \<Longrightarrow> fence_owner_of f \<noteq> ow) \<Longrightarrow>
    fence_changes e (fo, g) (Retired ow) (fo, retire_in (own_generation ow) g)"

inductive fence_trace :: "uuid \<Rightarrow> client_fence \<Rightarrow> fence_event list \<Rightarrow> client_fence \<Rightarrow> bool" for e where
  trace_Nil: "fence_trace e s [] s"
| trace_Cons: "fence_changes e s ev s1 \<Longrightarrow> fence_trace e s1 evs s2 \<Longrightarrow> fence_trace e s (ev # evs) s2"

lemma trace_single: "fence_changes e s ev s' \<Longrightarrow> fence_trace e s [ev] s'"
  by (blast intro: fence_trace.intros)

lemma fence_trace_append:
  "fence_trace e s evs s1 \<Longrightarrow> fence_trace e s1 evs' s2 \<Longrightarrow> fence_trace e s (evs @ evs') s2"
  by (induction rule: fence_trace.induct) (auto intro: fence_trace.intros)

lemma fence_trace_invariant:
  assumes "fence_trace e s evs s'" and "I s"
    and "\<And>ev s s'. ev \<in> set evs \<Longrightarrow> fence_changes e s ev s' \<Longrightarrow> I s \<Longrightarrow> I s'"
  shows "I s'"
  using assms
proof (induction rule: fence_trace.induct)
  case (trace_Cons s ev s1 evs s2)
  have "I s1" using trace_Cons.prems(2) [OF _ trace_Cons.hyps(1) trace_Cons.prems(1)] by simp
  then show ?case by (rule trace_Cons.IH) (rule trace_Cons.prems(2), simp_all)
qed

text \<open>Which events an operation may cause for a client.\<close>

fun permitted :: "'c gateway_op \<Rightarrow> string \<Rightarrow> fence_event \<Rightarrow> bool" where
  "permitted (OpAcquire now a) client ev \<longleftrightarrow> a_client_id a = client
     \<and> (ev = Expired now \<or> ev = Allocated (a_token a))"
| "permitted (OpPrepare now p) client ev \<longleftrightarrow> p_client_id p = client
     \<and> (let ow = \<lparr>own_token = p_token p, own_epoch = p_epoch p, own_generation = p_generation p\<rparr> in
        ev = Expired now \<or> ev = Installed ow \<or> ev = Renewed ow \<or> ev = Replaced ow)"
| "permitted (OpPromote now m) client ev \<longleftrightarrow> m_client_id m = client
     \<and> (ev = Expired now
        \<or> ev = Committed \<lparr>own_token = m_token m, own_epoch = m_epoch m, own_generation = m_generation m\<rparr>)"
| "permitted (OpClear now c) client ev \<longleftrightarrow> c_client_id c = client
     \<and> (let ow = \<lparr>own_token = c_expected_token c, own_epoch = c_epoch c, own_generation = c_expected_generation c\<rparr> in
        ev = Removed ow \<or> ev = Restored ow \<or> ev = Retired ow)"
| "permitted (OpDispatch deadline rnd d) client ev \<longleftrightarrow> cd_client_id d = client \<and> ev = Expired (t_check rnd)"
| "permitted (OpTerminal now t) client ev \<longleftrightarrow> tt_client_id t = client \<and> ev = Expired now"
| "permitted _ client ev \<longleftrightarrow> False"

definition fence_view :: "'c gateway_state \<Rightarrow> string \<Rightarrow> client_fence" where
  "fence_view st client = (fences st client, generation_of st client)"

definition refines :: "'c gateway_state \<Rightarrow> 'c gateway_op \<Rightarrow> string \<Rightarrow> 'c gateway_state \<Rightarrow> bool" where
  "refines st op client st' \<longleftrightarrow> fence_epoch st' = fence_epoch st
     \<and> (\<exists>evs. fence_trace (fence_epoch st) (fence_view st client) evs (fence_view st' client)
          \<and> list_all (permitted op client) evs)"

lemma refines_same:
  "fence_view st' client = fence_view st client \<Longrightarrow> fence_epoch st' = fence_epoch st \<Longrightarrow> refines st op client st'"
  by (auto simp: refines_def intro!: exI [of _ "[]"] trace_Nil)

lemma refines_step:
  "fence_changes (fence_epoch st) (fence_view st client) ev (fence_view st' client) \<Longrightarrow> permitted op client ev
    \<Longrightarrow> fence_epoch st' = fence_epoch st \<Longrightarrow> refines st op client st'"
  by (auto simp: refines_def intro!: exI [of _ "[ev]"] trace_single)

lemma refines_trans:
  "refines st op client st1 \<Longrightarrow> refines st1 op client st2 \<Longrightarrow> refines st op client st2"
  unfolding refines_def by (metis fence_trace_append list_all_append)

subsection \<open>The operations refine the abstract fence\<close>

lemma normalize_refines:
  assumes "permitted op client (Expired now)"
  shows "refines st op c (st\<lparr>fences := normalize_expired_dispatch_fence (fences st) client now\<rparr>)"
proof (cases "c = client \<and> normalize_expired_dispatch_fence (fences st) client now client \<noteq> fences st client")
  case False
  then show ?thesis by (intro refines_same; cases "c = client") (auto simp: fence_view_def)
next
  case True
  then obtain f t fb where "fences st client = Some f" "f_state f = Prepared t fb" "t \<le> now"
    by (auto simp: normalize_expired_dispatch_fence_def lease_expired_at_def split: option.splits if_splits fence_state.splits)
  then have "fence_changes (fence_epoch st) (fence_view st client) (Expired now)
      (fence_view (st\<lparr>fences := normalize_expired_dispatch_fence (fences st) client now\<rparr>) client)"
    by (auto simp: fence_view_def normalize_expired_dispatch_fence_def lease_expired_at_def
        fence_fallback_of_def intro!: ev_expired)
  then show ?thesis using True assms by (intro refines_step) auto
qed

lemma acquire_cases:
  fixes st :: "'c gateway_state"
  defines "st1 \<equiv> \<lambda>now a. st\<lparr>fences := normalize_expired_dispatch_fence (fences st) (a_client_id a) now\<rparr>"
  shows "snd (acquire_gateway_client_dispatch_fence st now a) \<in> {st, st1 now a} \<or>
    (\<exists>g. allocate_generation (generation_of st (a_client_id a)) a = Inr g
       \<and> snd (acquire_gateway_client_dispatch_fence st now a) =
           (st1 now a)\<lparr>fence_generations := (fence_generations st)(a_client_id a \<mapsto> g)\<rparr>)"
  by (simp add: acquire_gateway_client_dispatch_fence_def allocate_owner_def st1_def Let_def split: option.split sum.split)

lemma allocate_generation_cases:
  "allocate_generation g a = Inr g' \<Longrightarrow> g' = g \<or>
     (\<exists>n. checked_add (latest_generation g) 1 = Some n \<and> latest_token g \<noteq> Some (a_token a)
        \<and> g' = g\<lparr>latest_generation := n, latest_token := Some (a_token a), latest_purpose := Some (a_purpose a),
             latest_supersedes_prepared_suspension := a_supersede_prepared_suspension a\<rparr>)"
  by (auto simp: allocate_generation_def split: if_splits option.splits)

lemma acquire_refines: "refines st (OpAcquire now a) c (snd (acquire_gateway_client_dispatch_fence st now a))"
proof -
  define st1 where "st1 = st\<lparr>fences := normalize_expired_dispatch_fence (fences st) (a_client_id a) now\<rparr>"
  have norm: "refines st (OpAcquire now a) c st1" unfolding st1_def by (rule normalize_refines) simp
  have same: "refines st (OpAcquire now a) c st" by (rule refines_same) simp_all
  have alloc: "refines st1 (OpAcquire now a) c (st1\<lparr>fence_generations := (fence_generations st)(a_client_id a \<mapsto> g)\<rparr>)"
    if g: "allocate_generation (generation_of st (a_client_id a)) a = Inr g" for g
  proof (cases "c = a_client_id a \<and> g \<noteq> generation_of st (a_client_id a)")
    case True
    then obtain n where "checked_add (latest_generation (generation_of st c)) 1 = Some n"
      "latest_token (generation_of st c) \<noteq> Some (a_token a)"
      "g = (generation_of st c)\<lparr>latest_generation := n, latest_token := Some (a_token a),
         latest_purpose := Some (a_purpose a),
         latest_supersedes_prepared_suspension := a_supersede_prepared_suspension a\<rparr>"
      using allocate_generation_cases [OF g] by auto
    then have "fence_changes (fence_epoch st1) (fence_view st1 c) (Allocated (a_token a))
        (fence_view (st1\<lparr>fence_generations := (fence_generations st)(a_client_id a \<mapsto> g)\<rparr>) c)"
      using True by (auto simp: fence_view_def st1_def generation_of_def intro!: ev_allocated)
    then show ?thesis using True by (intro refines_step) auto
  next
    case False
    then show ?thesis by (intro refines_same) (auto simp: fence_view_def st1_def generation_of_def)
  qed
  show ?thesis using acquire_cases [of st now a] same norm refines_trans [OF norm alloc]
    by (auto simp flip: st1_def)
qed

text \<open>Prepare, once the fence at hand is normalized.\<close>

abbreviation prepare_owner :: "fence_prepare \<Rightarrow> fence_owner" where
  "prepare_owner p \<equiv> \<lparr>own_token = p_token p, own_epoch = p_epoch p, own_generation = p_generation p\<rparr>"

lemma protected_view [simp]:
  "fence_view (snd (protected_enqueued_job_ids st client now)) = fence_view st"
  by (simp add: fence_view_def fun_eq_iff)

lemma fence_view_update:
  "fence_view (st\<lparr>fences := (fences st)(client := fo)\<rparr>) c =
     (if c = client then (fo, generation_of st client) else fence_view st c)"
  by (simp add: fence_view_def)

lemma fence_view_retire:
  "fence_view (retire_client_dispatch_fence_generation st client (fence_epoch st) n) c =
     (if c = client then (fences st client, retire_in n (generation_of st client)) else fence_view st c)"
  by (simp add: fence_view_def retire_generation)

lemma renew_view:
  "fence_view (snd (renew_fence st now p f)) c =
     (if c = p_client_id p \<and> prepared f
      then (Some (f\<lparr>f_state := Prepared (lease_end now p) (fence_fallback_of f)\<rparr>), generation_of st c)
      else fence_view st c)"
  "fence_epoch (snd (renew_fence st now p f)) = fence_epoch st"
  by (simp_all add: renew_fence_def Let_def case_prod_unfold fence_view_update)

lemma replace_view:
  assumes "p_epoch p = fence_epoch st"
  shows "fence_view (snd (replace_fence st now p g f)) c =
      (if c = p_client_id p
       then (Some (fence_for (prepare_owner p) (p_purpose p) (Prepared (lease_end now p) (Some (fallback_to f
               (authorized_unsuspend_transition p g \<or> requires_durable_recheck f))))),
             retire_in (f_generation f) (generation_of st c))
       else fence_view st c)"
    "fence_epoch (snd (replace_fence st now p g f)) = fence_epoch st"
proof -
  define st1 where "st1 = st\<lparr>fences := (fences st)(p_client_id p \<mapsto> fence_for (prepare_owner p) (p_purpose p)
    (Prepared (lease_end now p) (Some (fallback_to f (authorized_unsuspend_transition p g \<or> requires_durable_recheck f)))))\<rparr>"
  have snd: "fence_view (snd (replace_fence st now p g f)) =
      fence_view (retire_client_dispatch_fence_generation st1 (p_client_id p) (p_epoch p) (f_generation f))"
    "fence_epoch (snd (replace_fence st now p g f)) = fence_epoch st1"
    by (simp_all add: replace_fence_def Let_def case_prod_unfold st1_def fence_for_def fallback_to_def)
  have e: "p_epoch p = fence_epoch st1" using assms by (simp add: st1_def)
  show "fence_view (snd (replace_fence st now p g f)) c =
      (if c = p_client_id p
       then (Some (fence_for (prepare_owner p) (p_purpose p) (Prepared (lease_end now p) (Some (fallback_to f
               (authorized_unsuspend_transition p g \<or> requires_durable_recheck f))))),
             retire_in (f_generation f) (generation_of st c))
       else fence_view st c)"
    unfolding snd(1) e fence_view_retire by (simp add: st1_def fence_view_update assms)
  show "fence_epoch (snd (replace_fence st now p g f)) = fence_epoch st" unfolding snd(2) by (simp add: st1_def)
qed

lemma install_view:
  "fence_view (snd (install_fence st now p)) c =
     (if c = p_client_id p
      then (Some (fence_for (prepare_owner p) (p_purpose p) (Prepared (lease_end now p) None)), generation_of st c)
      else fence_view st c)"
  "fence_epoch (snd (install_fence st now p)) = fence_epoch st"
  by (simp_all add: install_fence_def Let_def case_prod_unfold fence_view_update fence_for_def)

lemma prepare_existing_refines:
  assumes "fences st (p_client_id p) = Some f" and "p_epoch p = fence_epoch st"
    and "g = generation_of st (p_client_id p)"
  shows "refines st (OpPrepare now p) c (snd (prepare_existing st now p g f))"
proof -
  have renew: "refines st (OpPrepare now p) c (snd (renew_fence st now p f))"
    if "same_owner p f" "retired_generation g < p_generation p"
  proof (cases "c = p_client_id p \<and> prepared f")
    case True
    have "fence_owner_of f = prepare_owner p" using that(1) by (simp add: same_owner_def fence_owner_of_def)
    then have "fence_changes (fence_epoch st) (fence_view st c) (Renewed (prepare_owner p))
        (fence_view (snd (renew_fence st now p f)) c)"
      using assms that True by (auto simp: renew_view fence_view_def [of st] intro!: ev_renewed)
    then show ?thesis using True by (rule_tac refines_step) (auto simp: renew_view)
  next
    case False
    then show ?thesis by (intro refines_same) (auto simp: renew_view)
  qed
  have replace: "refines st (OpPrepare now p) c (snd (replace_fence st now p g f))"
    if "initial_authorized p g" "replaces_prepared_suspension p g f \<or> replaces_recoverable_fence p f"
  proof (cases "c = p_client_id p")
    case True
    have "authorized (fence_epoch st) g (prepare_owner p)"
      using that(1) assms(2) by (simp add: authorized_def initial_authorized_def)
    moreover have "replaceable_by f (prepare_owner p) (p_purpose p)"
      using that(2) by (auto simp: replaceable_by_def replaces_prepared_suspension_def replaces_recoverable_fence_def)
    ultimately have "fence_changes (fence_epoch st) (fence_view st c) (Replaced (prepare_owner p))
        (fence_view (snd (replace_fence st now p g f)) c)"
      using assms True by (auto simp: replace_view fence_view_def [of st] intro!: ev_replaced)
    then show ?thesis using True assms(2) by (rule_tac refines_step) (auto simp: replace_view)
  next
    case False
    then show ?thesis using assms(2) by (intro refines_same) (auto simp: replace_view)
  qed
  have same: "refines st (OpPrepare now p) c st" by (rule refines_same) simp_all
  show ?thesis using renew replace same by (auto simp: prepare_existing_def Let_def not_le)
qed

lemma prepare_state:
  fixes st :: "'c gateway_state"
  defines "st1 \<equiv> \<lambda>now p. st\<lparr>fences := normalize_expired_dispatch_fence (fences st) (p_client_id p) now\<rparr>"
  shows "snd (prepare_gateway_client_dispatch_fence st now p) =
      (if p_epoch p \<noteq> fence_epoch st then st
       else case fences (st1 now p) (p_client_id p) of
         Some f \<Rightarrow> snd (prepare_existing (st1 now p) now p (generation_of st (p_client_id p)) f)
       | None \<Rightarrow> if \<not> p_renewal p \<and> initial_authorized p (generation_of st (p_client_id p))
                 then snd (install_fence (st1 now p) now p) else st1 now p)"
  by (auto simp: prepare_gateway_client_dispatch_fence_def Let_def st1_def split: option.split dest: normalize_Some)

lemma prepare_existing_state:
  "snd (prepare_existing st now p g f) \<in> {st, snd (renew_fence st now p f), snd (replace_fence st now p g f)}"
  by (simp add: prepare_existing_def Let_def)

lemma prepare_refines: "refines st (OpPrepare now p) c (snd (prepare_gateway_client_dispatch_fence st now p))"
proof -
  define st1 where "st1 = st\<lparr>fences := normalize_expired_dispatch_fence (fences st) (p_client_id p) now\<rparr>"
  have norm: "refines st (OpPrepare now p) c st1" unfolding st1_def by (rule normalize_refines) simp
  have same: "refines st (OpPrepare now p) c st" by (rule refines_same) simp_all
  have inst: "refines st1 (OpPrepare now p) c (snd (install_fence st1 now p))"
    if "fences st1 (p_client_id p) = None" "initial_authorized p (generation_of st (p_client_id p))"
      "p_epoch p = fence_epoch st"
  proof (cases "c = p_client_id p")
    case True
    have "authorized (fence_epoch st1) (generation_of st1 c) (prepare_owner p)"
      using that True by (simp add: authorized_def initial_authorized_def st1_def)
    then have "fence_changes (fence_epoch st1) (fence_view st1 c) (Installed (prepare_owner p))
        (fence_view (snd (install_fence st1 now p)) c)"
      using that True by (auto simp: install_view fence_view_def [of st1] intro!: ev_installed)
    then show ?thesis using True by (rule_tac refines_step) (auto simp: install_view)
  next
    case False
    then show ?thesis by (intro refines_same) (auto simp: install_view)
  qed
  have ex: "refines st1 (OpPrepare now p) c (snd (prepare_existing st1 now p (generation_of st (p_client_id p)) f))"
    if "fences st1 (p_client_id p) = Some f" "p_epoch p = fence_epoch st" for f
    using that by (intro prepare_existing_refines) (simp_all add: st1_def)
  show ?thesis unfolding prepare_state st1_def [symmetric]
    using same norm refines_trans [OF norm inst] refines_trans [OF norm ex]
    by (auto split: option.split)
qed

abbreviation promote_owner :: "fence_promote \<Rightarrow> fence_owner" where
  "promote_owner m \<equiv> \<lparr>own_token = m_token m, own_epoch = m_epoch m, own_generation = m_generation m\<rparr>"

abbreviation clear_owner :: "fence_clear \<Rightarrow> fence_owner" where
  "clear_owner cl \<equiv> \<lparr>own_token = c_expected_token cl, own_epoch = c_epoch cl, own_generation = c_expected_generation cl\<rparr>"

lemma commit_view:
  "fence_view (snd (commit_fence st now m f)) c =
     (if c = m_client_id m then (Some (f\<lparr>f_state := Persistent\<rparr>), generation_of st c) else fence_view st c)"
  "fence_epoch (snd (commit_fence st now m f)) = fence_epoch st"
  by (simp_all add: commit_fence_def Let_def case_prod_unfold fence_view_update)

lemma commit_refines:
  assumes "fences st (m_client_id m) = Some f" and "owned_by_promote m f"
    and "retired_generation (generation_of st (m_client_id m)) < m_generation m"
  shows "refines st (OpPromote now m) c (snd (commit_fence st now m f))"
proof (cases "c = m_client_id m")
  case True
  have "fence_owner_of f = promote_owner m" using assms(2) by (simp add: owned_by_promote_def fence_owner_of_def)
  then have "fence_changes (fence_epoch st) (fence_view st c) (Committed (promote_owner m))
      (fence_view (snd (commit_fence st now m f)) c)"
    using assms True by (auto simp: commit_view fence_view_def [of st] intro!: ev_committed)
  then show ?thesis using True by (rule_tac refines_step) (auto simp: commit_view)
next
  case False
  then show ?thesis by (intro refines_same) (auto simp: commit_view)
qed

lemma promote_state:
  fixes st :: "'c gateway_state"
  defines "st1 \<equiv> \<lambda>now m. if (case fences st (m_client_id m) of None \<Rightarrow> False | Some f \<Rightarrow> owned_by_promote m f) then st
    else st\<lparr>fences := normalize_expired_dispatch_fence (fences st) (m_client_id m) now\<rparr>"
  shows "snd (promote_gateway_client_dispatch_fence st now m) =
      (if m_epoch m \<noteq> fence_epoch st \<or> m_generation m \<le> retired_generation (generation_of st (m_client_id m)) then st
       else case fences (st1 now m) (m_client_id m) of
         Some f \<Rightarrow> if owned_by_promote m f then snd (commit_fence (st1 now m) now m f) else st1 now m
       | None \<Rightarrow> st1 now m)"
  by (auto simp: promote_gateway_client_dispatch_fence_def Let_def st1_def split: option.split dest: normalize_Some)

lemma promote_refines: "refines st (OpPromote now m) c (snd (promote_gateway_client_dispatch_fence st now m))"
proof -
  define st1 where "st1 = (if (case fences st (m_client_id m) of None \<Rightarrow> False | Some f \<Rightarrow> owned_by_promote m f) then st
    else st\<lparr>fences := normalize_expired_dispatch_fence (fences st) (m_client_id m) now\<rparr>)"
  have norm: "refines st (OpPromote now m) c st1"
    unfolding st1_def using normalize_refines [of "OpPromote now m" "m_client_id m" now st c]
    by (simp add: refines_same)
  have same: "refines st (OpPromote now m) c st" by (rule refines_same) simp_all
  have com: "refines st1 (OpPromote now m) c (snd (commit_fence st1 now m f))"
    if "fences st1 (m_client_id m) = Some f" "owned_by_promote m f"
      "retired_generation (generation_of st (m_client_id m)) < m_generation m" for f
    using that by (intro commit_refines) (auto simp: st1_def)
  show ?thesis unfolding promote_state st1_def [symmetric]
    using same norm refines_trans [OF norm com]
    by (auto split: option.split simp: not_le)
qed

lemma clear_state:
  "snd (clear_gateway_client_dispatch_fence st now cl) =
     (let client = c_client_id cl;
          retire = (\<lambda>s. retire_client_dispatch_fence_generation s client (c_epoch cl) (c_expected_generation cl)) in
      if c_epoch cl \<noteq> fence_epoch st then st
      else case fences st client of
        None \<Rightarrow> retire st
      | Some f \<Rightarrow>
          if owned_by_clear cl f
          then if c_expected_generation cl \<le> retired_generation (generation_of st client) then st
               else retire (st\<lparr>fences := (fences st)(client := cleared_fence cl f)\<rparr>)
          else if fallback_of_clear cl f then st else retire st)"
  by (simp add: clear_gateway_client_dispatch_fence_def Let_def split: option.split)

lemma clear_refines: "refines st (OpClear now cl) c (snd (clear_gateway_client_dispatch_fence st now cl))"
proof -
  let ?client = "c_client_id cl" and ?g = "generation_of st (c_client_id cl)"
  define st2 where "st2 = snd (clear_gateway_client_dispatch_fence st now cl)"
  consider (same) "st2 = st"
    | (owned) f where "fences st ?client = Some f" "owned_by_clear cl f"
        "retired_generation ?g < c_expected_generation cl" "c_epoch cl = fence_epoch st"
        "st2 = retire_client_dispatch_fence_generation (st\<lparr>fences := (fences st)(?client := cleared_fence cl f)\<rparr>)
           ?client (c_epoch cl) (c_expected_generation cl)"
    | (retire) "\<And>f. fences st ?client = Some f \<Longrightarrow> \<not> owned_by_clear cl f" "c_epoch cl = fence_epoch st"
        "st2 = retire_client_dispatch_fence_generation st ?client (c_epoch cl) (c_expected_generation cl)"
    using st2_def [unfolded clear_state Let_def] by (auto simp: not_le split: if_splits option.splits)
  then show ?thesis
  proof cases
    case same
    then show ?thesis by (intro refines_same) (simp_all add: st2_def)
  next
    case (owned f)
    have ow: "fence_owner_of f = clear_owner cl" using owned(2) by (simp add: owned_by_clear_def fence_owner_of_def)
    have view: "fence_view st2 c' = (if c' = ?client
        then (cleared_fence cl f, retire_in (c_expected_generation cl) ?g) else fence_view st c')" for c'
      using fence_view_retire [of "st\<lparr>fences := (fences st)(?client := cleared_fence cl f)\<rparr>" ?client
          "c_expected_generation cl" c'] owned(4,5) by (simp add: fence_view_def)
    have "\<exists>ev. permitted (OpClear now cl) ?client ev
        \<and> fence_changes (fence_epoch st) (fence_view st ?client) ev (fence_view st2 ?client)"
    proof (cases "cleared_fence cl f")
      case None
      then show ?thesis using owned(1,3) ow view ev_removed [of f "clear_owner cl" ?g "fence_epoch st"]
        by (intro exI [of _ "Removed (clear_owner cl)"]) (simp add: fence_view_def)
    next
      case (Some f')
      then obtain fb where "fence_fallback_of f = Some fb" "f' = restored_fence fb"
        by (auto simp: cleared_fence_def restored_fence_def split: if_splits option.splits)
      then show ?thesis using owned(1,3) ow view Some ev_restored [of f "clear_owner cl" ?g fb "fence_epoch st"]
        by (intro exI [of _ "Restored (clear_owner cl)"]) (simp add: fence_view_def)
    qed
    then show ?thesis using owned(5) view unfolding st2_def [symmetric]
      by (cases "c = ?client") (auto intro: refines_step refines_same)
  next
    case retire
    have view: "fence_view st2 c' = (if c' = ?client then (fences st ?client, retire_in (c_expected_generation cl) ?g)
        else fence_view st c')" for c'
      using fence_view_retire [of st ?client "c_expected_generation cl" c'] retire(2,3) by simp
    have "fence_owner_of f \<noteq> clear_owner cl" if "fences st ?client = Some f" for f
      using retire(1) [OF that] by (auto simp: owned_by_clear_def fence_owner_of_def)
    then have "fence_changes (fence_epoch st) (fence_view st ?client) (Retired (clear_owner cl)) (fence_view st2 ?client)"
      using view ev_retired [of "fences st ?client" "clear_owner cl" "fence_epoch st" ?g] by (simp add: fence_view_def)
    then show ?thesis using retire(3) view unfolding st2_def [symmetric]
      by (cases "c = ?client") (auto intro: refines_step refines_same)
  qed
qed

lemma enqueue_command_view:
  "fence_view (snd (enqueue_command st rnd d session)) c = fence_view st c"
  "fence_epoch (snd (enqueue_command st rnd d session)) = fence_epoch st"
  by (simp_all add: enqueue_command_def Let_def fence_view_def split: sum.split)

lemma dispatch_refines: "refines st (OpDispatch deadline rnd d) c (snd (dispatch_attempt st deadline rnd d))"
proof -
  define st1 where "st1 = st\<lparr>fences := normalize_expired_dispatch_fence (fences st) (cd_client_id d) (t_check rnd)\<rparr>"
  have "refines st (OpDispatch deadline rnd d) c st1" unfolding st1_def by (rule normalize_refines) simp
  moreover have "refines st (OpDispatch deadline rnd d) c st" by (rule refines_same) simp_all
  moreover have "refines st (OpDispatch deadline rnd d) c (snd (enqueue_command st rnd d session))" for session
    by (rule refines_same) (simp_all add: enqueue_command_view)
  ultimately show ?thesis unfolding dispatch_attempt_def Let_def
    by (auto split: option.split if_splits simp flip: st1_def)
qed

lemma terminal_refines: "refines st (OpTerminal now t) c (snd (dispatch_terminal_control st now t answer))"
proof -
  define st1 where "st1 = (if constructive_terminal_action (tc_action (tt_request t))
    then st\<lparr>fences := normalize_expired_dispatch_fence (fences st) (tt_client_id t) now\<rparr> else st)"
  have norm: "refines st (OpTerminal now t) c st1"
    unfolding st1_def using normalize_refines [of "OpTerminal now t" "tt_client_id t" now st c]
    by (simp add: refines_same)
  have "fence_view (snd (dispatch_terminal_control st now t answer)) c = fence_view st1 c"
    "fence_epoch (snd (dispatch_terminal_control st now t answer)) = fence_epoch st1"
    by (cases "constructive_terminal_action (tc_action (tt_request t))";
        simp add: dispatch_terminal_control_def fence_view_def st1_def Let_def split: option.split sum.split)+
  then have "refines st1 (OpTerminal now t) c (snd (dispatch_terminal_control st now t answer))"
    by (rule refines_same)
  with norm show ?thesis by (rule refines_trans)
qed

lemma other_ops_view:
  "fence_view (snd (cancel_gateway_command st cc answer)) c = fence_view st c"
  "fence_epoch (snd (cancel_gateway_command st cc answer)) = fence_epoch st"
  "fence_view (snd (disconnect_gateway_session st sd)) c = fence_view st c"
  "fence_epoch (snd (disconnect_gateway_session st sd)) = fence_epoch st"
  "fence_view (snd (prune_expired_command_enqueues st now)) c = fence_view st c"
  "fence_epoch (snd (prune_expired_command_enqueues st now)) = fence_epoch st"
  "fence_view (snd (verify_gateway_privilege cr st key now_unix v)) c = fence_view st c"
  "fence_epoch (snd (verify_gateway_privilege cr st key now_unix v)) = fence_epoch st"
  "fence_view (set_runtime_timing st grace ack) c = fence_view st c"
  "fence_epoch (set_runtime_timing st grace ack) = fence_epoch st"
  by (simp_all add: cancel_gateway_command_def disconnect_gateway_session_def prune_expired_command_enqueues_def
      verify_gateway_privilege_def set_runtime_timing_def fence_view_def generation_of_def Let_def case_prod_unfold
      split: option.split sum.split)

lemma step_refines: "gateway_step cr st op st' \<Longrightarrow> refines st op c st'"
proof (induction rule: gateway_step.induct)
  case (Session st client session gone)
  then show ?case by (intro refines_same) (simp_all add: fence_view_def generation_of_def)
qed (auto simp: acquire_refines prepare_refines promote_refines clear_refines dispatch_refines terminal_refines
    intro!: refines_same other_ops_view)

subsection \<open>Invariants of the abstract fence\<close>

text \<open>An owner that was allocated: its generation has been given out, and to its token only.\<close>

definition known_owner :: "fence_generation \<Rightarrow> uuid \<Rightarrow> u64 \<Rightarrow> bool" where
  "known_owner g tok n \<longleftrightarrow> n \<le> latest_generation g \<and> (n = latest_generation g \<longrightarrow> latest_token g = Some tok)"

fun fence_ok :: "uuid \<Rightarrow> client_fence \<Rightarrow> bool" where
  "fence_ok e (fo, g) \<longleftrightarrow>
     (case fo of None \<Rightarrow> True | Some f \<Rightarrow>
        f_epoch f = e \<and> known_owner g (f_token f) (f_generation f)
        \<and> (case fence_fallback_of f of None \<Rightarrow> True | Some fb \<Rightarrow>
             fb_epoch fb = e \<and> known_owner g (fb_token fb) (fb_generation fb)
             \<and> fb_generation fb \<le> f_generation f \<and> fb_generation fb \<le> retired_generation g
             \<and> (fb_generation fb = f_generation f \<longrightarrow> fb_token fb = f_token f)))"

lemma known_owner_allocated:
  "known_owner g tok n \<Longrightarrow> checked_add (latest_generation g) 1 = Some m \<Longrightarrow>
     known_owner (g\<lparr>latest_generation := m, latest_token := t, latest_purpose := p, latest_supersedes_prepared_suspension := s\<rparr>) tok n"
proof -
  assume k: "known_owner g tok n" and m: "checked_add (latest_generation g) 1 = Some m"
  have "latest_generation g < m" using m by (auto simp: checked_add_Some word_less_nat_alt unat_add_no_overflow)
  then show ?thesis using k by (auto simp: known_owner_def)
qed

lemma known_owner_retire [simp]: "known_owner (g\<lparr>retired_generation := n\<rparr>) = known_owner g"
  by (simp add: known_owner_def fun_eq_iff)

lemma fallback_of_update [simp]:
  "fence_fallback_of (f\<lparr>f_state := Persistent\<rparr>) = None"
  "fence_fallback_of (f\<lparr>f_state := Prepared t fb\<rparr>) = fb"
  "fence_fallback_of (f\<lparr>f_state := DurableRecheck fb\<rparr>) = fb"
  "fence_fallback_of (fence_for ow p (Prepared t fb)) = fb"
  "fence_fallback_of (restored_fence x) = None"
  by (simp_all add: fence_fallback_of_def fence_for_def restored_fence_def)

lemma fence_changes_ok: "fence_changes e s ev s' \<Longrightarrow> fence_ok e s \<Longrightarrow> fence_ok e s'"
proof (induction rule: fence_changes.induct)
  case (ev_expired f t fb now g)
  then show ?case by (auto simp: fence_fallback_of_def split: option.splits)
next
  case (ev_allocated g n tok fo p s)
  then show ?case by (auto simp: known_owner_allocated split: option.splits)
next
  case (ev_replaced g ow f p recheck t)
  then show ?case
    by (auto simp: fence_for_def fallback_to_def authorized_def known_owner_def fence_fallback_of_def
        split: option.splits)
next
  case (ev_restored f ow g fb)
  then show ?case by (auto simp: restored_fence_def fence_fallback_of_def)
next
  case (ev_retired fo ow g)
  then show ?case by (auto simp: le_max_iff_disj split: option.splits)
qed (auto simp: fence_for_def authorized_def known_owner_def fence_fallback_of_def split: option.splits)

definition fences_ok :: "'c gateway_state \<Rightarrow> bool" where
  "fences_ok st \<longleftrightarrow> (\<forall>client. fence_ok (fence_epoch st) (fence_view st client))"

lemma refines_invariant:
  assumes "refines st op c st'" and "I (fence_view st c)"
    and "\<And>ev s s'. permitted op c ev \<Longrightarrow> fence_changes (fence_epoch st) s ev s' \<Longrightarrow> I s \<Longrightarrow> I s'"
  shows "I (fence_view st' c)"
proof -
  obtain evs where tr: "fence_trace (fence_epoch st) (fence_view st c) evs (fence_view st' c)"
      and perm: "list_all (permitted op c) evs"
    using assms(1) by (auto simp: refines_def)
  show ?thesis
    by (rule fence_trace_invariant [where I = I, OF tr assms(2)]) (use perm assms(3) in \<open>auto simp: list_all_iff\<close>)
qed

lemma step_epoch: "gateway_step cr st op st' \<Longrightarrow> fence_epoch st' = fence_epoch st"
  using step_refines unfolding refines_def by blast

lemma step_fences_ok:
  assumes "gateway_step cr st op st'" and "fences_ok st"
  shows "fences_ok st'"
  unfolding fences_ok_def
proof
  fix c
  show "fence_ok (fence_epoch st') (fence_view st' c)"
    unfolding step_epoch [OF assms(1)]
    by (rule refines_invariant [OF step_refines [OF assms(1)]])
      (use assms(2) fence_changes_ok in \<open>auto simp: fences_ok_def\<close>)
qed

lemma run_epoch: "gateway_run cr st ops st' \<Longrightarrow> fence_epoch st' = fence_epoch st"
  by (induction rule: gateway_run.induct) (simp_all add: step_epoch)

lemma run_fence_invariant:
  assumes "gateway_run cr st ops st'" and "J (fence_view st c)"
    and "\<And>op ev s s'. op \<in> set ops \<Longrightarrow> permitted op c ev \<Longrightarrow> fence_changes (fence_epoch st) s ev s' \<Longrightarrow> J s \<Longrightarrow> J s'"
  shows "J (fence_view st' c)"
  using assms
proof (induction rule: gateway_run.induct)
  case (More st op st1 ops st2)
  have "J (fence_view st1 c)"
    by (rule refines_invariant [where I = J, OF step_refines [OF More.hyps(1)] More.prems(1)])
      (rule More.prems(2), simp_all)
  then show ?case
    by (rule More.IH) (rule More.prems(2), simp_all add: step_epoch [OF More.hyps(1)])
qed

end
