(* ===== verification/Gateway_Safety.thy ===== *)
theory Gateway_Safety
  imports Gateway_Fences
begin

section \<open>What the dispatch fences guarantee\<close>

text \<open>
  The properties of the fence protocol over steps and runs of the gateway, from the refinement of
  the abstract fence and the equations of the operations.
\<close>

subsection \<open>Accepted answers\<close>

lemma protected_fst: "r_accepted (fst (renew_fence st now p f))"
  "r_accepted (fst (replace_fence st now p g f))" "r_accepted (fst (install_fence st now p))"
  "r_accepted (fst (commit_fence st now m f))"
  by (simp_all add: renew_fence_def replace_fence_def install_fence_def commit_fence_def fence_answer_def
      Let_def case_prod_unfold)

lemma prepare_accepted:
  assumes "r_accepted (fst (prepare_gateway_client_dispatch_fence st now p))"
  shows "p_epoch p = fence_epoch st" "retired_generation (generation_of st (p_client_id p)) < p_generation p"
proof -
  show "p_epoch p = fence_epoch st"
    using assms by (simp add: prepare_gateway_client_dispatch_fence_def fence_answer_def Let_def split: if_splits)
  show "retired_generation (generation_of st (p_client_id p)) < p_generation p"
    using assms
    by (auto simp: prepare_gateway_client_dispatch_fence_def prepare_existing_def fence_answer_def Let_def
        initial_authorized_def not_le split: if_splits option.splits)
qed

lemma promote_accepted:
  assumes "r_accepted (fst (promote_gateway_client_dispatch_fence st now m))"
  shows "m_epoch m = fence_epoch st" "retired_generation (generation_of st (m_client_id m)) < m_generation m"
  using assms
  by (auto simp: promote_gateway_client_dispatch_fence_def fence_answer_def Let_def not_le split: if_splits)

lemma retired_monotone:
  assumes "gateway_run cr st ops st'" and "n \<le> retired_generation (generation_of st c)"
  shows "n \<le> retired_generation (generation_of st' c)"
proof -
  have keep: "n \<le> retired_generation (snd y)"
    if "fence_changes e x ev y" "n \<le> retired_generation (snd x)" for e x ev y
    using that by (induction rule: fence_changes.induct) (auto simp: le_max_iff_disj)
  have "n \<le> retired_generation (snd (fence_view st' c))"
    by (rule run_fence_invariant [where J = "\<lambda>x. n \<le> retired_generation (snd x)", OF assms(1)])
      (use keep assms(2) in \<open>auto simp: fence_view_def\<close>)
  then show ?thesis by (simp add: fence_view_def)
qed

lemma reachable_fences_ok_all:
  assumes "gateway_run cr (default_gateway_state e) ops st"
  shows "fence_ok (fence_epoch st) (fence_view st client)"
proof -
  have "fences_ok st"
  proof (rule gateway_run_invariant [where I = fences_ok, OF assms])
    show "fences_ok (default_gateway_state e)"
      by (simp add: fences_ok_def fence_view_def default_gateway_state_def)
  qed (rule step_fences_ok)
  then show ?thesis by (simp add: fences_ok_def)
qed

lemma gateway_run_snoc:
  "gateway_run cr st ops st1 \<Longrightarrow> gateway_step cr st1 op st2 \<Longrightarrow> gateway_run cr st (ops @ [op]) st2"
  by (induction rule: gateway_run.induct) (auto intro: gateway_run.intros)

text \<open>Only a clear takes a fence away.\<close>

fun clears :: "string \<Rightarrow> 'c gateway_op \<Rightarrow> bool" where
  "clears client (OpClear now cl) \<longleftrightarrow> c_client_id cl = client"
| "clears client _ \<longleftrightarrow> False"

lemma fence_stays:
  assumes "fence_changes e s ev s'" and "permitted op c ev" and "\<not> clears c op" and "fst s \<noteq> None"
  shows "fst s' \<noteq> None"
  using assms
proof (induction rule: fence_changes.induct)
  case (ev_removed f ow g)
  then show ?case by (cases op) (auto simp: Let_def)
qed auto

lemma run_fence_stays:
  assumes "gateway_run cr st ops st'" and "fences st c \<noteq> None" and "list_all (\<lambda>op. \<not> clears c op) ops"
  shows "fences st' c \<noteq> None"
proof -
  have "fst (fence_view st' c) \<noteq> None"
  proof (rule run_fence_invariant [where J = "\<lambda>s. fst s \<noteq> None", OF assms(1)])
    fix op ev s s'
    assume "op \<in> set ops" "permitted op c ev" "fence_changes (fence_epoch st) s ev s'" "fst s \<noteq> None"
    then show "fst s' \<noteq> None" using assms(3) by (intro fence_stays [of _ s ev s' op c]) (auto simp: list_all_iff)
  qed (use assms(2) in \<open>simp add: fence_view_def\<close>)
  then show ?thesis by (simp add: fence_view_def)
qed

lemma dispatch_attempt_enqueued:
  "fst (dispatch_attempt st deadline rnd d) = DispatchEnqueued \<longleftrightarrow>
     cd_expected_gateway_epoch d = Some (fence_epoch st)
     \<and> (case fences st (cd_client_id d) of
          None \<Rightarrow> cd_lifecycle_recheck d = None
        | Some f \<Rightarrow> requires_durable_recheck f \<and> cd_lifecycle_recheck d = Some (fence_owner_of f))
     \<and> (case sessions st (cd_client_id d) of
          None \<Rightarrow> False
        | Some s \<Rightarrow> process_incarnation_id s = cd_expected_process_incarnation_id d \<and> \<not> receiver_closed s
            \<and> length (queue s) < 1024)"
proof -
  have recheck_active: "requires_durable_recheck f \<Longrightarrow> active_at f now" for f now
    by (auto simp: requires_durable_recheck_def active_at_def split: fence_state.splits)
  have enq: "fst (enqueue_command st rnd d s) = DispatchEnqueued \<longleftrightarrow> \<not> receiver_closed s \<and> length (queue s) < 1024" for s
    by (auto simp: enqueue_command_def try_send_def Let_def SESSION_COMMAND_QUEUE_CAPACITY_def)
  show ?thesis
    by (auto simp: dispatch_attempt_def Let_def enq recheck_active split: option.split if_splits)
qed

subsection \<open>Properties\<close>


definition sample_acquire :: fence_acquire where
  "sample_acquire = \<lparr>a_client_id = ''vps-1'', a_token = 11, a_purpose = Suspension, a_supersede_prepared_suspension = False\<rparr>"

definition sample_state :: "unit gateway_state" where
  "sample_state = default_gateway_state 5"


text \<open>
  (C13) In every reachable state each fence belongs to this gateway's epoch and to an allocated
  generation, the newest generation has one token only, and the owner a fence would fall back to is
  older, distinct or the same by its token, and already retired.
\<close>

theorem reachable_fences_ok:
  assumes "gateway_run cr (default_gateway_state e) ops st"
  shows "fence_ok (fence_epoch st) (fence_view st client)"
  using reachable_fences_ok_all [OF assms] .

theorem reachable_fences_ok_witness:
  "fence_ok 5 (fence_view (snd (acquire_gateway_client_dispatch_fence sample_state 0 sample_acquire)) ''vps-1'')"
proof -
  have run: "gateway_run sample_crypto (default_gateway_state 5) [OpAcquire 0 sample_acquire]
      (snd (acquire_gateway_client_dispatch_fence sample_state 0 sample_acquire))"
    using gateway_run.More [OF gateway_step.Acquire gateway_run.Done, of sample_crypto sample_state 0 sample_acquire]
    by (simp add: sample_state_def)
  show ?thesis using reachable_fences_ok [OF run, of "''vps-1''"] run_epoch [OF run]
    by (simp add: default_gateway_state_def)
qed

text \<open>
  A fence goes only by its owner's clear: if a step leaves a client without the fence it had, the
  step is a clear that presents exactly the token, epoch and generation of this fence, the
  generation was not retired, and the clear did not ask to restore an owner there was.
\<close>

theorem fence_removed_only_by_owner:
  assumes "gateway_step cr st op st'" and "fences st client = Some f" and "fences st' client = None"
  shows "\<exists>now cl. op = OpClear now cl \<and> c_client_id cl = client \<and> clear_owner cl = fence_owner_of f
    \<and> retired_generation (generation_of st client) < f_generation f
    \<and> (c_restore_fallback cl \<longrightarrow> fence_fallback_of f = None)"
proof -
  have "clears client op"
  proof (rule ccontr)
    assume not: "\<not> clears client op"
    have "fst (fence_view st' client) \<noteq> None"
      by (rule refines_invariant [where I = "\<lambda>s. fst s \<noteq> None", OF step_refines [OF assms(1)]])
        (use assms(2) fence_stays [OF _ _ not] in \<open>simp_all add: fence_view_def\<close>)
    then show False using assms(3) by (simp add: fence_view_def)
  qed
  then obtain now cl where op: "op = OpClear now cl" "c_client_id cl = client" by (cases op) auto
  then have "st' = snd (clear_gateway_client_dispatch_fence st now cl)"
    using assms(1) by (auto elim: gateway_step.cases)
  then show ?thesis using op assms(2,3)
    by (auto simp: clear_state Let_def owned_by_clear_def fence_owner_of_def cleared_fence_def not_le
        split: if_splits option.splits)
qed

definition sample_fence :: fence where
  "sample_fence = \<lparr>f_token = 11, f_epoch = 5, f_generation = 1, f_purpose = Suspension, f_state = Persistent\<rparr>"

definition sample_clear :: fence_clear where
  "sample_clear = \<lparr>c_client_id = ''vps-1'', c_expected_token = 11, c_epoch = 5, c_expected_generation = 1,
     c_restore_fallback = False, c_reason = ''done''\<rparr>"

theorem fence_removed_only_by_owner_witness:
  "\<exists>now cl. (OpClear 3 sample_clear :: unit gateway_op) = OpClear now cl \<and> clear_owner cl = fence_owner_of sample_fence"
proof -
  let ?st = "sample_state\<lparr>fences := [''vps-1'' \<mapsto> sample_fence]\<rparr>"
  have "fences (snd (clear_gateway_client_dispatch_fence ?st 3 sample_clear)) ''vps-1'' = None"
    by (simp add: clear_state Let_def sample_state_def default_gateway_state_def sample_clear_def sample_fence_def
        owned_by_clear_def cleared_fence_def generation_of_def default_fence_generation_def)
  from fence_removed_only_by_owner [OF gateway_step.Clear [of sample_crypto ?st 3 sample_clear] _ this, of sample_fence]
  show ?thesis by auto
qed


definition sample_session :: "unit gateway_session" where
  "sample_session = \<lparr>session_id = 1, process_incarnation_id = 2, queue = [], receiver_closed = False, close_tx = None\<rparr>"

definition sample_dispatch :: "fence_owner option \<Rightarrow> unit command_dispatch" where
  "sample_dispatch recheck = \<lparr>cd_client_id = ''vps-1'',
     cd_request = \<lparr>jr_job_id = 9, jr_command_version = 1, jr_command = (), jr_max_timeout_secs = 30\<rparr>,
     cd_expected_process_incarnation_id = 2, cd_expected_gateway_epoch = Some 5, cd_payload_hash = [],
     cd_lifecycle_recheck = recheck\<rparr>"

definition sample_round :: dispatch_round where
  "sample_round = \<lparr>t_check = 7, t_enqueue = 8, t_deadline = 9, new_marker_id = 77\<rparr>"

lemmas gateway_sample_defs = sample_state_def default_gateway_state_def sample_fence_def sample_clear_def
  sample_session_def sample_dispatch_def sample_round_def generation_of_def default_fence_generation_def


text \<open>
  A command reaches an agent's queue exactly when the request was made for this gateway epoch, the
  client has no fence and claims no recheck, or a fence that lost its lease and a recheck for
  its exact owner, and the agent's session is the expected process, open and not full.
\<close>

theorem dispatch_enqueues_exactly:
  "fst (dispatch_attempt st deadline rnd d) = DispatchEnqueued \<longleftrightarrow>
     cd_expected_gateway_epoch d = Some (fence_epoch st)
     \<and> (case fences st (cd_client_id d) of
          None \<Rightarrow> cd_lifecycle_recheck d = None
        | Some f \<Rightarrow> requires_durable_recheck f \<and> cd_lifecycle_recheck d = Some (fence_owner_of f))
     \<and> (case sessions st (cd_client_id d) of
          None \<Rightarrow> False
        | Some s \<Rightarrow> process_incarnation_id s = cd_expected_process_incarnation_id d \<and> \<not> receiver_closed s
            \<and> length (queue s) < 1024)"
  by (rule dispatch_attempt_enqueued)

lemma client_enqueues_insert:
  "client_enqueues (insert_enqueue st client job m) c =
     (if c = client then AList.update job m (client_enqueues st client) else client_enqueues st c)"
  by (simp add: insert_enqueue_def client_enqueues_def update_conv')

lemma client_enqueues_rollback:
  "map_of (client_enqueues st client) job = prior \<Longrightarrow>
   map_of (client_enqueues (rollback_failed_command_enqueue (insert_enqueue st client job m) (client, job) m prior) c) j
     = map_of (client_enqueues st c) j"
proof -
  assume prior: "map_of (client_enqueues st client) job = prior"
  show ?thesis
  proof (cases prior)
    case (Some p)
    then show ?thesis using prior
      by (auto simp: rollback_failed_command_enqueue_def client_enqueues_insert update_conv')
  next
    case None
    have del: "client_enqueues (s\<lparr>command_enqueues := AList.delete client (command_enqueues s)\<rparr>) c
        = (if c = client then [] else client_enqueues s c)"
      "client_enqueues (s\<lparr>command_enqueues := AList.update client ms (command_enqueues s)\<rparr>) c
        = (if c = client then ms else client_enqueues s c)" for s :: "'a gateway_state" and ms
      by (simp_all add: client_enqueues_def delete_conv' update_conv')
    let ?ms = "AList.delete job (AList.update job m (client_enqueues st client))"
    have ms: "map_of ?ms = map_of (client_enqueues st client)"
      using prior None by (simp add: delete_conv' update_conv' fun_upd_idem)
    show ?thesis
    proof (cases "?ms = []")
      case True
      then have "map_of (client_enqueues st client) = Map.empty" using ms by (metis map_of.simps(1))
      then show ?thesis using None True
        by (simp add: rollback_failed_command_enqueue_def client_enqueues_insert del update_conv' Let_def)
    next
      case False
      then show ?thesis using None ms
        by (simp add: rollback_failed_command_enqueue_def client_enqueues_insert del update_conv' Let_def)
    qed
  qed
qed



text \<open>
  (C14) A retired owner stays out: once a client's retired generation has reached the generation of an owner,
  no prepare and no promote in this owner's name is accepted in any later state.
\<close>

theorem retired_owner_stays_out:
  assumes "gateway_run cr st ops st'"
    and "p_generation p \<le> retired_generation (generation_of st (p_client_id p))"
    and "m_generation m \<le> retired_generation (generation_of st (m_client_id m))"
  shows "\<not> r_accepted (fst (prepare_gateway_client_dispatch_fence st' now p))
    \<and> \<not> r_accepted (fst (promote_gateway_client_dispatch_fence st' now m))"
  using prepare_accepted(2) [of st' now p] promote_accepted(2) [of st' now m]
    retired_monotone [OF assms(1,2)] retired_monotone [OF assms(1,3)]
  by (auto simp: not_le [symmetric])

definition sample_prepare :: "u64 \<Rightarrow> fence_prepare" where
  "sample_prepare n = \<lparr>p_client_id = ''vps-1'', p_token = 11, p_epoch = 5, p_generation = n, p_renewal = False,
     p_lease_secs = 30, p_purpose = Suspension\<rparr>"

definition sample_promote :: "u64 \<Rightarrow> fence_promote" where
  "sample_promote n = \<lparr>m_client_id = ''vps-1'', m_token = 11, m_epoch = 5, m_generation = n, m_purpose = Suspension\<rparr>"

theorem retired_owner_stays_out_witness:
  "\<not> r_accepted (fst (prepare_gateway_client_dispatch_fence
      (retire_client_dispatch_fence_generation sample_state ''vps-1'' 5 4) 3 (sample_prepare 4)))"
proof -
  let ?st = "retire_client_dispatch_fence_generation sample_state ''vps-1'' 5 4"
  have "retired_generation (generation_of ?st ''vps-1'') = 4"
    by (simp add: retire_client_dispatch_fence_generation_def gateway_sample_defs)
  with retired_owner_stays_out [OF gateway_run.Done, of "sample_prepare 4" ?st "sample_promote 4" 3]
  show ?thesis by (simp add: sample_prepare_def sample_promote_def)
qed

text \<open>An owner and its generation in a client's fence: no other token goes with this generation.\<close>

definition exclusive_owner :: "uuid \<Rightarrow> u64 \<Rightarrow> client_fence \<Rightarrow> bool" where
  "exclusive_owner tok n s \<longleftrightarrow> known_owner (snd s) tok n
     \<and> (case fst s of None \<Rightarrow> True | Some f \<Rightarrow> (f_generation f = n \<longrightarrow> f_token f = tok)
          \<and> (case fence_fallback_of f of None \<Rightarrow> True | Some fb \<Rightarrow> fb_generation fb = n \<longrightarrow> fb_token fb = tok))"

lemma fence_changes_exclusive: "fence_changes e s ev s' \<Longrightarrow> exclusive_owner tok n s \<Longrightarrow> exclusive_owner tok n s'"
proof (induction rule: fence_changes.induct)
  case (ev_expired f t fb now g)
  then show ?case by (auto simp: exclusive_owner_def fence_fallback_of_def)
next
  case (ev_allocated g n tok fo p s)
  then show ?case by (auto simp: exclusive_owner_def known_owner_allocated split: option.splits)
next
  case (ev_replaced g ow f p recheck t)
  then show ?case
    by (auto simp: exclusive_owner_def fence_for_def fallback_to_def authorized_def known_owner_def fence_fallback_of_def)
next
  case (ev_restored f ow g fb)
  then show ?case by (auto simp: exclusive_owner_def restored_fence_def fence_fallback_of_def)
qed (auto simp: exclusive_owner_def fence_for_def authorized_def known_owner_def fence_fallback_of_def
    split: option.splits)

lemma acquire_Inr:
  assumes "acquire_gateway_client_dispatch_fence st now a = (Inr r, st2)"
  obtains (held) f where "fences st2 (a_client_id a) = Some f" "f_token f = a_token a" "ar_owner r = fence_owner_of f"
    | (new) fo g where "fence_view st2 (a_client_id a) = (fo, g)" "latest_token g = Some (a_token a)"
        "own_token (ar_owner r) = a_token a" "own_generation (ar_owner r) = latest_generation g"
proof -
  define st1 where "st1 = st\<lparr>fences := normalize_expired_dispatch_fence (fences st) (a_client_id a) now\<rparr>"
  have "(\<exists>f. fences st1 (a_client_id a) = Some f \<and> f_token f = a_token a \<and> ar_owner r = fence_owner_of f \<and> st2 = st1)
      \<or> allocate_owner st1 a = (Inr r, st2)"
    using assms unfolding acquire_gateway_client_dispatch_fence_def Let_def st1_def [symmetric]
    by (auto split: option.splits if_splits)
  then show ?thesis
  proof
    assume "allocate_owner st1 a = (Inr r, st2)"
    then obtain g where g: "allocate_generation (generation_of st1 (a_client_id a)) a = Inr g"
        "own_token (ar_owner r) = a_token a" "own_generation (ar_owner r) = latest_generation g"
        "st2 = st1\<lparr>fence_generations := (fence_generations st1)(a_client_id a \<mapsto> g)\<rparr>"
      by (auto simp: allocate_owner_def Let_def split: sum.splits)
    have "latest_token g = Some (a_token a)"
      using g(1) by (auto simp: allocate_generation_def split: if_splits option.splits)
    then show ?thesis using g(2-4) by (intro new) (simp_all add: fence_view_def)
  qed (use held in auto)
qed

lemma acquired_owner_exclusive:
  assumes "fences_ok st" and "acquire_gateway_client_dispatch_fence st now a = (Inr r, st2)"
  shows "exclusive_owner (own_token (ar_owner r)) (own_generation (ar_owner r)) (fence_view st2 (a_client_id a))"
    "own_token (ar_owner r) = a_token a" "fences_ok st2"
proof -
  have "gateway_step sample_crypto st (OpAcquire now a) (snd (acquire_gateway_client_dispatch_fence st now a))"
    by (rule gateway_step.Acquire)
  then show ok: "fences_ok st2" using step_fences_ok [OF _ assms(1)] assms(2) by simp
  then have okc: "fence_ok (fence_epoch st2) (fence_view st2 (a_client_id a))" by (simp add: fences_ok_def)
  from assms(2) have "exclusive_owner (own_token (ar_owner r)) (own_generation (ar_owner r)) (fence_view st2 (a_client_id a))
      \<and> own_token (ar_owner r) = a_token a"
  proof (cases rule: acquire_Inr)
    case (held f)
    then show ?thesis using okc
      by (auto simp: exclusive_owner_def fence_owner_of_def fence_view_def split: option.splits)
  next
    case (new fo g)
    then show ?thesis using okc by (auto simp: exclusive_owner_def known_owner_def split: option.splits)
  qed
  then show "exclusive_owner (own_token (ar_owner r)) (own_generation (ar_owner r)) (fence_view st2 (a_client_id a))"
    "own_token (ar_owner r) = a_token a" by auto
qed

lemma acquired_owner_known:
  assumes "exclusive_owner tok n (fence_view st2 (a_client_id a))"
    and "acquire_gateway_client_dispatch_fence st now a = (Inr r, st2)"
    and "own_generation (ar_owner r) = n"
  shows "own_token (ar_owner r) = tok"
  using assms(2)
proof (cases rule: acquire_Inr)
  case (held f)
  then show ?thesis using assms(1,3) by (auto simp: exclusive_owner_def fence_owner_of_def fence_view_def)
next
  case (new fo g)
  then show ?thesis using assms(1,3) by (auto simp: exclusive_owner_def known_owner_def)
qed

text \<open>
  (C12) No two owners share a generation: when a client's fence is acquired in a reachable state and acquired
  again after any run of the gateway, equal generations mean equal tokens.
\<close>

theorem acquired_generations_unique:
  assumes "gateway_run cr (default_gateway_state e) ops0 st"
    and "acquire_gateway_client_dispatch_fence st now a = (Inr r, st1)"
    and "gateway_run cr st1 ops st2"
    and "acquire_gateway_client_dispatch_fence st2 now' b = (Inr r', st3)"
    and "a_client_id b = a_client_id a"
    and "own_generation (ar_owner r') = own_generation (ar_owner r)"
  shows "own_token (ar_owner r') = own_token (ar_owner r)"
proof -
  have "fences_ok st" unfolding fences_ok_def using reachable_fences_ok_all [OF assms(1)] by simp
  note excl = acquired_owner_exclusive(1) [OF this assms(2)]
  have run: "gateway_run cr st1 (ops @ [OpAcquire now' b]) st3"
    using gateway_run_snoc [OF assms(3) gateway_step.Acquire [of cr st2 now' b]] assms(4) by simp
  have "exclusive_owner (own_token (ar_owner r)) (own_generation (ar_owner r)) (fence_view st3 (a_client_id a))"
    by (rule run_fence_invariant [where J = "exclusive_owner (own_token (ar_owner r)) (own_generation (ar_owner r))",
          OF run excl]) (rule fence_changes_exclusive)
  from acquired_owner_known [OF this [folded assms(5)] assms(4,6)] show ?thesis .
qed

theorem acquired_generations_unique_witness:
  "\<exists>r r' st1 st3. acquire_gateway_client_dispatch_fence sample_state 0 sample_acquire = (Inr r, st1)
     \<and> acquire_gateway_client_dispatch_fence st1 1 sample_acquire = (Inr r', st3)
     \<and> own_generation (ar_owner r) = 1 \<and> own_token (ar_owner r') = own_token (ar_owner r)"
proof -
  let ?g = "\<lparr>latest_generation = 1, latest_token = Some 11, latest_purpose = Some Suspension,
     latest_supersedes_prepared_suspension = False, retired_generation = 0\<rparr>"
  let ?st1 = "sample_state\<lparr>fence_generations := [''vps-1'' \<mapsto> ?g]\<rparr>"
  let ?r = "\<lparr>ar_client_id = ''vps-1'', ar_owner = \<lparr>own_token = 11, own_epoch = 5, own_generation = 1\<rparr>\<rparr>"
  have one: "acquire_gateway_client_dispatch_fence sample_state 0 sample_acquire = (Inr ?r, ?st1)"
    and two: "acquire_gateway_client_dispatch_fence ?st1 1 sample_acquire = (Inr ?r, ?st1)"
    by (simp_all add: acquire_gateway_client_dispatch_fence_def allocate_owner_def allocate_generation_def
        gateway_sample_defs sample_acquire_def normalize_expired_dispatch_fence_def checked_add_def Let_def)
  have tok: "own_token (ar_owner ?r) = own_token (ar_owner ?r)"
    using acquired_generations_unique [OF gateway_run.Done one [unfolded sample_state_def] gateway_run.Done
        two [unfolded sample_state_def]] by simp
  show ?thesis by (intro exI conjI, rule one, rule two, simp, rule tok)
qed

subsection \<open>Deletion\<close>

text \<open>The instants an operation reads from the clock.\<close>

fun op_times :: "'c gateway_op \<Rightarrow> instant list" where
  "op_times (OpAcquire now _) = [now]"
| "op_times (OpPrepare now _) = [now]"
| "op_times (OpPromote now _) = [now]"
| "op_times (OpClear now _) = [now]"
| "op_times (OpDispatch _ rnd _) = [t_check rnd, t_enqueue rnd]"
| "op_times (OpTerminal now _) = [now]"
| "op_times (OpPrune now) = [now]"
| "op_times _ = []"

lemma normalize_unexpired:
  "fences st client = Some f \<Longrightarrow> f_state f = Prepared t fb \<Longrightarrow> now < t
    \<Longrightarrow> normalize_expired_dispatch_fence (fences st) c now client = Some f"
  by (cases "c = client") (simp_all add: normalize_expired_dispatch_fence_def lease_expired_at_def split: option.split)

definition held_for_deletion :: "fence_owner \<Rightarrow> fence option \<Rightarrow> bool" where
  "held_for_deletion ow fo \<longleftrightarrow> (case fo of None \<Rightarrow> False | Some f \<Rightarrow> fence_owner_of f = ow \<and> f_purpose f = Deletion)"

lemma step_other_client:
  assumes "gateway_step cr st op st'" and "\<And>ev. \<not> permitted op c ev"
  shows "fences st' c = fences st c"
proof -
  have "fst (fence_view st' c) = fences st c"
    by (rule refines_invariant [where I = "\<lambda>s. fst s = fences st c", OF step_refines [OF assms(1)]])
      (use assms(2) in \<open>simp_all add: fence_view_def\<close>)
  then show ?thesis by (simp add: fence_view_def)
qed

lemma dispatch_fences:
  "fences (snd (dispatch_attempt st deadline rnd d)) \<in>
     {fences st, normalize_expired_dispatch_fence (fences st) (cd_client_id d) (t_check rnd)}"
proof -
  have "fences (snd (enqueue_command st rnd d s)) = fences st" for s
    using enqueue_command_view(1) [of st rnd d s] by (auto simp: fence_view_def fun_eq_iff)
  then show ?thesis by (simp add: dispatch_attempt_def Let_def split: option.split)
qed

lemma terminal_fences:
  "fences (snd (dispatch_terminal_control st now tc answer)) \<in>
     {fences st, normalize_expired_dispatch_fence (fences st) (tt_client_id tc) now}"
  by (cases "constructive_terminal_action (tc_action (tt_request tc))";
      simp add: dispatch_terminal_control_def Let_def split: option.split sum.split)

lemma prepare_keeps_deletion:
  assumes "fences st (p_client_id p) = Some f" "f_purpose f = Deletion" "f_state f = Prepared t fb" "now < t"
  shows "held_for_deletion (fence_owner_of f) (fences (snd (prepare_gateway_client_dispatch_fence st now p)) (p_client_id p))"
proof -
  let ?c = "p_client_id p"
  define st1 where "st1 = st\<lparr>fences := normalize_expired_dispatch_fence (fences st) ?c now\<rparr>"
  have f: "fences st1 ?c = Some f" using normalize_unexpired [OF assms(1,3,4)] by (simp add: st1_def)
  have held: "held_for_deletion (fence_owner_of f) (Some f)" using assms(2) by (simp add: held_for_deletion_def)
  have "\<not> replaces_prepared_suspension p g f" "\<not> replaces_recoverable_fence p f" for g
    using assms(2,3) by (auto simp: replaces_prepared_suspension_def replaces_recoverable_fence_def
        requires_durable_recheck_def persistent_def)
  moreover have "fst (fence_view (snd (renew_fence st1 now p f)) ?c) =
      Some (f\<lparr>f_state := Prepared (lease_end now p) (fence_fallback_of f)\<rparr>)"
    using assms(3) by (simp add: renew_view prepared_def)
  ultimately have ex: "held_for_deletion (fence_owner_of f) (fences (snd (prepare_existing st1 now p g f)) ?c)" for g
    using held f assms(2)
    by (auto simp: prepare_existing_def Let_def fence_view_def held_for_deletion_def fence_owner_of_def)
  show ?thesis using ex held f assms(1)
    by (simp add: prepare_gateway_client_dispatch_fence_def Let_def flip: st1_def)
qed

lemma promote_keeps_deletion:
  assumes "fences st (m_client_id m) = Some f" "f_purpose f = Deletion" "f_state f = Prepared t fb" "now < t"
  shows "held_for_deletion (fence_owner_of f) (fences (snd (promote_gateway_client_dispatch_fence st now m)) (m_client_id m))"
proof -
  let ?c = "m_client_id m"
  define st1 where "st1 = st\<lparr>fences := normalize_expired_dispatch_fence (fences st) ?c now\<rparr>"
  have f: "fences st1 ?c = Some f" using normalize_unexpired [OF assms(1,3,4)] by (simp add: st1_def)
  have held: "held_for_deletion (fence_owner_of f) (Some f)" using assms(2) by (simp add: held_for_deletion_def)
  have "fst (fence_view (snd (commit_fence s now m f)) ?c) = Some (f\<lparr>f_state := Persistent\<rparr>)" for s :: "'a gateway_state"
    by (simp add: commit_view)
  then have com: "held_for_deletion (fence_owner_of f) (fences (snd (commit_fence s now m f)) ?c)" for s :: "'a gateway_state"
    using assms(2) by (simp add: fence_view_def held_for_deletion_def fence_owner_of_def)
  show ?thesis using com held f assms(1)
    by (simp add: promote_gateway_client_dispatch_fence_def Let_def flip: st1_def)
qed



subsection \<open>Commands queued before a fence\<close>

definition enqueues_ok :: "'c gateway_state \<Rightarrow> bool" where
  "enqueues_ok st \<longleftrightarrow> distinct (map fst (command_enqueues st))
     \<and> list_all (\<lambda>(_, ms). distinct (map fst ms)) (command_enqueues st)"

definition marked_until :: "'c gateway_state \<Rightarrow> string \<Rightarrow> uuid \<Rightarrow> instant \<Rightarrow> bool" where
  "marked_until st client job t \<longleftrightarrow>
     (case map_of (client_enqueues st client) job of None \<Rightarrow> False | Some m \<Rightarrow> t < mk_expires_at m)"

lemma enqueues_okI:
  "distinct (map fst ce) \<Longrightarrow> (\<And>c ms. (c, ms) \<in> set ce \<Longrightarrow> distinct (map fst ms)) \<Longrightarrow> enqueues_ok (st\<lparr>command_enqueues := ce\<rparr>)"
  by (auto simp: enqueues_ok_def list_all_iff)

lemma enqueues_ok_client: "enqueues_ok st \<Longrightarrow> distinct (map fst (client_enqueues st c))"
  by (auto simp: enqueues_ok_def client_enqueues_def list_all_iff split: option.splits dest: map_of_SomeD)

lemma enqueues_ok_update:
  assumes "enqueues_ok st" and "distinct (map fst ms)"
  shows "enqueues_ok (st\<lparr>command_enqueues := AList.update c ms (command_enqueues st)\<rparr>)"
proof (rule enqueues_okI)
  show "distinct (map fst (AList.update c ms (command_enqueues st)))"
    using assms(1) by (simp add: enqueues_ok_def distinct_update)
  fix c' ms' assume "(c', ms') \<in> set (AList.update c ms (command_enqueues st))"
  then have "map_of (AList.update c ms (command_enqueues st)) c' = Some ms'"
    using \<open>distinct (map fst (AList.update c ms (command_enqueues st)))\<close> by simp
  then show "distinct (map fst ms')" using assms
    by (auto simp: update_conv' enqueues_ok_def list_all_iff split: if_splits dest!: map_of_SomeD)
qed

lemma in_set_deleteD: "x \<in> set (AList.delete k al) \<Longrightarrow> x \<in> set al"
  by (auto simp: AList.delete_eq)

lemma enqueues_ok_delete:
  "enqueues_ok st \<Longrightarrow> enqueues_ok (st\<lparr>command_enqueues := AList.delete c (command_enqueues st)\<rparr>)"
  by (rule enqueues_okI) (auto simp: enqueues_ok_def list_all_iff distinct_delete dest!: in_set_deleteD)

lemma map_of_live_markers:
  "distinct (map fst ms) \<Longrightarrow> map_of (live_markers now ms) j = Some m \<longleftrightarrow> map_of ms j = Some m \<and> now < mk_expires_at m"
  by (auto simp: live_markers_def distinct_map_filter)

lemma distinct_live_markers: "distinct (map fst ms) \<Longrightarrow> distinct (map fst (live_markers now ms))"
  by (simp add: live_markers_def distinct_map_filter)

text \<open>What the listing of a client's queued jobs returns and leaves.\<close>

lemma client_enqueues_update:
  "client_enqueues (st\<lparr>command_enqueues := AList.update client ms (command_enqueues st)\<rparr>) c =
     (if c = client then ms else client_enqueues st c)"
  "client_enqueues (st\<lparr>command_enqueues := AList.delete client (command_enqueues st)\<rparr>) c =
     (if c = client then [] else client_enqueues st c)"
  by (simp_all add: client_enqueues_def update_conv' delete_conv')

lemma protected_spec:
  "fst (protected_enqueued_job_ids st client now) = sort (map fst (live_markers now (client_enqueues st client)))"
  "client_enqueues (snd (protected_enqueued_job_ids st client now)) c =
     (if c = client then live_markers now (client_enqueues st client) else client_enqueues st c)"
  "enqueues_ok st \<Longrightarrow> enqueues_ok (snd (protected_enqueued_job_ids st client now))"
proof -
  show "fst (protected_enqueued_job_ids st client now) = sort (map fst (live_markers now (client_enqueues st client)))"
    by (simp add: protected_enqueued_job_ids_def client_enqueues_def live_markers_def Let_def split: option.split)
  show "client_enqueues (snd (protected_enqueued_job_ids st client now)) c =
      (if c = client then live_markers now (client_enqueues st client) else client_enqueues st c)"
  proof (cases "map_of (command_enqueues st) client")
    case None
    then show ?thesis by (simp add: protected_enqueued_job_ids_def client_enqueues_def live_markers_def)
  next
    case (Some ms)
    then have "client_enqueues st client = ms" by (simp add: client_enqueues_def)
    then show ?thesis using Some
      by (simp add: protected_enqueued_job_ids_def client_enqueues_update Let_def)
  qed
  show "enqueues_ok (snd (protected_enqueued_job_ids st client now))" if ok: "enqueues_ok st"
    using ok enqueues_ok_client [OF ok, of client]
    by (auto simp: protected_enqueued_job_ids_def client_enqueues_def Let_def intro!: enqueues_ok_update enqueues_ok_delete
        distinct_live_markers split: option.splits)
qed

definition keeps_marks :: "instant \<Rightarrow> 'c gateway_state \<Rightarrow> 'c gateway_state \<Rightarrow> bool" where
  "keeps_marks t st st' \<longleftrightarrow> enqueues_ok st \<longrightarrow>
     enqueues_ok st' \<and> (\<forall>c j. marked_until st c j t \<longrightarrow> marked_until st' c j t)"

lemma keeps_marks_same: "command_enqueues st' = command_enqueues st \<Longrightarrow> keeps_marks t st st'"
  by (simp add: keeps_marks_def marked_until_def client_enqueues_def enqueues_ok_def)

lemma keeps_marks_protected:
  assumes "now \<le> t" and "command_enqueues st1 = command_enqueues st"
  shows "keeps_marks t st (snd (protected_enqueued_job_ids st1 client now))"
proof -
  have ok: "enqueues_ok st1 \<longleftrightarrow> enqueues_ok st" and ce: "client_enqueues st1 = client_enqueues st"
    using assms(2) by (auto simp: enqueues_ok_def client_enqueues_def)
  have "marked_until (snd (protected_enqueued_job_ids st1 client now)) c j t"
    if eok: "enqueues_ok st" and mk: "marked_until st c j t" for c j
  proof -
    obtain m where m: "map_of (client_enqueues st c) j = Some m" "t < mk_expires_at m"
      using mk unfolding marked_until_def by (cases "map_of (client_enqueues st c) j") auto
    then have "map_of (live_markers now (client_enqueues st c)) j = Some m"
      using map_of_live_markers [OF enqueues_ok_client [OF eok, of c]] assms(1) by simp
    then show ?thesis using m by (auto simp: marked_until_def protected_spec(2) ce)
  qed
  then show ?thesis using protected_spec(3) [of st1 client now] ok by (auto simp: keeps_marks_def)
qed

lemma keeps_marks_from:
  "keeps_marks t st0 st' \<Longrightarrow> command_enqueues st0 = command_enqueues st \<Longrightarrow> keeps_marks t st st'"
  by (simp add: keeps_marks_def marked_until_def client_enqueues_def enqueues_ok_def)

lemma fence_parts_keep_marks:
  assumes "now \<le> t"
  shows "keeps_marks t st (snd (renew_fence st now p f))" "keeps_marks t st (snd (replace_fence st now p g f))"
    "keeps_marks t st (snd (install_fence st now p))" "keeps_marks t st (snd (commit_fence st now m f))"
  by (auto simp: renew_fence_def replace_fence_def install_fence_def commit_fence_def Let_def case_prod_unfold
      intro!: keeps_marks_protected [OF assms])

lemma prepare_keeps_marks:
  assumes "now \<le> t"
  shows "keeps_marks t st (snd (prepare_gateway_client_dispatch_fence st now p))"
proof -
  define st1 where "st1 = st\<lparr>fences := normalize_expired_dispatch_fence (fences st) (p_client_id p) now\<rparr>"
  note parts = fence_parts_keep_marks [OF assms, of st1]
  have "keeps_marks t st1 (snd (prepare_existing st1 now p g f))" for g f
    using prepare_existing_state [of st1 now p g f] parts keeps_marks_same [of st1 st1 t] by auto
  then have "keeps_marks t st1 (snd (prepare_gateway_client_dispatch_fence st now p))"
    unfolding prepare_state st1_def [symmetric] using parts keeps_marks_same [of st1 st1 t] keeps_marks_same [of st st1 t]
    by (auto split: option.split simp: st1_def)
  then show ?thesis by (rule keeps_marks_from) (simp add: st1_def)
qed

lemma promote_keeps_marks:
  assumes "now \<le> t"
  shows "keeps_marks t st (snd (promote_gateway_client_dispatch_fence st now m))"
proof -
  define st1 where "st1 = (if (case fences st (m_client_id m) of None \<Rightarrow> False | Some f \<Rightarrow> owned_by_promote m f) then st
    else st\<lparr>fences := normalize_expired_dispatch_fence (fences st) (m_client_id m) now\<rparr>)"
  have same: "command_enqueues st1 = command_enqueues st" by (simp add: st1_def)
  have "keeps_marks t st1 (snd (promote_gateway_client_dispatch_fence st now m))"
    unfolding promote_state st1_def [symmetric]
    using fence_parts_keep_marks(4) [OF assms, of st1] keeps_marks_same [of st1 st1 t] keeps_marks_same [of st st1 t] same
    by (auto split: option.split)
  then show ?thesis using same by (rule keeps_marks_from)
qed

lemma prune_keeps_marks:
  assumes "now \<le> t"
  shows "keeps_marks t st (snd (prune_expired_command_enqueues st now))"
proof -
  define ce where "ce = filter (\<lambda>(_, ms). ms \<noteq> []) (map (\<lambda>(c, ms). (c, live_markers now ms)) (command_enqueues st))"
  have snd: "snd (prune_expired_command_enqueues st now) = st\<lparr>command_enqueues := ce\<rparr>"
    by (simp add: prune_expired_command_enqueues_def ce_def Let_def)
  have ok: "enqueues_ok (st\<lparr>command_enqueues := ce\<rparr>)" if "enqueues_ok st"
  proof (rule enqueues_okI)
    have "map fst (map (\<lambda>(c, ms). (c, live_markers now ms)) (command_enqueues st)) = map fst (command_enqueues st)"
      by (simp add: case_prod_unfold)
    then show "distinct (map fst ce)" using that unfolding ce_def enqueues_ok_def
      by (metis (no_types, lifting) distinct_map_filter)
    fix c ms assume "(c, ms) \<in> set ce"
    then show "distinct (map fst ms)" using that
      by (auto simp: ce_def enqueues_ok_def list_all_iff intro: distinct_live_markers)
  qed
  have "marked_until (st\<lparr>command_enqueues := ce\<rparr>) c j t" if eok: "enqueues_ok st" and mk: "marked_until st c j t" for c j
  proof -
    obtain ms m where ms: "map_of (command_enqueues st) c = Some ms" "map_of ms j = Some m" "t < mk_expires_at m"
      using mk unfolding marked_until_def client_enqueues_def
      by (cases "map_of (command_enqueues st) c"; cases "map_of (client_enqueues st c) j") (auto simp: client_enqueues_def)
    have "distinct (map fst ms)" using eok ms(1) by (auto simp: enqueues_ok_def list_all_iff dest!: map_of_SomeD)
    then have live: "map_of (live_markers now ms) j = Some m" using ms assms by (simp add: map_of_live_markers)
    then have "(c, live_markers now ms) \<in> set ce" using ms(1) by (force simp: ce_def dest!: map_of_SomeD)
    then have "map_of ce c = Some (live_markers now ms)"
      using ok [OF eok] by (simp add: enqueues_ok_def)
    then show ?thesis using live ms(3) by (simp add: marked_until_def client_enqueues_def)
  qed
  then show ?thesis using ok unfolding snd keeps_marks_def by blast
qed

definition minute :: nat where
  "minute = 60 * 1000000000"

lemma enqueue_lifetime_minute: "minute \<le> from_secs (enqueue_lifetime st d)"
proof -
  have "(60 :: u64) \<le> enqueue_lifetime st d" unfolding enqueue_lifetime_def
    using clamp_bounds [of "60 :: u64" 10800] by simp
  then have "60 \<le> unat (enqueue_lifetime st d)" by (simp add: word_le_nat_alt)
  then show ?thesis by (simp add: minute_def from_secs_def)
qed

lemma insert_enqueue_ok: "enqueues_ok st \<Longrightarrow> enqueues_ok (insert_enqueue st c j m)"
  unfolding insert_enqueue_def by (rule enqueues_ok_update) (simp_all add: distinct_update enqueues_ok_client)

lemma rollback_ok:
  "enqueues_ok st \<Longrightarrow> enqueues_ok (rollback_failed_command_enqueue st (c, j) m prior)"
  by (auto simp: rollback_failed_command_enqueue_def insert_enqueue_ok Let_def enqueues_ok_client distinct_delete
      intro!: enqueues_ok_update enqueues_ok_delete split: option.split)

lemma enqueue_command_marks:
  assumes "enqueues_ok st" and "t < t_enqueue rnd + minute"
  shows "keeps_marks t st (snd (enqueue_command st rnd d s))"
    "fst (enqueue_command st rnd d s) = DispatchEnqueued \<Longrightarrow>
      marked_until (snd (enqueue_command st rnd d s)) (cd_client_id d) (jr_job_id (cd_request d)) t"
proof -
  define m where "m = \<lparr>mk_generation = new_marker_id rnd, mk_expires_at = t_enqueue rnd + from_secs (enqueue_lifetime st d)\<rparr>"
  have m: "t < mk_expires_at m" using assms(2) enqueue_lifetime_minute [of st d] by (simp add: m_def)
  let ?c = "cd_client_id d" and ?j = "jr_job_id (cd_request d)"
  have ins: "marked_until (insert_enqueue st ?c ?j m) c j t" if "marked_until st c j t \<or> (c = ?c \<and> j = ?j)" for c j
    using that m by (auto simp: marked_until_def client_enqueues_insert update_conv')
  have upd: "marked_until (x\<lparr>sessions := ss\<rparr>) = marked_until x" "enqueues_ok (x\<lparr>sessions := ss\<rparr>) = enqueues_ok x"
    for x :: "'a gateway_state" and ss by (simp_all add: marked_until_def client_enqueues_def enqueues_ok_def fun_eq_iff)
  have cmd: "enqueue_command st rnd d s = (case try_send s (Command (cd_request d) (cd_payload_hash d)) of
        Inl e \<Rightarrow> (DispatchFailed (send_error ?c e),
          rollback_failed_command_enqueue (insert_enqueue st ?c ?j m) (?c, ?j) m (map_of (client_enqueues st ?c) ?j))
      | Inr s' \<Rightarrow> (DispatchEnqueued, (insert_enqueue st ?c ?j m)\<lparr>sessions := (sessions (insert_enqueue st ?c ?j m))(?c \<mapsto> s')\<rparr>))"
    by (simp only: enqueue_command_def Let_def m_def)
  have roll: "marked_until (rollback_failed_command_enqueue (insert_enqueue st ?c ?j m) (?c, ?j) m
      (map_of (client_enqueues st ?c) ?j)) c j t = marked_until st c j t" for c j
    by (simp add: marked_until_def client_enqueues_rollback)
  show "keeps_marks t st (snd (enqueue_command st rnd d s))"
    unfolding cmd keeps_marks_def using ins
    by (auto simp: upd roll insert_enqueue_ok rollback_ok split: sum.splits)
  show "marked_until (snd (enqueue_command st rnd d s)) ?c ?j t"
    if "fst (enqueue_command st rnd d s) = DispatchEnqueued"
    using that ins unfolding cmd by (auto simp: upd split: sum.splits)
qed

lemma dispatch_marks:
  assumes "enqueues_ok st" and "t < t_enqueue rnd + minute"
  shows "keeps_marks t st (snd (dispatch_attempt st deadline rnd d))"
    "fst (dispatch_attempt st deadline rnd d) = DispatchEnqueued \<Longrightarrow>
      marked_until (snd (dispatch_attempt st deadline rnd d)) (cd_client_id d) (jr_job_id (cd_request d)) t"
proof -
  have "snd (dispatch_attempt st deadline rnd d) \<in>
      {st, st\<lparr>fences := normalize_expired_dispatch_fence (fences st) (cd_client_id d) (t_check rnd)\<rparr>}
      \<or> (\<exists>s. dispatch_attempt st deadline rnd d = enqueue_command st rnd d s)"
    by (auto simp: dispatch_attempt_def Let_def split: option.split)
  then show "keeps_marks t st (snd (dispatch_attempt st deadline rnd d))"
    using enqueue_command_marks(1) [OF assms] by (auto intro: keeps_marks_same)
  show "marked_until (snd (dispatch_attempt st deadline rnd d)) (cd_client_id d) (jr_job_id (cd_request d)) t"
    if "fst (dispatch_attempt st deadline rnd d) = DispatchEnqueued"
  proof -
    obtain s where "dispatch_attempt st deadline rnd d = enqueue_command st rnd d s"
      using \<open>fst _ = _\<close> by (auto simp: dispatch_attempt_def Let_def split: option.splits if_splits)
    then show ?thesis using that enqueue_command_marks(2) [OF assms] by simp
  qed
qed

text \<open>A run within a window of the clock that is shorter than a minute.\<close>

definition within :: "instant \<Rightarrow> instant \<Rightarrow> 'c gateway_op \<Rightarrow> bool" where
  "within t0 t op \<longleftrightarrow> list_all (\<lambda>now. t0 \<le> now \<and> now \<le> t) (op_times op)"

lemma step_keeps_marks:
  assumes "gateway_step cr st op st'" and "within t0 t op" and "t < t0 + minute" and "enqueues_ok st"
  shows "keeps_marks t st st'"
  using assms(1)
proof cases
  case (Dispatch deadline rnd d)
  then show ?thesis using assms by (auto simp: within_def intro!: dispatch_marks(1))
next
  case (Acquire now a)
  then show ?thesis using acquire_cases [of st now a] by (auto intro!: keeps_marks_same)
next
  case (Clear now c)
  then show ?thesis by (auto simp: clear_state Let_def intro!: keeps_marks_same split: option.splits)
next
  case (Terminal now tc answer)
  then show ?thesis
    by (cases "constructive_terminal_action (tc_action (tt_request tc))")
      (auto simp: dispatch_terminal_control_def Let_def intro!: keeps_marks_same split: option.splits sum.splits)
next
  case (Prepare now p)
  then show ?thesis using assms(2) by (auto simp: within_def intro!: prepare_keeps_marks)
next
  case (Promote now m)
  then show ?thesis using assms(2) by (auto simp: within_def intro!: promote_keeps_marks)
next
  case (Prune now)
  then show ?thesis using assms(2) by (auto simp: within_def intro!: prune_keeps_marks)
qed (use assms(2) in
    \<open>auto simp: cancel_gateway_command_def disconnect_gateway_session_def verify_gateway_privilege_def
      set_runtime_timing_def Let_def case_prod_unfold intro!: keeps_marks_same split: option.splits sum.splits\<close>)

lemma run_keeps_marks:
  assumes "gateway_run cr st ops st'" and "list_all (within t0 t) ops" and "t < t0 + minute"
    and "enqueues_ok st" and "marked_until st c j t"
  shows "enqueues_ok st'" "marked_until st' c j t"
proof -
  have "enqueues_ok st' \<and> marked_until st' c j t"
  proof (rule gateway_run_invariant [where I = "\<lambda>s. enqueues_ok s \<and> marked_until s c j t", OF assms(1)])
    fix op s s'
    assume "op \<in> set ops" "gateway_step cr s op s'" "enqueues_ok s \<and> marked_until s c j t"
    then show "enqueues_ok s' \<and> marked_until s' c j t"
      using step_keeps_marks [of cr s op s' t0 t] assms(2,3) by (auto simp: list_all_iff keeps_marks_def)
  qed (use assms(4,5) in simp)
  then show "enqueues_ok st'" "marked_until st' c j t" by auto
qed

lemma marked_reported:
  assumes "enqueues_ok st" and "marked_until st c j t" and "now \<le> t"
  shows "j \<in> set (fst (protected_enqueued_job_ids st c now))"
proof -
  obtain m where "map_of (client_enqueues st c) j = Some m" "t < mk_expires_at m"
    using assms(2) unfolding marked_until_def by (cases "map_of (client_enqueues st c) j") auto
  then have "map_of (live_markers now (client_enqueues st c)) j = Some m"
    using map_of_live_markers [OF enqueues_ok_client [OF assms(1), of c]] assms(3) by simp
  then show ?thesis by (force simp: protected_spec(1) dest!: map_of_SomeD)
qed

abbreviation queued_jobs :: "'c gateway_state \<Rightarrow> string \<Rightarrow> instant \<Rightarrow> uuid list" where
  "queued_jobs st client now \<equiv> sort (map fst (live_markers now (client_enqueues st client)))"

lemma client_enqueues_fields [simp]:
  "client_enqueues (st\<lparr>fences := fs\<rparr>) = client_enqueues st"
  "client_enqueues (retire_client_dispatch_fence_generation st c e n) = client_enqueues st"
  by (simp_all add: client_enqueues_def fun_eq_iff)

lemma parts_report:
  "r_enqueued_job_ids (fst (renew_fence st now p f)) = queued_jobs st (p_client_id p) now"
  "r_enqueued_job_ids (fst (replace_fence st now p g f)) = queued_jobs st (p_client_id p) now"
  "r_enqueued_job_ids (fst (install_fence st now p)) = queued_jobs st (p_client_id p) now"
  "r_enqueued_job_ids (fst (commit_fence st now m f)) = queued_jobs st (m_client_id m) now"
  by (simp_all add: renew_fence_def replace_fence_def install_fence_def commit_fence_def fence_answer_def
      Let_def case_prod_unfold protected_spec(1))

lemma prepare_reports:
  "r_accepted (fst (prepare_gateway_client_dispatch_fence st now p)) \<Longrightarrow>
     r_enqueued_job_ids (fst (prepare_gateway_client_dispatch_fence st now p)) = queued_jobs st (p_client_id p) now"
  by (auto simp: prepare_gateway_client_dispatch_fence_def prepare_existing_def Let_def parts_report fence_answer_def
      split: option.splits if_splits dest: normalize_Some)

lemma promote_reports:
  "r_accepted (fst (promote_gateway_client_dispatch_fence st now m)) \<Longrightarrow>
     r_enqueued_job_ids (fst (promote_gateway_client_dispatch_fence st now m)) = queued_jobs st (m_client_id m) now"
  by (auto simp: promote_gateway_client_dispatch_fence_def Let_def parts_report fence_answer_def
      split: option.splits if_splits dest: normalize_Some)



end
