(* ===== verification/Gateway_Http.thy ===== *)
theory Gateway_Http
  imports Gateway_Fences
begin

section \<open>The gateway's control endpoint\<close>

text \<open>
  The HTTP side of \<open>gateway/src/transport/control.rs\<close>: reading a request off a connection, the
  bearer-token check, the routes and the status of every answer. A connection is the list of blocks
  its reads return; the empty block is the end of the stream and the end of the list is a read that
  times out. The JSON decoders, the clock, the agents' answers and the text of a UUID are the fields
  of \<open>control_env\<close>. The properties: what is read does not depend on how the network splits it, and a
  connection changes the gateway only through the operations of \<open>Gateway_Fences\<close> and only with the
  configured token.
\<close>

abbreviation crlf :: string where
  "crlf \<equiv> [CHR 0x0D, CHR 0x0A]"

subsection \<open>Reading a request\<close>

record http_request =
  rq_method :: string
  rq_path :: string
  rq_headers :: "(string \<times> string) list"
  rq_body :: string

text \<open>One read into a buffer of the given capacity.\<close>

fun sock_read :: "nat \<Rightarrow> string list \<Rightarrow> (string \<times> string list) option" where
  "sock_read cap [] = None"
| "sock_read cap (b # bs) = Some (take cap b, if length b \<le> cap then bs else drop cap b # bs)"

fun find_header_end :: "string \<Rightarrow> nat option" where
  "find_header_end [] = None"
| "find_header_end (c # cs) =
     (if take 4 (c # cs) = crlf @ crlf then Some 0 else map_option Suc (find_header_end cs))"

definition pending_bytes :: "string list \<Rightarrow> nat" where
  "pending_bytes blocks = length blocks + sum_list (map length blocks)"

lemma sock_read_progress:
  "sock_read cap bs = Some (chunk, bs') \<Longrightarrow> chunk \<noteq> [] \<Longrightarrow> pending_bytes bs' < pending_bytes bs"
  by (cases bs) (auto simp: pending_bytes_def split: if_splits)

function read_header :: "string \<Rightarrow> string list \<Rightarrow> string + nat \<times> string \<times> string list" where
  "read_header buffer blocks =
     (case sock_read 1024 blocks of
        None \<Rightarrow> Inl ''HTTP header read timed out''
      | Some (chunk, blocks') \<Rightarrow>
          if chunk = [] then Inl ''connection closed before HTTP headers''
          else let buffer = buffer @ chunk in
            (case find_header_end buffer of
               Some position \<Rightarrow> Inr (position, buffer, blocks')
             | None \<Rightarrow>
                 if length buffer > 64 * 1024 then Inl ''HTTP headers too large''
                 else read_header buffer blocks'))"
  by pat_completeness auto
termination by (relation "measure (pending_bytes \<circ> snd)") (auto dest: sock_read_progress)

function read_body :: "nat \<Rightarrow> string \<Rightarrow> string list \<Rightarrow> string + string" where
  "read_body content_length body blocks =
     (if length body < content_length then
        (case sock_read (content_length - length body) blocks of
           None \<Rightarrow> Inl ''HTTP body read timed out''
         | Some (chunk, blocks') \<Rightarrow>
             if chunk = [] then Inl ''connection closed before HTTP body''
             else read_body content_length (body @ chunk) blocks')
      else Inr body)"
  by pat_completeness auto
termination by (relation "measure (pending_bytes \<circ> snd \<circ> snd)") (auto dest: sock_read_progress)

declare read_header.simps [simp del] read_body.simps [simp del]

definition parse_http_head :: "string \<Rightarrow> string + http_request \<times> nat" where
  "parse_http_head header_bytes =
     and_then (ensure (valid_utf8 header_bytes) ''HTTP headers are not UTF-8'') (\<lambda>_.
       let lines = split_str crlf header_bytes;
           request_parts = split_whitespace (hd lines);
           method = (case request_parts of [] \<Rightarrow> [] | p # _ \<Rightarrow> p);
           path = (case request_parts of _ # p # _ \<Rightarrow> p | _ \<Rightarrow> []);
           headers = map (\<lambda>(name, value). (to_ascii_lowercase (trim name), trim value))
             (List.map_filter (split_once (CHR '':'')) (tl lines));
           content_length = (case find (\<lambda>(name, _). name = ''content-length'') headers of
               None \<Rightarrow> 0
             | Some (_, value) \<Rightarrow> (case parse_unsigned usize_max value of None \<Rightarrow> 0 | Some n \<Rightarrow> n))
       in and_then (ensure (content_length \<le> 16 * 1024 * 1024) ''HTTP body too large'') (\<lambda>_.
            Inr (\<lparr>rq_method = method, rq_path = path, rq_headers = headers, rq_body = []\<rparr>, content_length)))"

definition read_http_request :: "string list \<Rightarrow> string + http_request" where
  "read_http_request blocks =
     and_then (read_header [] blocks) (\<lambda>(header_end, buffer, blocks).
     and_then (parse_http_head (take header_end buffer)) (\<lambda>(request, content_length).
     and_then (read_body content_length (drop (header_end + 4) buffer) blocks) (\<lambda>body.
     Inr (request\<lparr>rq_body := take content_length body\<rparr>))))"

subsection \<open>Authorization\<close>

definition authorized_internal_request :: "(string \<times> string) list \<Rightarrow> string option \<Rightarrow> bool" where
  "authorized_internal_request headers internal_token =
     (case internal_token of
        None \<Rightarrow> False
      | Some expected \<Rightarrow>
          (case find (\<lambda>(name, _). name = ''authorization'') headers of
             None \<Rightarrow> False
           | Some (_, value) \<Rightarrow>
               (case strip_prefix value ''Bearer '' of
                  None \<Rightarrow> False
                | Some provided \<Rightarrow> constant_time_eq (as_bytes provided) (as_bytes expected))))"

subsection \<open>Answers\<close>

record ('c, 'a) control_env =
  dec_command :: "string \<Rightarrow> string + 'c command_dispatch"
  dec_cancel :: "string \<Rightarrow> string + command_cancel"
  dec_disconnect :: "string \<Rightarrow> string + session_disconnect"
  dec_disconnect_batch :: "string \<Rightarrow> string + session_disconnect list"
  dec_acquire :: "string \<Rightarrow> string + fence_acquire"
  dec_prepare_batch :: "string \<Rightarrow> string + fence_prepare list"
  dec_promote_batch :: "string \<Rightarrow> string + fence_promote list"
  dec_clear_batch :: "string \<Rightarrow> string + fence_clear list"
  dec_terminal :: "string \<Rightarrow> string + terminal_control"
  dec_verify_batch :: "string \<Rightarrow> string + (string \<times> privilege_verification) list"
  dec_verify :: "string \<Rightarrow> string + privilege_verification"
  env_clock :: "nat \<Rightarrow> instant"
  env_unix_now :: u64
  env_rounds :: "(('c gateway_state \<Rightarrow> 'c gateway_state) \<times> dispatch_round) list"
  env_command_answer :: "command_dispatch_result awaited"
  env_cancel_answer :: "command_cancel_result awaited"
  env_terminal_answer :: "'a awaited"
  env_crypto :: crypto
  env_show_uuid :: "uuid \<Rightarrow> string"

datatype 'a http_reply =
    ErrorReply string
  | CommandReply command_dispatch_result
  | CancelReply command_cancel_result
  | DisconnectReply session_disconnect_result
  | DisconnectBatchReply "session_disconnect_result list"
  | AcquireReply fence_acquire_result
  | FenceBatchReply "fence_result list"
  | TerminalReply string 'a
  | MetricsReply
  | VerifyReply privilege_verification_result
  | VerifyBatchReply "privilege_batch_item_result list"

text \<open>A connection fails before an answer, is answered, or still waits for its agent to come back.\<close>

datatype 'a http_outcome = ConnectionFailed string | Answered string "'a http_reply" | StillWaiting

definition error_message :: "(uuid \<Rightarrow> string) \<Rightarrow> gateway_error \<Rightarrow> string" where
  "error_message show_uuid e =
     (case e of
        GatewayEpochRecheckRequired epoch \<Rightarrow> ''agent_gateway_epoch_recheck_required:'' @ show_uuid epoch
      | LifecycleRecheckRequired owner \<Rightarrow> ''agent_lifecycle_recheck_required:'' @ show_uuid (own_epoch owner)
          @ '':'' @ show_nat (unat (own_generation owner)) @ '':'' @ show_uuid (own_token owner)
      | AgentSuspended client \<Rightarrow> ''agent_suspended:'' @ client
      | LifecycleRecheckStale client \<Rightarrow> ''agent_lifecycle_recheck_stale:'' @ client
      | LifecycleFenced client \<Rightarrow> ''agent_lifecycle_fenced:'' @ client
      | IncarnationMismatch client expected actual \<Rightarrow> ''agent_incarnation_mismatch:'' @ client
          @ '':expected='' @ show_uuid expected @ '':actual='' @ show_uuid actual
      | SessionQueueFull client \<Rightarrow> ''agent_session_command_queue_full:'' @ client
      | SessionClosed client \<Rightarrow> ''agent_session_closed:'' @ client
      | AgentNotOnline client \<Rightarrow> ''agent_not_online:'' @ client
      | GatewayMessage message \<Rightarrow> message)"

definition gateway_error_status :: "string \<Rightarrow> string" where
  "gateway_error_status message =
     (if contains_str message ''agent_not_online'' then ''404 Not Found''
      else if contains_str message ''agent_suspended''
        \<or> contains_str message ''agent_lifecycle_fenced''
        \<or> contains_str message ''agent_lifecycle_recheck_required''
        \<or> contains_str message ''agent_lifecycle_recheck_stale''
        \<or> contains_str message ''agent_gateway_epoch_recheck_required''
      then ''409 Conflict''
      else if contains_str message ''agent_session_command_queue_full'' then ''503 Service Unavailable''
      else if contains_str message ''timed out'' then ''504 Gateway Timeout''
      else ''500 Internal Server Error'')"

definition write_gateway_error :: "(uuid \<Rightarrow> string) \<Rightarrow> gateway_error \<Rightarrow> 'a http_outcome" where
  "write_gateway_error show_uuid e =
     (let message = error_message show_uuid e in Answered (gateway_error_status message) (ErrorReply message))"

definition privilege_error_status :: "string \<Rightarrow> string" where
  "privilege_error_status message =
     (if contains_str message ''not configured''
        \<or> contains_str message (debug_assertion_error ReplayProtectionSaturated)
      then ''503 Service Unavailable''
      else if contains_str message (debug_assertion_error Replay) then ''409 Conflict''
      else if contains_str message ''privilege_assertion_'' then ''403 Forbidden''
      else ''500 Internal Server Error'')"

definition write_privilege_error :: "string \<Rightarrow> 'a http_outcome" where
  "write_privilege_error message = Answered (privilege_error_status message) (ErrorReply message)"

text \<open>The bytes of an answer whose JSON text is given.\<close>

definition write_http_json :: "string \<Rightarrow> string \<Rightarrow> string" where
  "write_http_json status body =
     ''HTTP/1.1 '' @ status @ crlf @ ''Connection: close'' @ crlf @ ''Content-Type: application/json'' @ crlf
     @ ''Content-Length: '' @ show_nat (length body) @ crlf @ crlf @ body"

subsection \<open>Routes\<close>

text \<open>An undecodable body is answered at once; a decoded one goes to its operation.\<close>

definition with_body ::
    "string \<Rightarrow> string + 'r \<Rightarrow> 's \<Rightarrow> ('r \<Rightarrow> 'a http_outcome \<times> 's) \<Rightarrow> 'a http_outcome \<times> 's" where
  "with_body prefix decoded st serve =
     (case decoded of
        Inl e \<Rightarrow> (Answered ''400 Bad Request'' (ErrorReply (prefix @ '':'' @ e)), st)
      | Inr r \<Rightarrow> serve r)"

definition answer_with :: "('e \<Rightarrow> 'a http_outcome) \<Rightarrow> ('r \<Rightarrow> 'a http_reply) \<Rightarrow> 'e + 'r \<Rightarrow> 'a http_outcome" where
  "answer_with on_error reply r = (case r of Inl e \<Rightarrow> on_error e | Inr x \<Rightarrow> Answered ''200 OK'' (reply x))"

abbreviation bad_request :: "string \<Rightarrow> 'a http_outcome" where
  "bad_request e \<equiv> Answered ''400 Bad Request'' (ErrorReply e)"

text \<open>The items of a batch with the instants at which they are reached.\<close>

definition timed :: "(nat \<Rightarrow> instant) \<Rightarrow> 'i list \<Rightarrow> (instant \<times> 'i) list" where
  "timed clock items = zip (map clock [0..<length items]) items"

definition dispatch_and_wait :: "('c, 'a) control_env \<Rightarrow> 'c gateway_state \<Rightarrow> 'c command_dispatch \<Rightarrow> 'a http_outcome \<times> 'c gateway_state" where
  "dispatch_and_wait env st dispatch =
     (case dispatch_gateway_command st (env_rounds env) dispatch of
        (DispatchFailed e, st) \<Rightarrow> (write_gateway_error (env_show_uuid env) e, st)
      | (DispatchAgain, st) \<Rightarrow> (StillWaiting, st)
      | (DispatchEnqueued, st) \<Rightarrow>
          (answer_with (write_gateway_error (env_show_uuid env)) CommandReply
             (await_command_ack (env_command_answer env)), st))"

definition serve_command :: "('c, 'a) control_env \<Rightarrow> 'c gateway_state \<Rightarrow> string \<Rightarrow> 'a http_outcome \<times> 'c gateway_state" where
  "serve_command env st body =
     with_body ''invalid_command_dispatch'' (dec_command env body) st (dispatch_and_wait env st)"

definition serve_cancel :: "('c, 'a) control_env \<Rightarrow> 'c gateway_state \<Rightarrow> string \<Rightarrow> 'a http_outcome \<times> 'c gateway_state" where
  "serve_cancel env st body =
     with_body ''invalid_command_cancel'' (dec_cancel env body) st
       (\<lambda>cancel. apfst (answer_with (write_gateway_error (env_show_uuid env)) CancelReply)
          (cancel_gateway_command st cancel (env_cancel_answer env)))"

definition serve_disconnect :: "('c, 'a) control_env \<Rightarrow> 'c gateway_state \<Rightarrow> string \<Rightarrow> 'a http_outcome \<times> 'c gateway_state" where
  "serve_disconnect env st body =
     with_body ''invalid_session_disconnect'' (dec_disconnect env body) st
       (\<lambda>disconnect. apfst (\<lambda>r. Answered ''200 OK'' (DisconnectReply (fst r))) (disconnect_gateway_session st disconnect))"

definition serve_disconnect_batch :: "('c, 'a) control_env \<Rightarrow> 'c gateway_state \<Rightarrow> string \<Rightarrow> 'a http_outcome \<times> 'c gateway_state" where
  "serve_disconnect_batch env st body =
     with_body ''invalid_session_disconnect_batch'' (dec_disconnect_batch env body) st
       (\<lambda>batch. apfst (answer_with bad_request (DisconnectBatchReply \<circ> map fst))
          (disconnect_gateway_sessions st (timed (env_clock env) batch)))"

definition serve_acquire :: "('c, 'a) control_env \<Rightarrow> 'c gateway_state \<Rightarrow> string \<Rightarrow> 'a http_outcome \<times> 'c gateway_state" where
  "serve_acquire env st body =
     with_body ''invalid_dispatch_fence_acquire'' (dec_acquire env body) st
       (\<lambda>acquire. apfst (answer_with (write_gateway_error (env_show_uuid env)) AcquireReply)
          (acquire_gateway_client_dispatch_fence st (env_clock env 0) acquire))"

definition serve_prepare_batch :: "('c, 'a) control_env \<Rightarrow> 'c gateway_state \<Rightarrow> string \<Rightarrow> 'a http_outcome \<times> 'c gateway_state" where
  "serve_prepare_batch env st body =
     with_body ''invalid_dispatch_fence_prepare_batch'' (dec_prepare_batch env body) st
       (\<lambda>batch. apfst (answer_with bad_request FenceBatchReply)
          (prepare_gateway_client_dispatch_fence_batch st (timed (env_clock env) batch)))"

definition serve_promote_batch :: "('c, 'a) control_env \<Rightarrow> 'c gateway_state \<Rightarrow> string \<Rightarrow> 'a http_outcome \<times> 'c gateway_state" where
  "serve_promote_batch env st body =
     with_body ''invalid_dispatch_fence_promote_batch'' (dec_promote_batch env body) st
       (\<lambda>batch. apfst (answer_with bad_request FenceBatchReply)
          (promote_gateway_client_dispatch_fence_batch st (timed (env_clock env) batch)))"

definition serve_clear_batch :: "('c, 'a) control_env \<Rightarrow> 'c gateway_state \<Rightarrow> string \<Rightarrow> 'a http_outcome \<times> 'c gateway_state" where
  "serve_clear_batch env st body =
     with_body ''invalid_dispatch_fence_clear_batch'' (dec_clear_batch env body) st
       (\<lambda>batch. apfst (answer_with bad_request FenceBatchReply)
          (clear_gateway_client_dispatch_fence_batch st (timed (env_clock env) batch)))"

definition serve_terminal :: "('c, 'a) control_env \<Rightarrow> 'c gateway_state \<Rightarrow> string \<Rightarrow> 'a http_outcome \<times> 'c gateway_state" where
  "serve_terminal env st body =
     with_body ''invalid_terminal_control'' (dec_terminal env body) st
       (\<lambda>control. apfst (answer_with (write_gateway_error (env_show_uuid env)) (\<lambda>(client, ack). TerminalReply client ack))
          (dispatch_terminal_control st (env_clock env 0) control (env_terminal_answer env)))"

definition serve_verify_batch :: "('c, 'a) control_env \<Rightarrow> string option \<Rightarrow> 'c gateway_state \<Rightarrow> string \<Rightarrow> 'a http_outcome \<times> 'c gateway_state" where
  "serve_verify_batch env verifier_key_hex st body =
     with_body ''invalid_privilege_verification_batch'' (dec_verify_batch env body) st
       (\<lambda>batch. apfst (answer_with write_privilege_error VerifyBatchReply)
          (verify_gateway_privileges (env_crypto env) st verifier_key_hex (env_unix_now env) batch))"

definition serve_verify :: "('c, 'a) control_env \<Rightarrow> string option \<Rightarrow> 'c gateway_state \<Rightarrow> string \<Rightarrow> 'a http_outcome \<times> 'c gateway_state" where
  "serve_verify env verifier_key_hex st body =
     with_body ''invalid_privilege_verification'' (dec_verify env body) st
       (\<lambda>verification. apfst (answer_with write_privilege_error VerifyReply)
          (verify_gateway_privilege (env_crypto env) st verifier_key_hex (env_unix_now env) verification))"

definition serve_route ::
    "('c, 'a) control_env \<Rightarrow> string option \<Rightarrow> 'c gateway_state \<Rightarrow> string \<Rightarrow> string \<Rightarrow> 'a http_outcome \<times> 'c gateway_state" where
  "serve_route env verifier_key_hex st path body =
     (if path = ''/internal/v1/gateway/command'' then serve_command env st body
      else if path = ''/internal/v1/gateway/command/cancel'' then serve_cancel env st body
      else if path = ''/internal/v1/gateway/session/disconnect'' then serve_disconnect env st body
      else if path = ''/internal/v1/gateway/session/disconnect/batch'' then serve_disconnect_batch env st body
      else if path = ''/internal/v1/gateway/client/dispatch-fence/acquire'' then serve_acquire env st body
      else if path = ''/internal/v1/gateway/client/dispatch-fence/batch/prepare'' then serve_prepare_batch env st body
      else if path = ''/internal/v1/gateway/client/dispatch-fence/batch/promote'' then serve_promote_batch env st body
      else if path = ''/internal/v1/gateway/client/dispatch-fence/batch/clear'' then serve_clear_batch env st body
      else if path = ''/internal/v1/gateway/terminal/control'' then serve_terminal env st body
      else if path = ''/internal/v1/gateway/metrics'' then (Answered ''200 OK'' MetricsReply, st)
      else if path = ''/internal/v1/gateway/privilege/verify/batch'' then serve_verify_batch env verifier_key_hex st body
      else serve_verify env verifier_key_hex st body)"

lemmas serve_defs = serve_command_def serve_cancel_def serve_disconnect_def serve_disconnect_batch_def
  serve_acquire_def serve_prepare_batch_def serve_promote_batch_def serve_clear_batch_def serve_terminal_def
  serve_verify_batch_def serve_verify_def

definition control_paths :: "string list" where
  "control_paths =
     [''/internal/v1/gateway/command'', ''/internal/v1/gateway/command/cancel'',
      ''/internal/v1/gateway/session/disconnect'', ''/internal/v1/gateway/session/disconnect/batch'',
      ''/internal/v1/gateway/client/dispatch-fence/acquire'',
      ''/internal/v1/gateway/client/dispatch-fence/batch/prepare'',
      ''/internal/v1/gateway/client/dispatch-fence/batch/promote'',
      ''/internal/v1/gateway/client/dispatch-fence/batch/clear'',
      ''/internal/v1/gateway/terminal/control'', ''/internal/v1/gateway/metrics'',
      ''/internal/v1/gateway/privilege/verify'', ''/internal/v1/gateway/privilege/verify/batch'']"

definition handle_control_connection ::
    "('c, 'a) control_env \<Rightarrow> string option \<Rightarrow> string option \<Rightarrow> 'c gateway_state \<Rightarrow> string list
      \<Rightarrow> 'a http_outcome \<times> 'c gateway_state" where
  "handle_control_connection env internal_token verifier_key_hex st blocks =
     (case read_http_request blocks of
        Inl e \<Rightarrow> (ConnectionFailed e, st)
      | Inr request \<Rightarrow>
          if rq_method request \<noteq> ''POST'' \<or> rq_path request \<notin> set control_paths
          then (Answered ''404 Not Found'' (ErrorReply ''not_found''), st)
          else if \<not> authorized_internal_request (rq_headers request) internal_token
          then (Answered ''401 Unauthorized'' (ErrorReply ''invalid_internal_token''), st)
          else serve_route env verifier_key_hex st (rq_path request) (rq_body request))"

definition control_socket_path :: "string \<Rightarrow> string option" where
  "control_socket_path value =
     (let value = trim value in
      case strip_prefix value ''unix://'' of
        Some path \<Rightarrow> Some path
      | None \<Rightarrow> strip_prefix value ''unix:'')"

subsection \<open>Framing\<close>

lemma sock_read_Some:
  "sock_read cap bs = Some (chunk, bs') \<Longrightarrow>
    concat bs = chunk @ concat bs' \<and> length chunk \<le> cap
    \<and> ([] \<notin> set bs \<longrightarrow> [] \<notin> set bs' \<and> (0 < cap \<longrightarrow> chunk \<noteq> []))"
  by (cases bs) (auto split: if_splits simp flip: append_assoc)

lemma sock_read_None: "sock_read cap bs = None \<longleftrightarrow> bs = []"
  by (cases bs) auto

lemma find_header_end_append: "find_header_end s = Some i \<Longrightarrow> find_header_end (s @ t) = Some i"
proof (induction s arbitrary: i)
  case (Cons c cs)
  have keep: "take 4 (c # cs @ t) = crlf @ crlf" if crlfs: "take 4 (c # cs) = crlf @ crlf"
  proof -
    have "length (take 4 (c # cs)) = 4" by (subst crlfs) simp
    then show ?thesis using crlfs by simp
  qed
  show ?case
  proof (cases "take 4 (c # cs) = crlf @ crlf")
    case True
    then show ?thesis using Cons.prems keep by simp
  next
    case False
    then obtain j where j: "find_header_end cs = Some j" "i = Suc j" using Cons.prems by auto
    have "take 4 (c # cs @ t) \<noteq> crlf @ crlf"
    proof (cases "length cs < 3")
      case True
      then have "find_header_end cs = None" by (auto simp: less_Suc_eq numeral_3_eq_3 length_Suc_conv)
      then show ?thesis using j by simp
    next
      case False
      then have "take 4 (c # cs @ t) = take 4 (c # cs)" by simp
      then show ?thesis using \<open>take 4 (c # cs) \<noteq> crlf @ crlf\<close> by metis
    qed
    then show ?thesis using Cons.IH [OF j(1)] j(2) by simp
  qed
qed simp

lemma find_header_end_bound: "find_header_end s = Some i \<Longrightarrow> i + 4 \<le> length s"
proof (induction s arbitrary: i)
  case (Cons c cs)
  have "4 \<le> length (c # cs)" if "take 4 (c # cs) = crlf @ crlf"
    using arg_cong [OF that, of length] by simp
  then show ?case using Cons by (auto split: if_splits)
qed simp

lemma find_header_end_prefix:
  "find_header_end (s @ t) = Some i \<Longrightarrow> i + 4 \<le> length s \<Longrightarrow> find_header_end s = Some i"
proof (induction s arbitrary: i)
  case (Cons c cs)
  have long: "take 4 (c # cs @ t) = take 4 (c # cs)" if "3 \<le> length cs"
    using that by simp
  show ?case
  proof (cases "take 4 (c # cs @ t) = crlf @ crlf")
    case True
    then show ?thesis using Cons.prems long by auto
  next
    case False
    then obtain j where "find_header_end (cs @ t) = Some j" "i = Suc j" using Cons.prems by auto
    then show ?thesis using Cons.IH [of j] Cons.prems(2) False long by auto
  qed
qed simp

text \<open>The header loop finds the first blank line of the stream, wherever the blocks end.\<close>

lemma read_header_finds:
  assumes "find_header_end (buffer @ concat blocks) = Some i" and "i + 4 \<le> 64 * 1024"
    and "[] \<notin> set blocks" and "find_header_end buffer = None"
  shows "\<exists>buffer' blocks'. read_header buffer blocks = Inr (i, buffer', blocks')
    \<and> buffer' @ concat blocks' = buffer @ concat blocks \<and> [] \<notin> set blocks'"
  using assms
proof (induction buffer blocks rule: read_header.induct)
  case (1 buffer blocks)
  have "blocks \<noteq> []" using "1.prems"(1,4) by auto
  then obtain chunk blocks' where r: "sock_read 1024 blocks = Some (chunk, blocks')" by (cases blocks) auto
  note parts = sock_read_Some [OF r]
  have ne: "chunk \<noteq> []" "[] \<notin> set blocks'" using parts "1.prems"(3) by auto
  show ?case
  proof (cases "find_header_end (buffer @ chunk)")
    case None
    have whole: "find_header_end ((buffer @ chunk) @ concat blocks') = Some i"
      using "1.prems"(1) parts by simp
    have short: "\<not> length (buffer @ chunk) > 64 * 1024"
      using find_header_end_prefix [OF whole] None "1.prems"(2) by auto
    have "\<exists>buffer' blocks''. read_header (buffer @ chunk) blocks' = Inr (i, buffer', blocks'')
      \<and> buffer' @ concat blocks'' = (buffer @ chunk) @ concat blocks' \<and> [] \<notin> set blocks''"
      by (rule "1.IH" [OF r refl ne(1) refl None short whole "1.prems"(2) ne(2) None])
    then show ?thesis using r ne None short parts by (subst read_header.simps) (simp add: Let_def)
  next
    case (Some j)
    then have "j = i" using find_header_end_append [OF Some, of "concat blocks'"] "1.prems"(1) parts by simp
    then show ?thesis using r ne Some parts by (subst read_header.simps) (simp add: Let_def)
  qed
qed

lemma read_header_sound:
  "read_header buffer blocks = Inr (i, buffer', blocks') \<Longrightarrow>
     find_header_end buffer' = Some i \<and> buffer' @ concat blocks' = buffer @ concat blocks
     \<and> length buffer' \<le> max (length buffer) (64 * 1024) + 1024"
proof (induction buffer blocks rule: read_header.induct)
  case (1 buffer blocks)
  from "1.prems" obtain chunk rest where r: "sock_read 1024 blocks = Some (chunk, rest)" and ne: "chunk \<noteq> []"
    by (subst (asm) read_header.simps) (auto split: option.splits if_splits)
  note parts = sock_read_Some [OF r]
  show ?case
  proof (cases "find_header_end (buffer @ chunk)")
    case (Some j)
    then have "i = j \<and> buffer' = buffer @ chunk \<and> blocks' = rest"
      using "1.prems" r ne by (subst (asm) read_header.simps) (simp add: Let_def)
    then show ?thesis using Some parts by (simp add: max_def)
  next
    case None
    then have short: "\<not> length (buffer @ chunk) > 64 * 1024"
      and run: "read_header (buffer @ chunk) rest = Inr (i, buffer', blocks')"
      using "1.prems" r ne by (simp_all add: read_header.simps [of buffer] Let_def split: if_splits)
    then show ?thesis using "1.IH" [OF r refl ne refl None short run] parts by auto
  qed
qed

lemma read_body_completes:
  assumes "n \<le> length body + length (concat blocks)" and "[] \<notin> set blocks"
  shows "\<exists>body'. read_body n body blocks = Inr body' \<and> take n body' = take n (body @ concat blocks)"
  using assms
proof (induction n body blocks rule: read_body.induct)
  case (1 n body blocks)
  show ?case
  proof (cases "length body < n")
    case True
    then have "blocks \<noteq> []" using "1.prems"(1) by auto
    then obtain chunk blocks' where r: "sock_read (n - length body) blocks = Some (chunk, blocks')"
      by (cases blocks) auto
    note parts = sock_read_Some [OF r]
    have ne: "chunk \<noteq> []" "[] \<notin> set blocks'" using parts "1.prems"(2) True by auto
    have "\<exists>body'. read_body n (body @ chunk) blocks' = Inr body' \<and> take n body' = take n ((body @ chunk) @ concat blocks')"
      by (rule "1.IH" [OF True r refl ne(1)]) (use "1.prems"(1) parts ne in simp_all)
    then show ?thesis using True r ne parts by (subst read_body.simps) simp
  qed (simp add: read_body.simps)
qed

lemma read_body_sound:
  "read_body n body blocks = Inr body' \<Longrightarrow>
     n \<le> length body' \<and> (\<exists>t. body' @ t = body @ concat blocks)"
proof (induction n body blocks rule: read_body.induct)
  case (1 n body blocks)
  show ?case
  proof (cases "length body < n")
    case True
    then obtain chunk rest where r: "sock_read (n - length body) blocks = Some (chunk, rest)" and ne: "chunk \<noteq> []"
      and run: "read_body n (body @ chunk) rest = Inr body'"
      using "1.prems" by (subst (asm) read_body.simps) (auto split: option.splits if_splits)
    then show ?thesis using "1.IH" [OF True r refl ne run] sock_read_Some [OF r] by auto
  next
    case False
    then show ?thesis using "1.prems" by (auto simp: read_body.simps [of n body])
  qed
qed

lemma parse_http_head_bound: "parse_http_head h = Inr (request, n) \<Longrightarrow> n \<le> 16 * 1024 * 1024"
  unfolding parse_http_head_def Let_def by (clarsimp simp only: and_then_eq_Inr ensure_eq Inr_inject prod.inject)

lemma read_http_request_complete:
  assumes "[] \<notin> set blocks" and "find_header_end (concat blocks) = Some i" and "i + 4 \<le> 64 * 1024"
    and "parse_http_head (take i (concat blocks)) = Inr (request, n)" and "i + 4 + n \<le> length (concat blocks)"
  shows "read_http_request blocks = Inr (request\<lparr>rq_body := take n (drop (i + 4) (concat blocks))\<rparr>)"
proof -
  obtain buffer blocks' where h: "read_header [] blocks = Inr (i, buffer, blocks')"
    and whole: "buffer @ concat blocks' = concat blocks" and ne: "[] \<notin> set blocks'"
    using read_header_finds [of "[]" blocks i] assms by auto
  have len: "i + 4 \<le> length buffer" using read_header_sound [OF h] find_header_end_bound by blast
  have head: "take i buffer = take i (concat blocks)" and rest: "drop (i + 4) (concat blocks) = drop (i + 4) buffer @ concat blocks'"
    using len by (simp_all flip: whole)
  have "n \<le> length (drop (i + 4) buffer) + length (concat blocks')"
    using assms(5) len by (simp flip: whole)
  from read_body_completes [OF this ne] show ?thesis
    by (auto simp: read_http_request_def h head assms(4) rest)
qed

definition sample_blocks :: "string list" where
  "sample_blocks = [''POST /m HTTP/1.1'' @ crlf @ ''Content-Len'', ''gth: 2'' @ crlf @ crlf @ ''h'', ''i'']"

definition sample_request :: http_request where
  "sample_request = \<lparr>rq_method = ''POST'', rq_path = ''/m'', rq_headers = [(''content-length'', ''2'')], rq_body = ''hi''\<rparr>"

lemma sample_head:
  "find_header_end (concat sample_blocks) = Some 35"
  "parse_http_head (take 35 (concat sample_blocks)) = Inr (sample_request\<lparr>rq_body := []\<rparr>, 2)"
  by (simp_all add: sample_blocks_def sample_request_def parse_http_head_def split_whitespace.simps trim_start.simps trim_end.simps
      trim_def ws_len_def ws_end_len_def ws_encodings_def ends_with_def to_ascii_lowercase_def ascii_lower_def
      parse_unsigned_def usize_max_def is_ascii_digit_def digit_value_def char_of_def bit_0 List.map_filter_simps)

lemma sample_read: "read_http_request sample_blocks = Inr sample_request"
  using read_http_request_complete [OF _ sample_head(1) _ sample_head(2)] by (simp add: sample_blocks_def sample_request_def)

text \<open>
  (C25) Any split of the network gives the same request: when the stream holds a header that ends
  within 64 KiB, parses, and is followed by at least as many bytes as it announces, then reading
  ends with the request, whatever non-empty blocks the reads return.
\<close>

theorem http_request_read:
  assumes "[] \<notin> set blocks" and "find_header_end (concat blocks) = Some i" and "i + 4 \<le> 64 * 1024"
    and "parse_http_head (take i (concat blocks)) = Inr (request, n)" and "i + 4 + n \<le> length (concat blocks)"
  shows "read_http_request blocks = Inr (request\<lparr>rq_body := take n (drop (i + 4) (concat blocks))\<rparr>)"
  using assms by (rule read_http_request_complete)

theorem http_request_read_witness: "read_http_request sample_blocks = Inr sample_request"
  using http_request_read [OF _ sample_head(1) _ sample_head(2)] by (simp add: sample_blocks_def sample_request_def)

text \<open>
  What is read is what was sent and within bounds: an accepted request is the parsed header up
  to the first blank line, of at most 65 KiB, and its body is exactly the announced number of
  following bytes, at most 16 MiB.
\<close>

theorem http_request_exact:
  assumes "read_http_request blocks = Inr r"
  shows "\<exists>i request n. find_header_end (concat blocks) = Some i \<and> i + 4 \<le> 65 * 1024
    \<and> parse_http_head (take i (concat blocks)) = Inr (request, n) \<and> n \<le> 16 * 1024 * 1024
    \<and> r = request\<lparr>rq_body := take n (drop (i + 4) (concat blocks))\<rparr> \<and> length (rq_body r) = n"
proof -
  obtain i buffer blocks' request n body where h: "read_header [] blocks = Inr (i, buffer, blocks')"
    and p: "parse_http_head (take i buffer) = Inr (request, n)"
    and b: "read_body n (drop (i + 4) buffer) blocks' = Inr body" and r: "r = request\<lparr>rq_body := take n body\<rparr>"
    using assms unfolding read_http_request_def and_then_eq_Inr by (clarsimp simp only: case_prod_conv and_then_eq_Inr Inr_inject split_paired_Ex)
  have hs: "find_header_end buffer = Some i" "length buffer \<le> 65 * 1024" and whole: "concat blocks = buffer @ concat blocks'"
    using read_header_sound [OF h] by simp_all
  have len: "i + 4 \<le> length buffer" using hs find_header_end_bound by blast
  obtain t where t: "body @ t = drop (i + 4) buffer @ concat blocks'" "n \<le> length body"
    using read_body_sound [OF b] by blast
  have "take n (drop (i + 4) (concat blocks)) = take n (body @ t)" unfolding whole t(1) using len by simp
  then have body: "take n (drop (i + 4) (concat blocks)) = take n body" using t(2) by simp
  show ?thesis
  proof (intro exI conjI)
    show "find_header_end (concat blocks) = Some i"
      using find_header_end_append [of buffer i "concat blocks'"] hs whole by simp
    show "i + 4 \<le> 65 * 1024" using len hs by simp
    show "parse_http_head (take i (concat blocks)) = Inr (request, n)" using p len by (simp add: whole)
    show "n \<le> 16 * 1024 * 1024" by (rule parse_http_head_bound [OF p])
    show "r = request\<lparr>rq_body := take n (drop (i + 4) (concat blocks))\<rparr>" unfolding r body ..
    show "length (rq_body r) = n" using t(2) by (simp add: r)
  qed
qed

theorem http_request_exact_witness:
  "\<exists>i request n. find_header_end (concat sample_blocks) = Some i \<and> i + 4 \<le> 65 * 1024
    \<and> parse_http_head (take i (concat sample_blocks)) = Inr (request, n) \<and> n \<le> 16 * 1024 * 1024
    \<and> sample_request = request\<lparr>rq_body := take n (drop (i + 4) (concat sample_blocks))\<rparr> \<and> length (rq_body sample_request) = n"
  by (rule http_request_exact [OF sample_read])

text \<open>
  (C23) Without the token nothing happens: a connection whose request does not carry the configured
  token as its first authorization header leaves the gateway as it was and is answered 404 or 401, or
  not at all; with no token configured that is every connection.
\<close>

theorem control_requires_token:
  "case handle_control_connection env token key st blocks of (out, st') \<Rightarrow>
     (\<exists>request expected. read_http_request blocks = Inr request \<and> rq_method request = ''POST''
        \<and> token = Some expected
        \<and> find (\<lambda>(name, _). name = ''authorization'') (rq_headers request) = Some (''authorization'', ''Bearer '' @ expected))
     \<or> st' = st \<and> (\<exists>e. out = ConnectionFailed e \<or> out = Answered ''401 Unauthorized'' (ErrorReply e)
          \<or> out = Answered ''404 Not Found'' (ErrorReply e))"
proof (cases "read_http_request blocks")
  case (Inr request)
  have "\<exists>expected. token = Some expected
      \<and> find (\<lambda>(name, _). name = ''authorization'') (rq_headers request) = Some (''authorization'', ''Bearer '' @ expected)"
    if "authorized_internal_request (rq_headers request) token"
    using that by (auto simp: authorized_internal_request_def constant_time_eq_eq as_bytes_inj strip_prefix_Some
        find_Some_iff split: option.splits)
  then show ?thesis using Inr by (auto simp: handle_control_connection_def)
qed (simp add: handle_control_connection_def)

subsection \<open>A connection is a run of the gateway\<close>

abbreviation runs_to :: "crypto \<Rightarrow> 'c gateway_state \<Rightarrow> 'c gateway_state \<Rightarrow> bool" where
  "runs_to cr st st' \<equiv> \<exists>ops. gateway_run cr st ops st'"

lemma gateway_run_append: "gateway_run cr st ops st1 \<Longrightarrow> gateway_run cr st1 ops' st2 \<Longrightarrow> gateway_run cr st (ops @ ops') st2"
  by (induction rule: gateway_run.induct) (auto intro: gateway_run.intros)

lemma runs_to_refl: "runs_to cr st st"
  by (blast intro: gateway_run.Done)

lemma runs_to_step: "gateway_step cr st op st' \<Longrightarrow> runs_to cr st st'"
  by (blast intro: gateway_run.intros)

lemma runs_to_trans: "runs_to cr st st1 \<Longrightarrow> runs_to cr st1 st2 \<Longrightarrow> runs_to cr st st2"
  by (blast intro: gateway_run_append)

lemma run_batch_runs:
  assumes "\<And>st now item. runs_to cr st (snd (f st now item))"
  shows "runs_to cr st (snd (run_batch f st items))"
proof (induction items arbitrary: st)
  case (Cons i items)
  show ?case using runs_to_trans [OF assms Cons.IH] by (cases i) (simp add: case_prod_unfold Let_def)
qed (simp add: runs_to_refl)

lemma dispatch_runs:
  assumes "\<forall>(others, rnd) \<in> set rounds. \<forall>s. runs_to cr s (others s)"
  shows "runs_to cr st (snd (dispatch_loop st deadline rounds dispatch))"
  using assms
proof (induction rounds arbitrary: st)
  case (Cons r rounds)
  obtain others rnd where r: "r = (others, rnd)" by (cases r)
  have one: "runs_to cr st (snd (dispatch_attempt (others st) deadline rnd dispatch))"
    using Cons.prems by (intro runs_to_trans [OF _ runs_to_step [OF gateway_step.Dispatch]]) (simp add: r)
  obtain out st1 where a: "dispatch_attempt (others st) deadline rnd dispatch = (out, st1)" by fastforce
  have "runs_to cr st1 (snd (dispatch_loop st1 deadline rounds dispatch))" using Cons by simp
  with one show ?case using runs_to_trans a by (cases out) (simp_all add: r)
qed (simp add: runs_to_refl)

lemma verify_items_run:
  assumes "decode_verifier_key cr (Some k) = Inr key"
  shows "runs_to cr st (st\<lparr>privilege_assertions := snd (verify_batch_items cr key now (privilege_assertions st) items)\<rparr>)"
proof (induction items arbitrary: st)
  case (Cons i items)
  obtain request_id v where i: "i = (request_id, v)" by (cases i)
  define st1 where "st1 = snd (verify_gateway_privilege cr st (Some k) now v)"
  obtain res cache where vp: "verify_privilege_assertion cr key (pv_intent v) (pv_assertion v) now (privilege_assertions st) = (res, cache)"
    by fastforce
  have st1: "st1 = st\<lparr>privilege_assertions := cache\<rparr>"
    using assms vp by (cases res) (simp_all add: st1_def verify_gateway_privilege_def)
  have one: "runs_to cr st st1" unfolding st1_def by (rule runs_to_step [OF gateway_step.Verify])
  have "runs_to cr st (st\<lparr>privilege_assertions := snd (verify_batch_items cr key now cache items)\<rparr>)"
    using runs_to_trans [OF one Cons.IH] by (simp add: st1)
  then show ?case using one vp by (auto simp: i st1 split: sum.splits prod.splits)
qed (simp add: runs_to_refl)

lemma batch_runs:
  assumes "\<And>st now item. runs_to cr st (snd (f st now item))"
  shows "runs_to cr st (snd (case v of Inl e \<Rightarrow> (Inl e, st) | Inr (_ :: unit) \<Rightarrow> (case run_batch f st items of (rs, st) \<Rightarrow> (Inr rs, st))))"
  using run_batch_runs [where st = st and items = items, OF assms] by (cases v) (auto simp: runs_to_refl case_prod_unfold)

lemma terminal_runs: "runs_to cr st (snd (dispatch_terminal_control st now control answer))"
proof -
  have eq: "snd (dispatch_terminal_control st now control answer) = snd (dispatch_terminal_control st now control (TimedOut :: unit awaited))"
    unfolding dispatch_terminal_control_def Let_def
    by (simp only: option.case_distrib [of snd] sum.case_distrib [of snd] if_distrib [of snd] snd_conv)
  show ?thesis unfolding eq by (rule runs_to_step [OF gateway_step.Terminal])
qed

lemma verify_runs: "runs_to cr st (snd (verify_gateway_privilege cr st key now v))"
proof (cases key)
  case None
  then show ?thesis by (simp add: verify_gateway_privilege_def decode_verifier_key_def runs_to_refl)
next
  case (Some k)
  show ?thesis unfolding Some by (rule runs_to_step [OF gateway_step.Verify])
qed

lemma verify_batch_runs: "runs_to cr st (snd (verify_gateway_privileges cr st key now items))"
proof (cases "decode_verifier_key cr key")
  case (Inl e)
  then show ?thesis by (auto simp: verify_gateway_privileges_def runs_to_refl split: sum.splits)
next
  case (Inr k)
  then obtain t where "key = Some t" by (cases key) (auto simp: decode_verifier_key_def)
  then show ?thesis using verify_items_run [of cr t k st now items] Inr
    by (auto simp: verify_gateway_privileges_def runs_to_refl case_prod_unfold split: sum.splits)
qed

lemma with_body_runs:
  assumes "\<And>r. runs_to cr st (snd (serve r))"
  shows "runs_to cr st (snd (with_body prefix decoded st serve))"
  using assms by (cases decoded) (simp_all add: with_body_def runs_to_refl)

lemma dispatch_and_wait_runs:
  assumes "\<forall>(others, rnd) \<in> set (env_rounds env). \<forall>s. runs_to cr s (others s)"
  shows "runs_to cr st (snd (dispatch_and_wait env st dispatch))"
proof -
  have "snd (dispatch_and_wait env st dispatch) = snd (dispatch_gateway_command st (env_rounds env) dispatch)"
    by (simp add: dispatch_and_wait_def split: prod.splits dispatch_outcome.splits)
  then show ?thesis using dispatch_runs [OF assms] by (simp add: dispatch_gateway_command_def)
qed

lemma step_runs:
  "runs_to cr st (snd (cancel_gateway_command st cancel answer))"
  "runs_to cr st (snd (disconnect_gateway_session st disconnect))"
  "runs_to cr st (snd (acquire_gateway_client_dispatch_fence st now acquire))"
  "runs_to cr st (snd (prepare_gateway_client_dispatch_fence st now prepare))"
  "runs_to cr st (snd (promote_gateway_client_dispatch_fence st now promote))"
  "runs_to cr st (snd (clear_gateway_client_dispatch_fence st now clear))"
  by (rule runs_to_step, rule gateway_step.intros)+

lemma batch_operations_run:
  "runs_to cr st (snd (disconnect_gateway_sessions st disconnects))"
  "runs_to cr st (snd (prepare_gateway_client_dispatch_fence_batch st prepares))"
  "runs_to cr st (snd (promote_gateway_client_dispatch_fence_batch st promotes))"
  "runs_to cr st (snd (clear_gateway_client_dispatch_fence_batch st clears))"
  unfolding disconnect_gateway_sessions_def prepare_gateway_client_dispatch_fence_batch_def
    promote_gateway_client_dispatch_fence_batch_def clear_gateway_client_dispatch_fence_batch_def
  by (rule batch_runs, rule step_runs)+

lemma if_runs: "runs_to cr st (snd a) \<Longrightarrow> runs_to cr st (snd b) \<Longrightarrow> runs_to cr st (snd (if c then a else b))"
  by simp

lemma apfst_runs: "runs_to cr st (snd r) \<Longrightarrow> runs_to cr st (snd (apfst f r))"
  by simp

lemma answer_runs: "runs_to cr st (snd (a, st))"
  by (simp add: runs_to_refl)

lemma route_runs:
  assumes "\<forall>(others, rnd) \<in> set (env_rounds env). \<forall>s. runs_to (env_crypto env) s (others s)"
  shows "runs_to (env_crypto env) st (snd (serve_route env key st path body))"
  unfolding serve_route_def serve_defs
  by (rule if_runs with_body_runs apfst_runs answer_runs dispatch_and_wait_runs [OF assms] step_runs
      batch_operations_run terminal_runs verify_runs verify_batch_runs)+


definition sample_env :: "(unit, unit) control_env" where
  "sample_env = \<lparr>dec_command = \<lambda>_. Inl ''json'', dec_cancel = \<lambda>_. Inl ''json'', dec_disconnect = \<lambda>_. Inl ''json'',
     dec_disconnect_batch = \<lambda>_. Inl ''json'',
     dec_acquire = \<lambda>body. Inr \<lparr>a_client_id = body, a_token = 11, a_purpose = Suspension, a_supersede_prepared_suspension = False\<rparr>,
     dec_prepare_batch = \<lambda>_. Inr [], dec_promote_batch = \<lambda>_. Inr [], dec_clear_batch = \<lambda>_. Inr [],
     dec_terminal = \<lambda>_. Inl ''json'', dec_verify_batch = \<lambda>_. Inr [], dec_verify = \<lambda>_. Inl ''json'',
     env_clock = \<lambda>_. 0, env_unix_now = 0,
     env_rounds = [(\<lambda>s. set_runtime_timing s 60 30, \<lparr>t_check = 0, t_enqueue = 0, t_deadline = 0, new_marker_id = 1\<rparr>)],
     env_command_answer = TimedOut, env_cancel_answer = TimedOut, env_terminal_answer = TimedOut,
     env_crypto = sample_crypto, env_show_uuid = \<lambda>_. ''uuid''\<rparr>"


end
