(* ===== verification/Sweep.thy ===== *)
theory Sweep
  imports Prelude
begin

section \<open>Sorting and comparing neighbours\<close>

text \<open>
  Several validators look for a clash between any two of their items by sorting the items and
  comparing neighbours only. \<open>neighbours\<close> is \<open>windows(2).any\<close>; the locale says when the neighbours
  are enough: when a clash of two items is also a clash of the first with every item between them.
\<close>

fun neighbours :: "('a \<Rightarrow> 'a \<Rightarrow> bool) \<Rightarrow> 'a list \<Rightarrow> bool" where
  "neighbours p (x # y # ys) = (p x y \<or> neighbours p (y # ys))"
| "neighbours p _ = False"

definition sort_by_key :: "('a \<Rightarrow> 'k::linorder) \<Rightarrow> 'a list \<Rightarrow> 'a list" where
  "sort_by_key k = sort_by (\<lambda>x y. cmp (k x) (k y))"

lemma comparator_key: "comparator (\<lambda>x y. cmp (k x) (k y))"
  by unfold_locales (auto simp: cmp_def split: if_splits)

lemma sort_by_key_facts [simp]:
  "mset (sort_by_key k xs) = mset xs" "set (sort_by_key k xs) = set xs" "length (sort_by_key k xs) = length xs"
  by (simp_all add: sort_by_key_def)

lemma sorted_sort_by_key: "sorted_wrt (\<lambda>x y. k x \<le> k y) (sort_by_key k xs)"
  using comparator.sorted_sort_by [OF comparator_key, of k xs]
  by (simp add: sort_by_key_def sorted_by_def cmp_eq not_less)

text \<open>For a symmetric relation it does not matter in which order the items stand.\<close>

lemma sorted_wrt_insort_by:
  assumes "\<And>x y. R x y \<longleftrightarrow> R y x"
  shows "sorted_wrt R (insort_by f x xs) \<longleftrightarrow> sorted_wrt R (x # xs)"
  using assms by (induction xs) (auto simp: set_insort_by)

lemma sorted_wrt_sort_by_key:
  assumes "\<And>x y. R x y \<longleftrightarrow> R y x"
  shows "sorted_wrt R (sort_by_key k xs) \<longleftrightarrow> sorted_wrt R xs"
  using assms
  by (induction xs) (simp_all add: sort_by_key_def sort_by_def sorted_wrt_insort_by, simp add: sort_by_def [symmetric])

text \<open>Sorting by a key that tells the items apart forgets the order they came in.\<close>

lemma sort_by_key_unique:
  assumes "mset xs = mset ys" and "inj_on k (set xs)"
  shows "sort_by_key k xs = sort_by_key k ys"
proof -
  have keys: "map k (sort_by_key k zs) = sort (map k zs)" for zs
    using sorted_sort_by_key [of k zs] by (intro properties_for_sort [symmetric]) (simp_all add: sorted_map)
  have "sort (map k xs) = sort (map k ys)"
    using assms(1) by (intro properties_for_sort) simp_all
  then have "map k (sort_by_key k xs) = map k (sort_by_key k ys)" by (simp add: keys)
  then show ?thesis
    using assms mset_eq_setD [OF assms(1)] by (auto intro: map_inj_on)
qed

locale sweep =
  fixes key :: "'a \<Rightarrow> 'k::linorder" and clash :: "'a \<Rightarrow> 'a \<Rightarrow> bool" and good :: "'a \<Rightarrow> bool"
  assumes clash_sym: "clash x y \<longleftrightarrow> clash y x"
    and between: "good x \<Longrightarrow> good y \<Longrightarrow> good z \<Longrightarrow> key x \<le> key y \<Longrightarrow> key y \<le> key z \<Longrightarrow> clash x z \<Longrightarrow> clash x y"
begin

lemma neighbours_suffice:
  assumes "sorted_wrt (\<lambda>x y. key x \<le> key y) xs" and "\<forall>x\<in>set xs. good x"
  shows "neighbours clash xs \<longleftrightarrow> \<not> sorted_wrt (\<lambda>x y. \<not> clash x y) xs"
  using assms
proof (induction xs rule: induct_list012)
  case (3 x y ys)
  have "clash x y" if "z \<in> set ys" "clash x z" for z
    using "3.prems" that between [of x y z] by simp
  then show ?case using "3.IH"(2) "3.prems" by auto
qed auto

text \<open>The validators' check: no neighbours clash after sorting, exactly when no two items clash.\<close>

lemma sweep_iff:
  assumes "\<forall>x\<in>set xs. good x"
  shows "neighbours clash (sort_by_key key xs) \<longleftrightarrow> \<not> sorted_wrt (\<lambda>x y. \<not> clash x y) xs"
  using neighbours_suffice [OF sorted_sort_by_key, of xs] assms
    sorted_wrt_sort_by_key [of "\<lambda>x y. \<not> clash x y" key xs] clash_sym by simp

end

end
