(* ===== verification/Ip_Addr.thy ===== *)
theory Ip_Addr
  imports Prelude
begin

section \<open>IP addresses\<close>

text \<open>
  \<open>std::net::IpAddr\<close>: an IPv4 address is its 32-bit and an IPv6 address its 128-bit big-endian
  value, which is also the order the standard library gives them. The predicates are those of the
  standard library the validators ask.
\<close>

datatype ip_addr = V4 u32 | V6 u128

unbundle bit_operations_syntax

definition is_ipv4 :: "ip_addr \<Rightarrow> bool" where
  "is_ipv4 ip = (case ip of V4 _ \<Rightarrow> True | V6 _ \<Rightarrow> False)"

definition octet :: "nat \<Rightarrow> u32 \<Rightarrow> u32" where
  "octet i a = drop_bit (24 - 8 * i) a AND 0xFF"

definition segment0 :: "u128 \<Rightarrow> u128" where
  "segment0 a = drop_bit 112 a"

definition is_unspecified :: "ip_addr \<Rightarrow> bool" where
  "is_unspecified ip = (case ip of V4 a \<Rightarrow> a = 0 | V6 a \<Rightarrow> a = 0)"

definition is_loopback :: "ip_addr \<Rightarrow> bool" where
  "is_loopback ip = (case ip of V4 a \<Rightarrow> octet 0 a = 127 | V6 a \<Rightarrow> a = 1)"

definition is_multicast :: "ip_addr \<Rightarrow> bool" where
  "is_multicast ip = (case ip of V4 a \<Rightarrow> 224 \<le> octet 0 a \<and> octet 0 a \<le> 239 | V6 a \<Rightarrow> drop_bit 120 a = 0xFF)"

definition is_link_local :: "ip_addr \<Rightarrow> bool" where
  "is_link_local ip = (case ip of V4 a \<Rightarrow> octet 0 a = 169 \<and> octet 1 a = 254 | V6 a \<Rightarrow> segment0 a AND 0xFFC0 = 0xFE80)"

definition is_broadcast :: "ip_addr \<Rightarrow> bool" where
  "is_broadcast ip = (case ip of V4 a \<Rightarrow> a = 0xFFFFFFFF | V6 _ \<Rightarrow> False)"

end
