(* ===== verification/Port_Forwarding.thy ===== *)
theory Port_Forwarding
  imports Sweep Ip_Addr Rust_Str Auth "HOL-Library.Char_ord" "HOL-Library.List_Lexorder"
begin

section \<open>Port forwarding\<close>

text \<open>
  \<open>common/src/network/port_forwarding.rs\<close> and \<open>port_forwarding_pools.rs\<close>: port ranges and the
  expressions that name them, forwarding rules with their three modes, upstream pools, and the
  validation of a whole configuration. The serialization that is hashed is the parameter
  \<open>rules_json\<close>. The validators sort and compare neighbours, twice (\<open>Sweep\<close>); the properties show
  that this finds every clash, so that a valid configuration gives each port to one rule.
\<close>

definition PORT_FORWARDING_SCHEMA_VERSION :: u16 where
  "PORT_FORWARDING_SCHEMA_VERSION = 1"

definition PORT_FORWARDING_MODES_SCHEMA_VERSION :: u16 where
  "PORT_FORWARDING_MODES_SCHEMA_VERSION = 2"

definition PORT_FORWARDING_POOLS_SCHEMA_VERSION :: u16 where
  "PORT_FORWARDING_POOLS_SCHEMA_VERSION = 3"

definition PORT_FORWARD_ADAPTER_CONTRACT_VERSION :: u16 where
  "PORT_FORWARD_ADAPTER_CONTRACT_VERSION = 2"

definition MAX_PORT_FORWARD_RULES :: nat where
  "MAX_PORT_FORWARD_RULES = 512"

definition MAX_PORT_FORWARD_MAPPINGS :: nat where
  "MAX_PORT_FORWARD_MAPPINGS = 256"

definition MAX_PORT_FORWARD_NAME_BYTES :: nat where
  "MAX_PORT_FORWARD_NAME_BYTES = 128"

definition MAX_PORT_FORWARD_NFT_SCRIPT_BYTES :: nat where
  "MAX_PORT_FORWARD_NFT_SCRIPT_BYTES = 8 * 1024 * 1024"

datatype port_forward_mode = Dnat | Redirect | CustomAdapter

datatype address_family = Ipv4 | Ipv6 | BothFamilies

datatype port_forward_protocol = Tcp | Udp | TcpAndUdp

definition transports :: "port_forward_protocol \<Rightarrow> string list" where
  "transports self = (case self of Tcp \<Rightarrow> [''tcp''] | Udp \<Rightarrow> [''udp''] | TcpAndUdp \<Rightarrow> [''tcp'', ''udp''])"

record runtime_command =
  cmd_argv :: "string list"
  cmd_max_timeout_secs :: u64
  cmd_max_output_bytes :: u32

record adapter_commands =
  ad_definition_id :: uuid
  ad_definition_name :: string
  ad_definition_hash :: string
  ad_contract_version :: u16
  ad_apply :: runtime_command
  ad_remove :: runtime_command
  ad_status :: runtime_command

datatype port_forward_error =
    PoolInvalid string
  | PortZero
  | RangeReversed
  | ExpressionEmpty
  | ExpressionInvalid string
  | MappingsEmpty
  | MappingsTooMany
  | IncomingOverlap
  | TargetCardinalityMismatch
  | TargetExpressionCountMismatch
  | NameEmpty
  | NameTooLong
  | TargetIpInvalid
  | ModeFieldsInvalid
  | AdapterCommandInvalid
  | SchemaUnsupported
  | DesiredHashMissing
  | DesiredHashInvalid
  | DesiredHashMismatch
  | RulesTooMany
  | ProgramTooLarge
  | DuplicateRuleId
  | CleanupRuleIdInvalid
  | CrossRuleOverlap

subsection \<open>Port ranges\<close>

record port_range =
  pr_start :: u16
  pr_end :: u16

definition validate_range :: "port_range \<Rightarrow> port_forward_error + unit" where
  "validate_range self =
     (if pr_start self = 0 \<or> pr_end self = 0 then Inl PortZero
      else if pr_start self > pr_end self then Inl RangeReversed
      else Inr ())"

definition new_port_range :: "u16 \<Rightarrow> u16 \<Rightarrow> port_forward_error + port_range" where
  "new_port_range s e =
     (let value = \<lparr>pr_start = s, pr_end = e\<rparr> in and_then (validate_range value) (\<lambda>_. Inr value))"

definition cardinality :: "port_range \<Rightarrow> u32" where
  "cardinality self = ucast (pr_end self) - ucast (pr_start self) + 1"

definition is_single :: "port_range \<Rightarrow> bool" where
  "is_single self \<longleftrightarrow> pr_start self = pr_end self"

definition range_overlaps :: "port_range \<Rightarrow> port_range \<Rightarrow> bool" where
  "range_overlaps self other \<longleftrightarrow> pr_start self \<le> pr_end other \<and> pr_start other \<le> pr_end self"

definition validate_non_overlapping :: "port_range list \<Rightarrow> port_forward_error + unit" where
  "validate_non_overlapping ranges =
     (if neighbours range_overlaps (sort_by_key (\<lambda>r. (pr_start r, pr_end r)) ranges)
      then Inl IncomingOverlap else Inr ())"

subsection \<open>Expressions\<close>

definition parse_port :: "string \<Rightarrow> string \<Rightarrow> port_forward_error + u16" where
  "parse_port value item =
     (case parse_unsigned 65535 (trim value) of
        None \<Rightarrow> Inl (ExpressionInvalid item)
      | Some n \<Rightarrow> Inr (of_nat n))"

definition parse_port_item :: "string \<Rightarrow> port_forward_error + port_range" where
  "parse_port_item raw_item =
     (let item = trim raw_item in
      if item = [] then Inl (ExpressionInvalid raw_item)
      else case split_once (CHR ''-'') item of
        Some (s, e) \<Rightarrow>
          if CHR ''-'' \<in> set e then Inl (ExpressionInvalid item)
          else and_then (parse_port s item) (\<lambda>s. and_then (parse_port e item) (new_port_range s))
      | None \<Rightarrow> and_then (parse_port item item) (\<lambda>port. new_port_range port port))"

definition parse_port_expression :: "string \<Rightarrow> port_forward_error + port_range list" where
  "parse_port_expression expression =
     (if trim expression = [] then Inl ExpressionEmpty
      else and_then (try_map parse_port_item (split_on (CHR '','') expression)) (\<lambda>ranges.
        if length ranges > MAX_PORT_FORWARD_MAPPINGS then Inl MappingsTooMany
        else and_then (validate_non_overlapping ranges) (\<lambda>_. Inr ranges)))"

record port_mapping =
  mp_incoming :: port_range
  mp_target :: port_range

fun check_mappings :: "port_mapping list \<Rightarrow> port_forward_error + unit" where
  "check_mappings [] = Inr ()"
| "check_mappings (mapping # mappings) =
     and_then (validate_range (mp_incoming mapping)) (\<lambda>_.
     and_then (validate_range (mp_target mapping)) (\<lambda>_.
     if \<not> is_single (mp_target mapping) \<and> cardinality (mp_target mapping) \<noteq> cardinality (mp_incoming mapping)
     then Inl TargetCardinalityMismatch
     else check_mappings mappings))"

definition validate_mappings :: "port_mapping list \<Rightarrow> port_forward_error + unit" where
  "validate_mappings mappings =
     (if mappings = [] then Inl MappingsEmpty
      else if length mappings > MAX_PORT_FORWARD_MAPPINGS then Inl MappingsTooMany
      else and_then (check_mappings mappings) (\<lambda>_. validate_non_overlapping (map mp_incoming mappings)))"

definition pair_port_expressions :: "string \<Rightarrow> string \<Rightarrow> port_forward_error + port_mapping list" where
  "pair_port_expressions incoming_expression target_expression =
     and_then (parse_port_expression incoming_expression) (\<lambda>incoming.
     and_then (parse_port_expression target_expression) (\<lambda>target.
     and_then
       (if length target = 1 \<and> is_single (target ! 0)
        then Inr (map (\<lambda>i. \<lparr>mp_incoming = i, mp_target = target ! 0\<rparr>) incoming)
        else if length incoming \<noteq> length target then Inl TargetExpressionCountMismatch
        else Inr (map (\<lambda>(i, t). \<lparr>mp_incoming = i, mp_target = t\<rparr>) (zip incoming target))) (\<lambda>mappings.
     and_then (validate_mappings mappings) (\<lambda>_. Inr mappings))))"

subsection \<open>Upstream pools\<close>

datatype pool_strategy = RoundRobin | Random | SourceIpHash | LeastConnections | ConsistentSourceIpHash

datatype upstream_role = Primary | Backup

datatype failure_policy = FailureOff | Temporary (fp_threshold: u32) (fp_window_secs: u32) (fp_retry_after_secs: u32)

datatype retry_policy = RetryOff | ConnectFailure "u32 option" "u32 option"

record upstream =
  up_id :: uuid
  up_target_ip :: ip_addr
  up_target_hostname :: "string option"
  up_ports :: port_range
  up_weight :: u32
  up_role :: upstream_role
  up_enabled :: bool
  up_failure_policy :: "failure_policy option"

record port_forward_pool =
  pl_incoming :: "port_range list"
  pl_strategy :: pool_strategy
  pl_upstreams :: "upstream list"
  pl_connect_timeout_secs :: "u32 option"
  pl_retry_policy :: "retry_policy option"

definition pool_check :: "bool \<Rightarrow> string \<Rightarrow> port_forward_error + unit" where
  "pool_check condition message = (if condition then Inr () else Inl (PoolInvalid message))"

definition validate_target_ip :: "ip_addr \<Rightarrow> port_forward_error + unit" where
  "validate_target_ip target =
     (if is_unspecified target \<or> is_loopback target \<or> is_multicast target \<or> is_link_local target
       \<or> is_broadcast target
      then Inl TargetIpInvalid else Inr ())"

definition check_failure_policy ::
    "port_forward_mode \<Rightarrow> port_forward_protocol \<Rightarrow> u64 \<Rightarrow> failure_policy option \<Rightarrow> port_forward_error + unit" where
  "check_failure_policy mode protocol endpoint_count policy =
     (case policy of
        None \<Rightarrow> Inr ()
      | Some policy \<Rightarrow>
          and_then (pool_check (mode = CustomAdapter \<and> protocol = Tcp \<and> endpoint_count \<ge> 2)
            ''failure exclusion requires a custom TCP pool with at least two endpoints'') (\<lambda>_.
          (case policy of
             FailureOff \<Rightarrow> Inr ()
           | Temporary threshold window_secs retry_after_secs \<Rightarrow>
               and_then (pool_check (threshold > 0 \<and> window_secs > 0 \<and> retry_after_secs > 0)
                 ''failure thresholds and intervals must be positive'') (\<lambda>_.
               pool_check (window_secs = retry_after_secs)
                 ''failure window and exclusion interval must match''))))"

definition family_of :: "ip_addr \<Rightarrow> address_family" where
  "family_of ip = (if is_ipv4 ip then Ipv4 else Ipv6)"

definition check_upstream ::
    "port_forward_pool \<Rightarrow> port_forward_mode \<Rightarrow> port_forward_protocol \<Rightarrow> u64 \<Rightarrow> upstream list \<Rightarrow> upstream
      \<Rightarrow> port_forward_error + unit" where
  "check_upstream pool mode protocol endpoint_count before row =
     and_then (validate_range (up_ports row)) (\<lambda>_.
     and_then (pool_check (up_id row \<notin> set (map up_id before)) ''upstream IDs must be unique'') (\<lambda>_.
     and_then (pool_check (up_weight row > 0) ''upstream weight must be positive'') (\<lambda>_.
     and_then
       (if mode = Dnat then validate_target_ip (up_target_ip row)
        else pool_check (\<not> is_unspecified (up_target_ip row) \<and> \<not> is_multicast (up_target_ip row))
          ''upstream target must be a usable unicast address'') (\<lambda>_.
     and_then
       (pool_check (\<not> list_ex (\<lambda>other. up_target_ip other = up_target_ip row
            \<and> range_overlaps (up_ports other) (up_ports row)) before)
          ''upstream IP/port ranges overlap'') (\<lambda>_.
     and_then
       (pool_check (up_role row \<noteq> Backup
            \<or> mode = CustomAdapter \<and> (pl_strategy pool = RoundRobin \<or> pl_strategy pool = LeastConnections))
          ''pool strategy does not support backups'') (\<lambda>_.
     check_failure_policy mode protocol endpoint_count (up_failure_policy row)))))))"

text \<open>The loop over the rows: the families met, the total weight so far and the rows before.\<close>

fun check_upstreams ::
    "port_forward_pool \<Rightarrow> port_forward_mode \<Rightarrow> port_forward_protocol \<Rightarrow> u64 \<Rightarrow> upstream list \<Rightarrow> address_family list \<Rightarrow> u64
      \<Rightarrow> upstream list \<Rightarrow> port_forward_error + address_family list \<times> u64" where
  "check_upstreams pool mode protocol endpoint_count before families total_weight [] = Inr (families, total_weight)"
| "check_upstreams pool mode protocol endpoint_count before families total_weight (row # rows) =
     and_then (check_upstream pool mode protocol endpoint_count before row) (\<lambda>_.
       let family = family_of (up_target_ip row);
           families = (if family \<in> set families then families else families @ [family]);
           total_weight = (if up_enabled row
             then total_weight + ucast (up_weight row) * ucast (cardinality (up_ports row)) else total_weight)
       in check_upstreams pool mode protocol endpoint_count (before @ [row]) families total_weight rows)"

definition count_endpoints :: "upstream list \<Rightarrow> port_forward_error + u64" where
  "count_endpoints rows =
     try_fold (\<lambda>sum row. and_then (validate_range (up_ports row)) (\<lambda>_. Inr (sum + ucast (cardinality (up_ports row))))) 0 rows"

definition check_timeout :: "port_forward_mode \<Rightarrow> port_forward_protocol \<Rightarrow> u32 option \<Rightarrow> port_forward_error + unit" where
  "check_timeout mode protocol timeout =
     (case timeout of
        None \<Rightarrow> Inr ()
      | Some timeout \<Rightarrow> pool_check (timeout > 0 \<and> mode = CustomAdapter \<and> protocol = Tcp)
          ''connect timeout must be positive and applies to custom TCP pools'')"

definition check_retry :: "port_forward_mode \<Rightarrow> port_forward_protocol \<Rightarrow> retry_policy option \<Rightarrow> port_forward_error + unit" where
  "check_retry mode protocol retry =
     (case retry of
        None \<Rightarrow> Inr ()
      | Some retry \<Rightarrow>
          and_then (pool_check (mode = CustomAdapter \<and> protocol = Tcp) ''connection retry applies to custom TCP pools'') (\<lambda>_.
          (case retry of
             RetryOff \<Rightarrow> Inr ()
           | ConnectFailure max_attempts retry_budget_secs \<Rightarrow>
               pool_check (max_attempts \<noteq> Some 0 \<and> retry_budget_secs \<noteq> Some 0)
                 ''retry limits must be positive when supplied'')))"

definition validate_port_forward_pool ::
    "port_forward_pool \<Rightarrow> port_forward_mode \<Rightarrow> port_forward_protocol \<Rightarrow> port_forward_error + unit" where
  "validate_port_forward_pool pool mode protocol =
     and_then (pool_check (mode \<noteq> Redirect) ''REDIRECT cannot use an upstream pool'') (\<lambda>_.
     and_then (pool_check (mode \<noteq> Dnat \<or> pl_strategy pool \<in> {RoundRobin, Random, SourceIpHash})
       ''DNAT pools use round robin, random, or source IP hash'') (\<lambda>_.
     and_then (pool_check (pl_incoming pool \<noteq> [] \<and> length (pl_incoming pool) \<le> MAX_PORT_FORWARD_MAPPINGS)
       ''invalid pool incoming range count'') (\<lambda>_.
     and_then (try_map validate_range (pl_incoming pool)) (\<lambda>_.
     and_then (validate_non_overlapping (pl_incoming pool)) (\<lambda>_.
     and_then (pool_check (pl_upstreams pool \<noteq> [] \<and> length (pl_upstreams pool) \<le> MAX_PORT_FORWARD_MAPPINGS)
       ''invalid upstream row count'') (\<lambda>_.
     and_then (pool_check (list_ex up_enabled (pl_upstreams pool)) ''enable at least one upstream'') (\<lambda>_.
     and_then (pool_check (list_ex (\<lambda>row. up_role row = Primary) (pl_upstreams pool))
       ''keep at least one primary upstream'') (\<lambda>_.
     and_then (count_endpoints (pl_upstreams pool)) (\<lambda>endpoint_count.
     and_then (check_upstreams pool mode protocol endpoint_count [] [] 0 (pl_upstreams pool)) (\<lambda>(families, total_weight).
     and_then (pool_check (mode \<noteq> Dnat \<or> length families = 1) ''pool cannot mix address families'') (\<lambda>_.
     and_then (pool_check (mode \<noteq> Dnat \<or> total_weight \<le> 0xFFFFFFFF)
       ''expanded endpoint weights exceed 4294967295'') (\<lambda>_.
     and_then (check_timeout mode protocol (pl_connect_timeout_secs pool)) (\<lambda>_.
     check_retry mode protocol (pl_retry_policy pool))))))))))))))"

subsection \<open>Rules and configurations\<close>

record port_forward_rule =
  pf_id :: uuid
  pf_revision :: "64 word"
  pf_name :: string
  pf_protocol :: port_forward_protocol
  pf_target_ip :: "ip_addr option"
  pf_mappings :: "port_mapping list"
  pf_pool :: "port_forward_pool option"
  pf_masquerade :: bool
  pf_mode :: port_forward_mode
  pf_address_family :: "address_family option"
  pf_adapter :: "adapter_commands option"

definition incoming_ranges :: "port_forward_rule \<Rightarrow> port_range list" where
  "incoming_ranges self =
     (case pf_pool self of Some pool \<Rightarrow> pl_incoming pool | None \<Rightarrow> map mp_incoming (pf_mappings self))"

definition required_schema_version :: "port_forward_rule \<Rightarrow> u16" where
  "required_schema_version self =
     (if pf_pool self \<noteq> None \<or> pf_mode self = CustomAdapter then PORT_FORWARDING_POOLS_SCHEMA_VERSION
      else if pf_mode self \<noteq> Dnat then PORT_FORWARDING_MODES_SCHEMA_VERSION
      else PORT_FORWARDING_SCHEMA_VERSION)"

definition dnat_target :: "port_forward_rule \<Rightarrow> ip_addr option" where
  "dnat_target self =
     (case pf_target_ip self of
        Some ip \<Rightarrow> Some ip
      | None \<Rightarrow>
          (case pf_pool self of
             None \<Rightarrow> None
           | Some pool \<Rightarrow> (case pl_upstreams pool of [] \<Rightarrow> None | row # _ \<Rightarrow> Some (up_target_ip row))))"

definition native_families :: "port_forward_rule \<Rightarrow> address_family list" where
  "native_families self =
     (case pf_mode self of
        Dnat \<Rightarrow> (case dnat_target self of Some (V4 _) \<Rightarrow> [Ipv4] | Some (V6 _) \<Rightarrow> [Ipv6] | None \<Rightarrow> [])
      | Redirect \<Rightarrow>
          (case pf_address_family self of
             Some Ipv4 \<Rightarrow> [Ipv4]
           | Some Ipv6 \<Rightarrow> [Ipv6]
           | Some BothFamilies \<Rightarrow> [Ipv4, Ipv6]
           | None \<Rightarrow> [])
      | CustomAdapter \<Rightarrow> [])"

record cleanup_rule =
  cl_rule_id :: uuid
  cl_revision :: "64 word"

record port_forwarding_config =
  cfg_schema_version :: u16
  cfg_desired_hash :: string
  cfg_rules :: "port_forward_rule list"
  cfg_cleanup_rules :: "cleanup_rule list"
  cfg_native_cleanup_pending :: bool

definition default_port_forwarding_config :: port_forwarding_config where
  "default_port_forwarding_config = \<lparr>cfg_schema_version = PORT_FORWARDING_SCHEMA_VERSION, cfg_desired_hash = [],
     cfg_rules = [], cfg_cleanup_rules = [], cfg_native_cleanup_pending = False\<rparr>"

definition adapter_command_ok :: "runtime_command \<Rightarrow> bool" where
  "adapter_command_ok command \<longleftrightarrow>
     cmd_argv command \<noteq> []
     \<and> list_ex (\<lambda>arg. contains_str arg ''{rule_config_json}'') (cmd_argv command)
     \<and> length (cmd_argv command) \<le> 32
     \<and> starts_with (hd (cmd_argv command)) ''/''
     \<and> list_all (\<lambda>arg. arg \<noteq> [] \<and> length arg \<le> 4096 \<and> CHR 0x00 \<notin> set arg) (cmd_argv command)
     \<and> 1 \<le> cmd_max_timeout_secs command \<and> cmd_max_timeout_secs command \<le> 120
     \<and> 1024 \<le> cmd_max_output_bytes command \<and> cmd_max_output_bytes command \<le> 65536"

definition check_rule_mode :: "port_forward_rule \<Rightarrow> port_forward_error + unit" where
  "check_rule_mode rule =
     (case pf_mode rule of
        Dnat \<Rightarrow>
          and_then
            (if pf_pool rule = None
             then and_then (ok_or TargetIpInvalid (pf_target_ip rule)) validate_target_ip
             else ensure (pf_target_ip rule = None) ModeFieldsInvalid) (\<lambda>_.
          ensure (pf_adapter rule = None \<and> pf_address_family rule = None) ModeFieldsInvalid)
      | Redirect \<Rightarrow>
          ensure (pf_pool rule = None \<and> pf_target_ip rule = None \<and> pf_adapter rule = None
            \<and> pf_address_family rule \<noteq> None \<and> \<not> pf_masquerade rule) ModeFieldsInvalid
      | CustomAdapter \<Rightarrow>
          and_then (ensure (pf_address_family rule = None \<and> \<not> pf_masquerade rule) ModeFieldsInvalid) (\<lambda>_.
          and_then (ok_or ModeFieldsInvalid (pf_adapter rule)) (\<lambda>adapter.
          and_then (ensure (ad_contract_version adapter = PORT_FORWARD_ADAPTER_CONTRACT_VERSION) AdapterCommandInvalid) (\<lambda>_.
          ensure (list_all adapter_command_ok [ad_apply adapter, ad_remove adapter, ad_status adapter])
            AdapterCommandInvalid))))"

definition validate_port_forward_rule :: "port_forward_rule \<Rightarrow> port_forward_error + unit" where
  "validate_port_forward_rule rule =
     (let name = trim (pf_name rule) in
      if name = [] then Inl NameEmpty
      else if length name > MAX_PORT_FORWARD_NAME_BYTES then Inl NameTooLong
      else and_then (check_rule_mode rule) (\<lambda>_.
        (case pf_pool rule of
           Some pool \<Rightarrow>
             if pf_mappings rule \<noteq> [] \<or> pf_target_ip rule \<noteq> None then Inl ModeFieldsInvalid
             else validate_port_forward_pool pool (pf_mode rule) (pf_protocol rule)
         | None \<Rightarrow> validate_mappings (pf_mappings rule))))"

definition port_forwarding_desired_hash :: "crypto \<Rightarrow> (port_forward_rule list \<Rightarrow> u8 list) \<Rightarrow> port_forward_rule list \<Rightarrow> string" where
  "port_forwarding_desired_hash cr rules_json rules = payload_hash cr (rules_json (sort_by_key pf_id rules))"

type_synonym port_claim = "bool \<times> string \<times> port_range"

text \<open>
  The claims of a rule on the dispatch table. Claims with equal keys are equal, so the unstable sort
  of the source has one result.
\<close>

definition rule_claims :: "port_forward_rule \<Rightarrow> port_claim list" where
  "rule_claims rule =
     concat (map (\<lambda>family. concat (map (\<lambda>transport.
        map (\<lambda>incoming. (family = Ipv6, transport, incoming)) (incoming_ranges rule))
       (transports (pf_protocol rule)))) (native_families rule))"

definition claim_key :: "port_claim \<Rightarrow> bool \<times> string \<times> u16 \<times> u16" where
  "claim_key c = (case c of (ipv6, transport, r) \<Rightarrow> (ipv6, transport, pr_start r, pr_end r))"

definition claims_clash :: "port_claim \<Rightarrow> port_claim \<Rightarrow> bool" where
  "claims_clash c d =
     (case (c, d) of ((ipv6, transport, r), (ipv6', transport', r')) \<Rightarrow>
        ipv6 = ipv6' \<and> transport = transport' \<and> range_overlaps r r')"

definition validate_cross_rule_overlaps :: "port_forward_rule list \<Rightarrow> port_forward_error + unit" where
  "validate_cross_rule_overlaps rules =
     (if neighbours claims_clash (sort_by_key claim_key (concat (map rule_claims rules)))
      then Inl CrossRuleOverlap else Inr ())"

definition estimated_rule_bytes :: "port_forward_rule \<Rightarrow> nat" where
  "estimated_rule_bytes rule =
     (let transports = length (transports (pf_protocol rule)) * length (native_families rule) in
      case pf_pool rule of
        Some pool \<Rightarrow>
          let endpoints = fold (\<lambda>row sum. usize_add sum (unat (cardinality (up_ports row))))
                (filter up_enabled (pl_upstreams pool)) 0
          in usize_mul (usize_add (usize_add 768 (usize_mul (length (pl_incoming pool)) 96)) (usize_mul endpoints 160)) transports
      | None \<Rightarrow>
          let compact_elements = usize_mul (length (filter (\<lambda>mapping. is_single (mp_target mapping)
                \<and> mp_incoming mapping \<noteq> mp_target mapping) (pf_mappings rule))) 48;
              shifted_elements = fold (\<lambda>mapping bytes. usize_add bytes (usize_mul (unat (cardinality (mp_incoming mapping))) 20))
                (filter (\<lambda>mapping. \<not> is_single (mp_target mapping) \<and> mp_incoming mapping \<noteq> mp_target mapping) (pf_mappings rule)) 0;
              per_transport = usize_add (usize_add (usize_add 768 (usize_mul (length (pf_mappings rule)) 96))
                compact_elements) shifted_elements
          in usize_mul per_transport transports)"

definition estimated_nft_program_bytes :: "port_forward_rule list \<Rightarrow> nat" where
  "estimated_nft_program_bytes rules =
     fold (\<lambda>rule total. usize_add total (estimated_rule_bytes rule))
       (filter (\<lambda>rule. pf_mode rule \<noteq> CustomAdapter) rules) (2 * 1024)"

fun check_rules :: "uuid list \<Rightarrow> port_forward_rule list \<Rightarrow> port_forward_error + unit" where
  "check_rules ids [] = Inr ()"
| "check_rules ids (rule # rules) =
     (if pf_id rule \<in> set ids then Inl DuplicateRuleId
      else and_then (validate_port_forward_rule rule) (\<lambda>_. check_rules (pf_id rule # ids) rules))"

fun check_cleanup_rules :: "port_forward_rule list \<Rightarrow> uuid list \<Rightarrow> cleanup_rule list \<Rightarrow> port_forward_error + unit" where
  "check_cleanup_rules rules ids [] = Inr ()"
| "check_cleanup_rules rules ids (cleanup # cleanups) =
     (if sint (cl_revision cleanup) \<le> 0 \<or> cl_rule_id cleanup \<in> set ids
       \<or> list_ex (\<lambda>rule. pf_id rule = cl_rule_id cleanup \<and> pf_mode rule = CustomAdapter) rules
      then Inl CleanupRuleIdInvalid
      else check_cleanup_rules rules (cl_rule_id cleanup # ids) cleanups)"

definition lower_hex :: "char \<Rightarrow> bool" where
  "lower_hex c \<longleftrightarrow> is_ascii_digit c \<or> 97 \<le> byte c \<and> byte c \<le> 102"

definition validate_port_forwarding_config ::
    "crypto \<Rightarrow> (port_forward_rule list \<Rightarrow> u8 list) \<Rightarrow> port_forwarding_config \<Rightarrow> port_forward_error + unit" where
  "validate_port_forwarding_config cr rules_json config =
     (let version = cfg_schema_version config; rules = cfg_rules config; hash = cfg_desired_hash config in
      if version \<notin> {PORT_FORWARDING_SCHEMA_VERSION, PORT_FORWARDING_MODES_SCHEMA_VERSION, PORT_FORWARDING_POOLS_SCHEMA_VERSION}
        \<or> version = PORT_FORWARDING_SCHEMA_VERSION
          \<and> (cfg_cleanup_rules config \<noteq> [] \<or> list_ex (\<lambda>rule. pf_mode rule \<noteq> Dnat) rules)
      then Inl SchemaUnsupported
      else if list_ex (\<lambda>rule. required_schema_version rule > version) rules then Inl SchemaUnsupported
      else if length rules > MAX_PORT_FORWARD_RULES then Inl RulesTooMany
      else if rules \<noteq> [] \<and> hash = [] then Inl DesiredHashMissing
      else if hash \<noteq> [] \<and> (length hash \<noteq> 64 \<or> \<not> list_all lower_hex hash) then Inl DesiredHashInvalid
      else if hash \<noteq> [] \<and> hash \<noteq> port_forwarding_desired_hash cr rules_json rules then Inl DesiredHashMismatch
      else and_then (check_rules [] rules) (\<lambda>_.
        and_then (check_cleanup_rules rules [] (cfg_cleanup_rules config)) (\<lambda>_.
        if estimated_nft_program_bytes rules > MAX_PORT_FORWARD_NFT_SCRIPT_BYTES then Inl ProgramTooLarge
        else validate_cross_rule_overlaps rules)))"

subsection \<open>The capability of an agent\<close>

datatype capability_status = Supported | NftMissing | InsufficientPrivilege | InetNatUnsupported | ProbeFailed | UnknownStatus

record port_forward_capability =
  cap_status :: capability_status
  cap_nft_version :: "string option"
  cap_reason :: "string option"
  cap_schema_version :: u16
  cap_supported_modes :: "port_forward_mode list"

definition default_port_forward_capability :: port_forward_capability where
  "default_port_forward_capability = \<lparr>cap_status = UnknownStatus, cap_nft_version = None, cap_reason = None,
     cap_schema_version = PORT_FORWARDING_SCHEMA_VERSION, cap_supported_modes = []\<rparr>"

definition supported :: "port_forward_capability \<Rightarrow> bool" where
  "supported self \<longleftrightarrow> cap_status self = Supported"

definition supports_mode :: "port_forward_capability \<Rightarrow> port_forward_mode \<Rightarrow> bool" where
  "supports_mode self mode =
     (case mode of
        Dnat \<Rightarrow> supported self
      | Redirect \<Rightarrow> supported self \<and> cap_schema_version self \<ge> PORT_FORWARDING_MODES_SCHEMA_VERSION
          \<and> mode \<in> set (cap_supported_modes self)
      | CustomAdapter \<Rightarrow> cap_schema_version self \<ge> PORT_FORWARDING_POOLS_SCHEMA_VERSION
          \<and> mode \<in> set (cap_supported_modes self))"

text \<open>The request an adapter command receives: the rule without its commands, and its hash.\<close>

record adapter_request =
  rq_contract_version :: u16
  rq_client_id :: string
  rq_config_hash :: string
  rq_rule :: port_forward_rule

definition new_adapter_request ::
    "crypto \<Rightarrow> (string \<Rightarrow> port_forward_rule \<Rightarrow> u8 list) \<Rightarrow> string \<Rightarrow> port_forward_rule \<Rightarrow> adapter_request" where
  "new_adapter_request cr rule_json client_id rule =
     (let rule = rule\<lparr>pf_adapter := None\<rparr> in
      \<lparr>rq_contract_version = PORT_FORWARD_ADAPTER_CONTRACT_VERSION, rq_client_id = client_id,
       rq_config_hash = payload_hash cr (rule_json client_id rule), rq_rule = rule\<rparr>)"

end
