(* ===== verification/Port_Safety.thy ===== *)
theory Port_Safety
  imports Port_Forwarding
begin

section \<open>Properties of port forwarding\<close>

text \<open>
  The two sweeps of the validators are interpretations of \<open>sweep\<close>; from them follow the exactness of
  the overlap checks and the exclusive use of every port. Further: expressions are parsed to what they
  name and printed ranges are parsed back, paired expressions translate ports without leaving the
  target range, a pool never lists an endpoint twice, its weights add up without overflow, and the
  hash of a configuration does not depend on the order of its rules.
\<close>

subsection \<open>Ranges\<close>

abbreviation valid_range :: "port_range \<Rightarrow> bool" where
  "valid_range r \<equiv> validate_range r = Inr ()"

definition in_range :: "u16 \<Rightarrow> port_range \<Rightarrow> bool" where
  "in_range p r \<longleftrightarrow> pr_start r \<le> p \<and> p \<le> pr_end r"

lemma valid_range_iff: "valid_range r \<longleftrightarrow> pr_start r \<noteq> 0 \<and> pr_end r \<noteq> 0 \<and> pr_start r \<le> pr_end r"
  by (auto simp: validate_range_def)

lemma overlaps_iff:
  assumes "valid_range r" and "valid_range q"
  shows "range_overlaps r q \<longleftrightarrow> (\<exists>p. in_range p r \<and> in_range p q)"
proof
  assume "range_overlaps r q"
  then have "in_range (max (pr_start r) (pr_start q)) r \<and> in_range (max (pr_start r) (pr_start q)) q"
    using assms by (auto simp: range_overlaps_def in_range_def valid_range_iff max_def)
  then show "\<exists>p. in_range p r \<and> in_range p q" by blast
qed (auto simp: range_overlaps_def in_range_def intro: order_trans)

interpretation range_sweep: sweep "\<lambda>r. (pr_start r, pr_end r)" range_overlaps valid_range
proof
  fix x y z :: port_range
  show "range_overlaps x y = range_overlaps y x" by (auto simp: range_overlaps_def)
  assume "valid_range x" "valid_range y" "(pr_start x, pr_end x) \<le> (pr_start y, pr_end y)"
    "(pr_start y, pr_end y) \<le> (pr_start z, pr_end z)" "range_overlaps x z"
  then show "range_overlaps x y" by (auto simp: range_overlaps_def valid_range_iff less_eq_prod_simp)
qed

interpretation claim_sweep: sweep claim_key claims_clash "\<lambda>(_, _, r). valid_range r"
proof
  fix x y z :: port_claim
  show "claims_clash x y = claims_clash y x" by (auto simp: claims_clash_def range_overlaps_def)
  assume "case x of (_, _, r) \<Rightarrow> valid_range r" "case y of (_, _, r) \<Rightarrow> valid_range r"
    "claim_key x \<le> claim_key y" "claim_key y \<le> claim_key z" "claims_clash x z"
  then show "claims_clash x y"
    by (cases x; cases y; cases z)
      (auto simp: claims_clash_def claim_key_def range_overlaps_def valid_range_iff less_eq_prod_simp)
qed

abbreviation disjoint_ranges :: "port_range list \<Rightarrow> bool" where
  "disjoint_ranges \<equiv> sorted_wrt (\<lambda>x y. \<not> range_overlaps x y)"

lemma validate_non_overlapping_iff:
  "\<forall>r\<in>set rs. valid_range r \<Longrightarrow> validate_non_overlapping rs = Inr () \<longleftrightarrow> disjoint_ranges rs"
  by (simp add: validate_non_overlapping_def range_sweep.sweep_iff)

subsection \<open>Valid rules\<close>

lemma pool_check_eq [simp]:
  "pool_check c m = Inr () \<longleftrightarrow> c"
  "pool_check c m = Inl e \<longleftrightarrow> \<not> c \<and> e = PoolInvalid m"
  by (auto simp: pool_check_def)

lemma try_map_valid: "try_map validate_range rs = Inr us \<Longrightarrow> r \<in> set rs \<Longrightarrow> valid_range r"
  by (auto simp: try_map_eq_Inr list_all2_conv_all_nth in_set_conv_nth)

lemma check_mappings_iff:
  "check_mappings ms = Inr () \<longleftrightarrow>
     (\<forall>m\<in>set ms. valid_range (mp_incoming m) \<and> valid_range (mp_target m)
        \<and> (is_single (mp_target m) \<or> cardinality (mp_target m) = cardinality (mp_incoming m)))"
  by (induction ms) (auto simp: and_then_eq_Inr)

lemma validate_mappings_iff:
  "validate_mappings ms = Inr () \<longleftrightarrow> ms \<noteq> [] \<and> length ms \<le> MAX_PORT_FORWARD_MAPPINGS
     \<and> check_mappings ms = Inr () \<and> disjoint_ranges (map mp_incoming ms)"
proof -
  have "validate_non_overlapping (map mp_incoming ms) = Inr () \<longleftrightarrow> disjoint_ranges (map mp_incoming ms)"
    if "check_mappings ms = Inr ()"
    using that by (intro validate_non_overlapping_iff) (auto simp: check_mappings_iff)
  then show ?thesis by (auto simp: validate_mappings_def and_then_eq_Inr)
qed

lemma valid_pool_incoming:
  assumes "validate_port_forward_pool pool mode protocol = Inr ()"
  shows "(\<forall>r\<in>set (pl_incoming pool). valid_range r) \<and> disjoint_ranges (pl_incoming pool)"
proof -
  obtain us where us: "try_map validate_range (pl_incoming pool) = Inr us"
    and no: "validate_non_overlapping (pl_incoming pool) = Inr ()"
    using assms by (auto simp: validate_port_forward_pool_def and_then_eq_Inr)
  then show ?thesis using try_map_valid [OF us] validate_non_overlapping_iff by blast
qed

lemma valid_rule_incoming:
  assumes "validate_port_forward_rule rule = Inr ()"
  shows "(\<forall>r\<in>set (incoming_ranges rule). valid_range r) \<and> disjoint_ranges (incoming_ranges rule)"
proof (cases "pf_pool rule")
  case None
  then have "validate_mappings (pf_mappings rule) = Inr ()"
    using assms by (auto simp: validate_port_forward_rule_def and_then_eq_Inr Let_def split: if_splits)
  then show ?thesis using None by (auto simp: validate_mappings_iff check_mappings_iff incoming_ranges_def)
next
  case (Some pool)
  then have "validate_port_forward_pool pool (pf_mode rule) (pf_protocol rule) = Inr ()"
    using assms by (auto simp: validate_port_forward_rule_def and_then_eq_Inr Let_def split: if_splits)
  then show ?thesis using valid_pool_incoming Some by (auto simp: incoming_ranges_def)
qed

lemma check_rules_iff:
  "check_rules ids rules = Inr () \<longleftrightarrow>
     (\<forall>r\<in>set rules. validate_port_forward_rule r = Inr ()) \<and> distinct (map pf_id rules)
     \<and> set ids \<inter> set (map pf_id rules) = {}"
  by (induction rules arbitrary: ids) (auto simp: and_then_eq_Inr)

subsection \<open>Claims\<close>

definition claims_port :: "port_forward_rule \<Rightarrow> bool \<Rightarrow> string \<Rightarrow> u16 \<Rightarrow> bool" where
  "claims_port rule ipv6 transport port \<longleftrightarrow>
     (if ipv6 then Ipv6 else Ipv4) \<in> set (native_families rule) \<and> transport \<in> set (transports (pf_protocol rule))
     \<and> (\<exists>r\<in>set (incoming_ranges rule). in_range port r)"

lemma native_families_plain: "set (native_families rule) \<subseteq> {Ipv4, Ipv6}" "distinct (native_families rule)"
  by (cases "pf_mode rule"; cases "dnat_target rule"; cases "the (dnat_target rule)";
      cases "pf_address_family rule"; cases "the (pf_address_family rule)"; simp add: native_families_def)+

lemma rule_claims_set:
  "(ipv6, transport, r) \<in> set (rule_claims rule) \<longleftrightarrow>
     (if ipv6 then Ipv6 else Ipv4) \<in> set (native_families rule) \<and> transport \<in> set (transports (pf_protocol rule))
     \<and> r \<in> set (incoming_ranges rule)"
  using native_families_plain(1) [of rule] by (auto simp: rule_claims_def)

lemma claims_port_iff:
  "claims_port rule ipv6 transport port \<longleftrightarrow> (\<exists>r. (ipv6, transport, r) \<in> set (rule_claims rule) \<and> in_range port r)"
  by (auto simp: claims_port_def rule_claims_set)

lemma sorted_wrt_concat:
  "sorted_wrt R (concat xss) \<longleftrightarrow>
     (\<forall>xs\<in>set xss. sorted_wrt R xs) \<and> sorted_wrt (\<lambda>xs ys. \<forall>x\<in>set xs. \<forall>y\<in>set ys. R x y) xss"
  by (induction xss) (auto simp: sorted_wrt_append)

lemma sorted_wrt_iff:
  "(\<And>x y. x \<in> set xs \<Longrightarrow> y \<in> set xs \<Longrightarrow> R x y \<longleftrightarrow> S x y) \<Longrightarrow> sorted_wrt R xs \<longleftrightarrow> sorted_wrt S xs"
  by (auto intro: sorted_wrt_mono_rel)

lemma rule_claims_disjoint:
  assumes "disjoint_ranges (incoming_ranges rule)"
  shows "sorted_wrt (\<lambda>c d. \<not> claims_clash c d) (rule_claims rule)"
proof -
  have one: "sorted_wrt (\<lambda>c d. \<not> claims_clash c d) (map (\<lambda>i. (b, t, i)) (incoming_ranges rule))" for b t
    using assms by (simp add: sorted_wrt_map claims_clash_def)
  have transp: "sorted_wrt (\<lambda>t u. t \<noteq> u) (transports (pf_protocol rule))"
    by (auto simp: transports_def split: port_forward_protocol.splits)
  have fams: "sorted_wrt (\<lambda>f g. (f = Ipv6) \<noteq> (g = Ipv6)) (native_families rule)"
    by (auto simp: native_families_def split: port_forward_mode.splits option.splits ip_addr.splits address_family.splits)
  show ?thesis
    unfolding rule_claims_def sorted_wrt_concat sorted_wrt_map
    by (auto simp: sorted_wrt_concat sorted_wrt_map one claims_clash_def assms
        intro!: sorted_wrt_mono_rel [OF _ fams] sorted_wrt_mono_rel [OF _ transp])
qed

text \<open>The sweep over all claims finds a clash exactly when two rules claim the same port.\<close>

lemma cross_rule_overlaps_iff:
  assumes "\<forall>rule\<in>set rules. validate_port_forward_rule rule = Inr ()"
  shows "validate_cross_rule_overlaps rules = Inr () \<longleftrightarrow>
    sorted_wrt (\<lambda>a b. \<nexists>ipv6 transport port. claims_port a ipv6 transport port \<and> claims_port b ipv6 transport port) rules"
proof -
  have valid: "valid_range r" if "rule \<in> set rules" "(ipv6, transport, r) \<in> set (rule_claims rule)" for rule ipv6 transport r
    using valid_rule_incoming that assms by (auto simp: rule_claims_set)
  have "validate_cross_rule_overlaps rules = Inr () \<longleftrightarrow> sorted_wrt (\<lambda>c d. \<not> claims_clash c d) (concat (map rule_claims rules))"
    using claim_sweep.sweep_iff [of "concat (map rule_claims rules)"] valid
    by (auto simp: validate_cross_rule_overlaps_def)
  also have "\<dots> \<longleftrightarrow> sorted_wrt (\<lambda>a b. \<forall>c\<in>set (rule_claims a). \<forall>d\<in>set (rule_claims b). \<not> claims_clash c d) rules"
    using rule_claims_disjoint valid_rule_incoming assms by (auto simp: sorted_wrt_concat sorted_wrt_map)
  also have "\<dots> \<longleftrightarrow> sorted_wrt (\<lambda>a b. \<nexists>ipv6 transport port. claims_port a ipv6 transport port \<and> claims_port b ipv6 transport port) rules"
  proof (rule sorted_wrt_iff)
    fix a b
    assume "a \<in> set rules" "b \<in> set rules"
    then show "(\<forall>c\<in>set (rule_claims a). \<forall>d\<in>set (rule_claims b). \<not> claims_clash c d) \<longleftrightarrow>
      (\<nexists>ipv6 transport port. claims_port a ipv6 transport port \<and> claims_port b ipv6 transport port)"
      unfolding claims_port_iff claims_clash_def using valid overlaps_iff by fastforce
  qed
  finally show ?thesis .
qed

lemma valid_config:
  assumes "validate_port_forwarding_config cr json config = Inr ()"
  shows "(\<forall>rule\<in>set (cfg_rules config). validate_port_forward_rule rule = Inr ())
    \<and> distinct (map pf_id (cfg_rules config)) \<and> validate_cross_rule_overlaps (cfg_rules config) = Inr ()"
  using assms
  by (simp add: validate_port_forwarding_config_def Let_def and_then_eq_Inr check_rules_iff split: if_splits)


definition sample_mapping :: "u16 \<Rightarrow> u16 \<Rightarrow> port_mapping" where
  "sample_mapping a b = \<lparr>mp_incoming = \<lparr>pr_start = a, pr_end = b\<rparr>, mp_target = \<lparr>pr_start = 80, pr_end = 80\<rparr>\<rparr>"

definition sample_rule :: "uuid \<Rightarrow> u16 \<Rightarrow> u16 \<Rightarrow> port_forward_rule" where
  "sample_rule i a b = \<lparr>pf_id = i, pf_revision = 1, pf_name = ''web'', pf_protocol = TcpAndUdp, pf_target_ip = Some (V4 0x0A000001),
     pf_mappings = [sample_mapping a b], pf_pool = None, pf_masquerade = True, pf_mode = Dnat, pf_address_family = None,
     pf_adapter = None\<rparr>"

definition sample_hash :: string where
  "sample_hash = replicate 64 (CHR ''a'')"

definition hash_crypto :: crypto where
  "hash_crypto = sample_crypto\<lparr>hex_encode := \<lambda>_. sample_hash\<rparr>"

definition sample_config :: port_forwarding_config where
  "sample_config = \<lparr>cfg_schema_version = 1, cfg_desired_hash = sample_hash,
     cfg_rules = [sample_rule 1 8000 8010, sample_rule 2 8011 8020], cfg_cleanup_rules = [], cfg_native_cleanup_pending = False\<rparr>"

lemma sample_rule_valid:
  "validate_port_forward_rule (sample_rule i 8000 8010) = Inr ()"
  "validate_port_forward_rule (sample_rule i 8011 8020) = Inr ()"
  by (simp_all add: validate_port_forward_rule_def sample_rule_def sample_mapping_def check_rule_mode_def validate_mappings_iff
      check_mappings_iff validate_range_def is_single_def MAX_PORT_FORWARD_MAPPINGS_def MAX_PORT_FORWARD_NAME_BYTES_def
      validate_target_ip_def is_unspecified_def is_loopback_def is_multicast_def is_link_local_def is_broadcast_def
      octet_def trim_def trim_start.simps trim_end.simps ws_len_def ws_end_len_def ws_encodings_def ends_with_def)

lemma sample_config_valid: "validate_port_forwarding_config hash_crypto (\<lambda>_. []) sample_config = Inr ()"
proof -
  have rules: "check_rules [] (cfg_rules sample_config) = Inr ()"
    using sample_rule_valid by (simp add: sample_config_def check_rules_iff) (simp add: sample_rule_def)
  have cross: "validate_cross_rule_overlaps (cfg_rules sample_config) = Inr ()"
    by (simp add: sample_config_def sample_rule_def sample_mapping_def validate_cross_rule_overlaps_def rule_claims_def
        native_families_def dnat_target_def transports_def incoming_ranges_def sort_by_key_def sort_by_def claim_key_def
        cmp_def claims_clash_def range_overlaps_def less_prod_simp less_eq_prod_simp)
  have size: "estimated_nft_program_bytes (cfg_rules sample_config) \<le> MAX_PORT_FORWARD_NFT_SCRIPT_BYTES"
    by (simp add: sample_config_def sample_rule_def sample_mapping_def estimated_nft_program_bytes_def estimated_rule_bytes_def
        native_families_def dnat_target_def transports_def is_single_def usize_add_def usize_mul_def usize_max_def
        MAX_PORT_FORWARD_NFT_SCRIPT_BYTES_def Let_def)
  have hash: "port_forwarding_desired_hash hash_crypto (\<lambda>_. []) rules = sample_hash" for rules
    by (simp add: port_forwarding_desired_hash_def payload_hash_def hash_crypto_def)
  show ?thesis using rules cross size
    by (simp add: validate_port_forwarding_config_def hash Let_def)
      (simp add: sample_config_def sample_rule_def required_schema_version_def PORT_FORWARDING_SCHEMA_VERSION_def
        MAX_PORT_FORWARD_RULES_def sample_hash_def lower_hex_def list_all_iff)
qed


text \<open>
  The hash of a configuration is a hash of its set of rules: for rules with distinct ids, as
  every valid configuration has them, the order in which they are listed does not matter.
\<close>

theorem desired_hash_order_free:
  assumes "mset rules = mset rules'" and "distinct (map pf_id rules)"
  shows "port_forwarding_desired_hash cr json rules = port_forwarding_desired_hash cr json rules'"
  using sort_by_key_unique [OF assms(1), of pf_id] assms(2) by (simp add: port_forwarding_desired_hash_def distinct_map)

theorem desired_hash_order_free_witness:
  "port_forwarding_desired_hash sample_crypto (map (ucast \<circ> pf_id)) [sample_rule 1 5 5, sample_rule 2 6 6]
     = port_forwarding_desired_hash sample_crypto (map (ucast \<circ> pf_id)) [sample_rule 2 6 6, sample_rule 1 5 5]"
  by (rule desired_hash_order_free) (simp_all add: sample_rule_def)

subsection \<open>Expressions\<close>

definition show_port_range :: "port_range \<Rightarrow> string" where
  "show_port_range r =
     (if is_single r then show_nat (unat (pr_start r))
      else show_nat (unat (pr_start r)) @ ''-'' @ show_nat (unat (pr_end r)))"

definition show_port_ranges :: "port_range list \<Rightarrow> string" where
  "show_port_ranges rs = join_with '','' (map show_port_range rs)"

lemma digit_not_delimiter: "\<not> is_ascii_digit (CHR ''-'')" "\<not> is_ascii_digit (CHR '','')"
  by (simp_all add: is_ascii_digit_def)

lemma show_nat_no_delimiter: "CHR ''-'' \<notin> set (show_nat n)" "CHR '','' \<notin> set (show_nat n)"
  using show_nat_digits digit_not_delimiter by blast+

lemma parse_port_show: "parse_port (show_nat (unat (p :: u16))) item = Inr p"
proof -
  have "unat p \<le> 65535" using unat_le_max [of p] by simp
  then show ?thesis by (simp add: parse_port_def trim_digits show_nat_ends parse_show_nat)
qed

lemma show_port_range_ends: "is_ascii_digit (hd (show_port_range r))" "is_ascii_digit (last (show_port_range r))" "show_port_range r \<noteq> []"
  by (simp_all add: show_port_range_def show_nat_ends)

lemma show_port_range_no_comma: "CHR '','' \<notin> set (show_port_range r)"
  by (simp add: show_port_range_def show_nat_no_delimiter)

lemma show_port_ranges_visible:
  assumes "rs \<noteq> []"
  shows "trim (show_port_ranges rs) = show_port_ranges rs \<and> show_port_ranges rs \<noteq> []"
proof -
  have "show_port_ranges rs \<noteq> [] \<and> is_ascii_digit (hd (show_port_ranges rs)) \<and> is_ascii_digit (last (show_port_ranges rs))"
    using assms
  proof (induction rs rule: induct_list012)
    case (3 r q rs)
    then show ?case using show_port_range_ends [of r] by (simp add: show_port_ranges_def)
  qed (simp_all add: show_port_ranges_def show_port_range_ends)
  then show ?thesis by (simp add: trim_digits)
qed

lemma new_port_range_valid: "valid_range r \<Longrightarrow> new_port_range (pr_start r) (pr_end r) = Inr r"
  by (cases r) (simp add: new_port_range_def Let_def)

lemma parse_show_range:
  assumes "valid_range r"
  shows "parse_port_item (show_port_range r) = Inr r"
proof (cases "is_single r")
  case True
  then have "split_once (CHR ''-'') (show_port_range r) = None"
    by (simp add: split_once_None show_port_range_def show_nat_no_delimiter)
  moreover have "parse_port (show_port_range r) (show_port_range r) = Inr (pr_start r)"
    using True by (simp add: show_port_range_def parse_port_show)
  ultimately show ?thesis using True new_port_range_valid [OF assms] show_port_range_ends [of r]
    by (simp add: parse_port_item_def trim_digits is_single_def Let_def)
next
  case False
  then have "split_once (CHR ''-'') (show_port_range r) = Some (show_nat (unat (pr_start r)), show_nat (unat (pr_end r)))"
    by (simp add: split_once_Some show_port_range_def show_nat_no_delimiter)
  then show ?thesis using new_port_range_valid [OF assms] show_port_range_ends [of r]
    by (simp add: parse_port_item_def trim_digits Let_def show_nat_no_delimiter parse_port_show)
qed

lemma parse_port_expression_sound:
  "parse_port_expression e = Inr rs \<Longrightarrow>
     rs \<noteq> [] \<and> length rs \<le> MAX_PORT_FORWARD_MAPPINGS \<and> (\<forall>r\<in>set rs. valid_range r) \<and> disjoint_ranges rs"
proof -
  assume a: "parse_port_expression e = Inr rs"
  then have items: "try_map parse_port_item (split_on (CHR '','') e) = Inr rs" and len: "length rs \<le> MAX_PORT_FORWARD_MAPPINGS"
    and no: "validate_non_overlapping rs = Inr ()"
    by (auto simp: parse_port_expression_def and_then_eq_Inr split: if_splits)
  have "valid_range r" if "parse_port_item i = Inr r" for i r
    using that by (auto simp: parse_port_item_def Let_def new_port_range_def and_then_eq_Inr split: if_splits option.splits)
  then have valid: "\<forall>r\<in>set rs. valid_range r"
    using items by (fastforce simp: try_map_eq_Inr list_all2_conv_all_nth in_set_conv_nth)
  have "rs \<noteq> []" using try_map_length [OF items] by auto
  then show ?thesis using len valid no validate_non_overlapping_iff [OF valid] by simp
qed

text \<open>
  (C39) Port expressions round-trip: a list of valid ranges that do not overlap, at most 256 of them, is
  what its printed form is parsed to.
\<close>

theorem port_expression_roundtrip:
  assumes "rs \<noteq> []" and "length rs \<le> 256" and "\<forall>r\<in>set rs. valid_range r" and "disjoint_ranges rs"
  shows "parse_port_expression (show_port_ranges rs) = Inr rs"
proof -
  have "split_on (CHR '','') (show_port_ranges rs) = map show_port_range rs"
    unfolding show_port_ranges_def using assms(1) by (intro split_on_join) (auto simp: show_port_range_no_comma)
  moreover have "try_map parse_port_item (map show_port_range rs) = Inr rs"
    using assms(3) by (simp add: try_map_eq_Inr list_all2_conv_all_nth parse_show_range)
  moreover have "trim (show_port_ranges rs) \<noteq> []"
    using show_port_ranges_visible [OF assms(1)] by simp
  ultimately show ?thesis using assms(2,4) validate_non_overlapping_iff [OF assms(3)]
    by (simp add: parse_port_expression_def MAX_PORT_FORWARD_MAPPINGS_def)
qed

theorem port_expression_roundtrip_witness:
  "parse_port_expression (show_port_ranges [\<lparr>pr_start = 80, pr_end = 80\<rparr>, \<lparr>pr_start = 8000, pr_end = 8010\<rparr>])
     = Inr [\<lparr>pr_start = 80, pr_end = 80\<rparr>, \<lparr>pr_start = 8000, pr_end = 8010\<rparr>]"
  by (rule port_expression_roundtrip) (simp_all add: validate_range_def range_overlaps_def)

lemma ports_in_one_range:
  assumes "rs \<noteq> [] \<and> n \<le> k \<and> (\<forall>r\<in>set rs. valid_range r) \<and> disjoint_ranges rs"
    and "i < length rs" and "j < length rs" and "in_range p (rs ! i)" and "in_range p (rs ! j)"
  shows "i = j"
proof (rule ccontr)
  assume "i \<noteq> j"
  then have "\<not> range_overlaps (rs ! i) (rs ! j) \<or> \<not> range_overlaps (rs ! j) (rs ! i)"
    using assms unfolding sorted_wrt_iff_nth_less by (metis nat_neq_iff)
  moreover have "valid_range (rs ! i)" "valid_range (rs ! j)" using assms by simp_all
  ultimately show False using overlaps_iff assms(4,5) by blast
qed

text \<open>
  (C40) What is parsed is well-formed: a parsed expression has between one and 256 ranges, all of them
  valid, and no port in two of them.
\<close>

theorem parsed_ports_wf:
  assumes "parse_port_expression e = Inr rs"
  shows "1 \<le> length rs \<and> length rs \<le> 256 \<and> (\<forall>r\<in>set rs. valid_range r)
    \<and> (\<forall>i<length rs. \<forall>j<length rs. \<forall>p. in_range p (rs ! i) \<and> in_range p (rs ! j) \<longrightarrow> i = j)"
proof -
  note wf = parse_port_expression_sound [OF assms]
  have "i = j" if "i < length rs" "j < length rs" "in_range p (rs ! i)" "in_range p (rs ! j)" for i j p
    by (rule ports_in_one_range [OF wf that])
  then show ?thesis using wf by (auto simp: MAX_PORT_FORWARD_MAPPINGS_def Suc_le_eq)
qed

theorem parsed_ports_wf_witness:
  "\<exists>rs. parse_port_expression ''80'' = Inr rs \<and> 1 \<le> length rs \<and> length rs \<le> 256"
proof -
  have "parse_port_expression ''80'' = Inr [\<lparr>pr_start = 80, pr_end = 80\<rparr>]"
    by (simp add: parse_port_expression_def parse_port_item_def trim_digits is_ascii_digit_def parse_port_def parse_unsigned_def
        digit_value_def new_port_range_def validate_range_def MAX_PORT_FORWARD_MAPPINGS_def validate_non_overlapping_def
        sort_by_key_def sort_by_def)
  from parsed_ports_wf [OF this] this show ?thesis by auto
qed

subsection \<open>Translation\<close>

text \<open>Where a mapping sends a port: to its single target, or to the port at the same offset.\<close>

definition forward_port :: "port_mapping \<Rightarrow> u16 \<Rightarrow> u16" where
  "forward_port m p =
     (if is_single (mp_target m) then pr_start (mp_target m)
      else pr_start (mp_target m) + (p - pr_start (mp_incoming m)))"

lemma unat_cardinality:
  assumes "valid_range r"
  shows "unat (cardinality r) = unat (pr_end r) - unat (pr_start r) + 1"
proof -
  have le: "unat (pr_start r) \<le> unat (pr_end r)" "unat (pr_end r) \<le> 65535"
    using assms unat_le_max [of "pr_end r"] by (auto simp: valid_range_iff word_le_nat_alt)
  have uc: "unat (ucast w :: u32) = unat w" for w :: u16
    using unat_le_max [of w] by (simp add: unsigned_ucast_eq take_bit_nat_eq_self_iff)
  have sub: "unat (ucast (pr_end r) - ucast (pr_start r) :: u32) = unat (pr_end r) - unat (pr_start r)"
    using le by (subst unat_sub) (simp_all add: word_le_nat_alt uc)
  show ?thesis unfolding cardinality_def using le by (subst unat_add_no_overflow) (simp_all add: sub)
qed

lemma forward_port_in_target:
  assumes "valid_range (mp_incoming m)" and "valid_range (mp_target m)" and "in_range p (mp_incoming m)"
    and "is_single (mp_target m) \<or> cardinality (mp_target m) = cardinality (mp_incoming m)"
  shows "in_range (forward_port m p) (mp_target m)"
proof (cases "is_single (mp_target m)")
  case True
  then show ?thesis by (simp add: forward_port_def in_range_def is_single_def)
next
  case False
  let ?i = "mp_incoming m" and ?t = "mp_target m"
  have card: "unat (pr_end ?t) - unat (pr_start ?t) = unat (pr_end ?i) - unat (pr_start ?i)"
    using assms(4) False unat_cardinality [OF assms(1)] unat_cardinality [OF assms(2)] by simp
  have p: "unat (pr_start ?i) \<le> unat p" "unat p \<le> unat (pr_end ?i)" and t: "unat (pr_start ?t) \<le> unat (pr_end ?t)"
    using assms(2,3) by (simp_all add: in_range_def valid_range_iff word_le_nat_alt)
  have off: "unat (p - pr_start ?i) = unat p - unat (pr_start ?i)" using p by (simp add: unat_sub word_le_nat_alt)
  have "unat (pr_start ?t) + unat (p - pr_start ?i) \<le> unat (pr_end ?t)" using off p card t by linarith
  moreover from this have "unat (pr_start ?t + (p - pr_start ?i)) = unat (pr_start ?t) + unat (p - pr_start ?i)"
    using unat_le_max [of "pr_end ?t"] by (intro unat_add_no_overflow) simp
  ultimately show ?thesis using False by (simp add: forward_port_def in_range_def word_le_nat_alt)
qed

text \<open>
  (C38) Paired expressions translate every port: when two expressions pair, each port of the incoming
  expression is covered by exactly one mapping, and its translation stays within the target range
  of this mapping, without wrap-around.
\<close>

theorem paired_ports_translate:
  assumes "pair_port_expressions inc tgt = Inr ms" and "parse_port_expression inc = Inr rs"
    and "r \<in> set rs" and "in_range p r"
  shows "(\<exists>!i. i < length ms \<and> in_range p (mp_incoming (ms ! i)))
    \<and> (\<forall>i<length ms. in_range p (mp_incoming (ms ! i)) \<longrightarrow> in_range (forward_port (ms ! i) p) (mp_target (ms ! i)))"
proof -
  have incoming: "map mp_incoming ms = rs" and vm: "validate_mappings ms = Inr ()"
    using assms(1,2) by (auto simp: pair_port_expressions_def and_then_eq_Inr comp_def case_prod_unfold split: if_splits)
  obtain k where k: "k < length ms" "in_range p (mp_incoming (ms ! k))"
    using assms(3,4) incoming by (auto simp: in_set_conv_nth)
  have "j = k" if "j < length ms" "in_range p (mp_incoming (ms ! j))" for j
    using ports_in_one_range [OF parse_port_expression_sound [OF assms(2)], of j k p] that k incoming by auto
  moreover have "in_range (forward_port m p) (mp_target m)" if "m \<in> set ms" "in_range p (mp_incoming m)" for m
    using vm that by (auto simp: validate_mappings_iff check_mappings_iff intro!: forward_port_in_target)
  ultimately show ?thesis using k by (metis nth_mem)
qed

theorem paired_ports_translate_witness:
  "\<exists>!i. i < length [sample_mapping 8000 8010] \<and> in_range 8005 (mp_incoming ([sample_mapping 8000 8010] ! i))"
proof -
  let ?rs = "[\<lparr>pr_start = 8000, pr_end = 8010\<rparr>]" and ?ts = "[\<lparr>pr_start = 80, pr_end = 80\<rparr>]"
  have inc: "parse_port_expression ''8000-8010'' = Inr ?rs" and tgt: "parse_port_expression ''80'' = Inr ?ts"
    by (simp_all add: parse_port_expression_def parse_port_item_def trim_digits is_ascii_digit_def parse_port_def parse_unsigned_def
        digit_value_def new_port_range_def validate_range_def MAX_PORT_FORWARD_MAPPINGS_def validate_non_overlapping_def
        sort_by_key_def sort_by_def)
  have "validate_mappings [sample_mapping 8000 8010] = Inr ()"
    by (simp add: is_single_def sample_mapping_def validate_mappings_iff validate_range_def MAX_PORT_FORWARD_MAPPINGS_def)
  then have "pair_port_expressions ''8000-8010'' ''80'' = Inr [sample_mapping 8000 8010]"
    by (simp add: pair_port_expressions_def inc tgt is_single_def sample_mapping_def)
  from paired_ports_translate [OF this inc, of "hd ?rs" 8005] show ?thesis by (simp add: in_range_def)
qed

subsection \<open>Pools\<close>

definition expanded_weight :: "upstream \<Rightarrow> nat" where
  "expanded_weight row = (if up_enabled row then unat (up_weight row) * unat (cardinality (up_ports row)) else 0)"

lemma check_upstream_valid: "check_upstream pool mode protocol n before row = Inr () \<Longrightarrow> valid_range (up_ports row)"
  by (auto simp: check_upstream_def and_then_eq_Inr)

lemma expanded_weight_bound:
  assumes "valid_range (up_ports row)"
  shows "expanded_weight row < 2 ^ 48"
proof -
  have "unat (cardinality (up_ports row)) \<le> 65536"
    using unat_cardinality [OF assms] unat_le_max [of "pr_end (up_ports row)"] by simp
  moreover have "unat (up_weight row) \<le> 2 ^ 32 - 1" using unat_le_max [of "up_weight row"] by simp
  ultimately have "unat (up_weight row) * unat (cardinality (up_ports row)) \<le> (2 ^ 32 - 1) * 65536" by (intro mult_le_mono)
  then show ?thesis by (simp add: expanded_weight_def)
qed

lemma unat_weight_product:
  fixes row :: upstream
  assumes "valid_range (up_ports row)"
  shows "unat (ucast (up_weight row) * ucast (cardinality (up_ports row)) :: u64)
    = unat (up_weight row) * unat (cardinality (up_ports row))"
proof -
  have uc: "unat (ucast w :: u64) = unat w" for w :: u32
    using unat_le_max [of w] by (simp add: unsigned_ucast_eq take_bit_nat_eq_self_iff)
  have "unat (up_weight row) * unat (cardinality (up_ports row)) < 2 ^ 48"
    using expanded_weight_bound [of "row\<lparr>up_enabled := True\<rparr>"] assms by (simp add: expanded_weight_def)
  then show ?thesis by (simp add: unat_word_ariths uc)
qed

lemma check_upstreams_total:
  assumes "check_upstreams pool mode protocol n before fams w rows = Inr (fams', w')"
    and "unat w + length rows * 2 ^ 48 < 2 ^ 64"
  shows "unat w' = unat w + sum_list (map expanded_weight rows)"
  using assms
proof (induction rows arbitrary: before fams w)
  case (Cons row rows)
  define w1 where "w1 = (if up_enabled row then w + ucast (up_weight row) * ucast (cardinality (up_ports row)) else w)"
  have row: "valid_range (up_ports row)" and run: "\<exists>f. check_upstreams pool mode protocol n (before @ [row]) f w1 rows = Inr (fams', w')"
    using Cons.prems(1) check_upstream_valid by (auto simp: and_then_eq_Inr Let_def w1_def)
  have "unat w + expanded_weight row < 2 ^ 64" using expanded_weight_bound [OF row] Cons.prems(2) by simp
  then have "unat w1 = unat w + expanded_weight row"
    by (cases "up_enabled row")
      (simp_all add: w1_def expanded_weight_def unat_add_no_overflow unat_weight_product [OF row])
  moreover obtain f where "check_upstreams pool mode protocol n (before @ [row]) f w1 rows = Inr (fams', w')" using run by blast
  ultimately show ?case using Cons.IH [of "before @ [row]" f w1] expanded_weight_bound [OF row] Cons.prems(2) by simp
qed simp

definition separate_endpoints :: "upstream \<Rightarrow> upstream \<Rightarrow> bool" where
  "separate_endpoints a b \<longleftrightarrow> up_id a \<noteq> up_id b
     \<and> \<not> (up_target_ip a = up_target_ip b \<and> range_overlaps (up_ports a) (up_ports b))"

lemma check_upstreams_separate:
  assumes "check_upstreams pool mode protocol n before fams w rows = Inr r" and "sorted_wrt separate_endpoints before"
  shows "sorted_wrt separate_endpoints (before @ rows) \<and> (\<forall>row\<in>set rows. valid_range (up_ports row) \<and> up_weight row > 0)"
  using assms
proof (induction rows arbitrary: before fams w)
  case (Cons row rows)
  have "check_upstream pool mode protocol n before row = Inr ()" and
    run: "\<exists>f v. check_upstreams pool mode protocol n (before @ [row]) f v rows = Inr r"
    using Cons.prems(1) by (auto simp: and_then_eq_Inr Let_def)
  then have new: "\<forall>a\<in>set before. separate_endpoints a row" and row: "valid_range (up_ports row) \<and> up_weight row > 0"
    by (auto simp: check_upstream_def and_then_eq_Inr separate_endpoints_def list_ex_iff image_iff)
  then have "sorted_wrt separate_endpoints (before @ [row])" using Cons.prems(2) by (simp add: sorted_wrt_append)
  with run row show ?case using Cons.IH [of "before @ [row]"] by auto
qed simp

lemma valid_pool_upstreams:
  assumes "validate_port_forward_pool pool mode protocol = Inr ()"
  obtains n fams w where "check_upstreams pool mode protocol n [] [] 0 (pl_upstreams pool) = Inr (fams, w)"
    and "length (pl_upstreams pool) \<le> 256" and "mode = Dnat \<Longrightarrow> w \<le> 0xFFFFFFFF"
  using assms by (auto simp: validate_port_forward_pool_def and_then_eq_Inr MAX_PORT_FORWARD_MAPPINGS_def)

text \<open>
  (C37) A valid pool lists every endpoint once, and its weights are exact: no address and port belongs to
  two rows, and the total weight of a DNAT pool, as a number and not modulo \<open>2 ^ 64\<close>, fits 32 bits.
\<close>

theorem pool_endpoints_and_weights:
  assumes "validate_port_forward_pool pool mode protocol = Inr ()"
  shows "(\<forall>i<length (pl_upstreams pool). \<forall>j<length (pl_upstreams pool). \<forall>p.
      up_target_ip (pl_upstreams pool ! i) = up_target_ip (pl_upstreams pool ! j)
      \<and> in_range p (up_ports (pl_upstreams pool ! i)) \<and> in_range p (up_ports (pl_upstreams pool ! j)) \<longrightarrow> i = j)
    \<and> (mode = Dnat \<longrightarrow> sum_list (map expanded_weight (pl_upstreams pool)) < 2 ^ 32)"
proof -
  obtain n fams w where run: "check_upstreams pool mode protocol n [] [] 0 (pl_upstreams pool) = Inr (fams, w)"
    and len: "length (pl_upstreams pool) \<le> 256" and w: "mode = Dnat \<Longrightarrow> w \<le> 0xFFFFFFFF"
    by (rule valid_pool_upstreams [OF assms]) blast
  let ?rows = "pl_upstreams pool"
  have sep: "sorted_wrt separate_endpoints ?rows" and valid: "\<forall>row\<in>set ?rows. valid_range (up_ports row)"
    using check_upstreams_separate [OF run] by simp_all
  have "i = j" if "i < length ?rows" "j < length ?rows" "up_target_ip (?rows ! i) = up_target_ip (?rows ! j)"
    "in_range p (up_ports (?rows ! i))" "in_range p (up_ports (?rows ! j))" for i j p
  proof (rule ccontr)
    assume "i \<noteq> j"
    then have "separate_endpoints (?rows ! i) (?rows ! j) \<or> separate_endpoints (?rows ! j) (?rows ! i)"
      using sep that unfolding sorted_wrt_iff_nth_less by (metis nat_neq_iff)
    then show False using that valid overlaps_iff by (metis nth_mem separate_endpoints_def)
  qed
  moreover have "sum_list (map expanded_weight ?rows) < 2 ^ 32" if "mode = Dnat"
    using check_upstreams_total [OF run] w [OF that] len by (simp add: word_le_nat_alt)
  ultimately show ?thesis by blast
qed

definition sample_upstream :: "uuid \<Rightarrow> u16 \<Rightarrow> upstream" where
  "sample_upstream i port = \<lparr>up_id = i, up_target_ip = V4 0x0A000001, up_target_hostname = None,
     up_ports = \<lparr>pr_start = port, pr_end = port\<rparr>, up_weight = 10, up_role = Primary, up_enabled = True, up_failure_policy = None\<rparr>"

definition sample_pool :: port_forward_pool where
  "sample_pool = \<lparr>pl_incoming = [\<lparr>pr_start = 8000, pr_end = 8000\<rparr>], pl_strategy = RoundRobin,
     pl_upstreams = [sample_upstream 1 80, sample_upstream 2 81], pl_connect_timeout_secs = None, pl_retry_policy = None\<rparr>"

lemma sample_pool_valid: "validate_port_forward_pool sample_pool Dnat Tcp = Inr ()"
  by (simp add: validate_port_forward_pool_def sample_pool_def sample_upstream_def pool_check_def MAX_PORT_FORWARD_MAPPINGS_def
      validate_range_def validate_non_overlapping_def sort_by_key_def sort_by_def count_endpoints_def cardinality_def
      check_upstream_def validate_target_ip_def is_unspecified_def is_loopback_def is_multicast_def is_link_local_def
      is_broadcast_def octet_def range_overlaps_def check_failure_policy_def family_of_def is_ipv4_def check_timeout_def
      check_retry_def Let_def)

theorem pool_endpoints_and_weights_witness:
  "validate_port_forward_pool sample_pool Dnat Tcp = Inr () \<and> sum_list (map expanded_weight (pl_upstreams sample_pool)) < 2 ^ 32"
  using pool_endpoints_and_weights [OF sample_pool_valid] sample_pool_valid by simp

end
