(* ===== verification/Net_Allocator.thy ===== *)
theory Net_Allocator
  imports Ip_Addr Rust_Str Sweep
begin

section \<open>Allocation of tunnel subnets\<close>

text \<open>
  \<open>common/src/network/network_allocator.rs\<close>: the first aligned free subnet of a pool, by sorting and
  merging the occupied intervals and jumping over them. Addresses are their 128-bit values. The
  \<open>ipnet\<close> crate is the record \<open>ipnet_lib\<close>, over an abstract type of networks, with the text forms of
  addresses; what the code relies on is \<open>ipnet_documented\<close>. The properties: the search returns
  the lowest free subnet and fails only when there is none, whatever the reservations; and an
  allocated pair always forms a network that touches no reservation.
\<close>

datatype network_plan_error =
    InvalidPlanIdentity
  | InvalidTunnelEndpoints
  | InvalidUnderlayAddress
  | InvalidGre6UnderlayAddress
  | InvalidInterfaceName
  | InvalidCidr
  | AddressPoolTooSmall
  | AddressPoolExhausted
  | AddressPoolRequired
  | InvalidTunnelPrefix
  | InvalidPreferredTunnelAddress
  | TunnelAddressConflict
  | InvalidReservedAddress string
  | TunnelAddressRequired
  | InvalidAdditionalAddress string
  | InvalidFouAddressFamily string
  | UnsupportedRuntimeManagerTunnelKind
  | InvalidRuntimeTunnelCommand
  | OpenvpnDirectiveOwned string
  | InvalidRuntimeTunnelConfigPath
  | RuntimeTunnelAdapterCommandRequired
  | RuntimeTunnelObservedCannotMutate
  | RuntimeTunnelTopologyRequiresAgentBuiltin
  | InvalidRuntimeTunnelTrafficLimit
  | InvalidRuntimeTunnelTopology
  | InvalidRuntimeTunnelRoute
  | InvalidBandwidthMbps
  | InvalidTunnelMtu
  | TunnelMtuRequired
  | TunnelMtuExternallyOwned
  | InvalidOspfConfig

record tunnel_address_pair =
  tp_left :: string
  tp_right :: string
  tp_prefix_len :: u8

record 'n ipnet_lib =
  parse_net :: "string \<Rightarrow> 'n option"
  new_net :: "ip_addr \<Rightarrow> u8 \<Rightarrow> 'n option"
  host_net :: "ip_addr \<Rightarrow> 'n"
  trunc :: "'n \<Rightarrow> 'n"
  net_prefix_len :: "'n \<Rightarrow> u8"
  net_first :: "'n \<Rightarrow> ip_addr"
  net_last :: "'n \<Rightarrow> ip_addr"
  net_contains :: "'n \<Rightarrow> ip_addr \<Rightarrow> bool"
  parse_ip :: "string \<Rightarrow> ip_addr option"
  show_ip :: "ip_addr \<Rightarrow> string"

type_synonym interval = "u128 \<times> u128"

definition addr_value :: "ip_addr \<Rightarrow> u128" where
  "addr_value ip = (case ip of V4 a \<Rightarrow> ucast a | V6 a \<Rightarrow> a)"

definition net_is_v4 :: "'n ipnet_lib \<Rightarrow> 'n \<Rightarrow> bool" where
  "net_is_v4 lib n = is_ipv4 (net_first lib n)"

definition network_interval :: "'n ipnet_lib \<Rightarrow> 'n \<Rightarrow> interval" where
  "network_interval lib n = (addr_value (net_first lib n), addr_value (net_last lib n))"

definition tunnel_networks_overlap :: "'n ipnet_lib \<Rightarrow> 'n \<Rightarrow> 'n \<Rightarrow> bool" where
  "tunnel_networks_overlap lib left right =
     (if net_is_v4 lib left \<noteq> net_is_v4 lib right then False
      else case (network_interval lib left, network_interval lib right) of
        ((left_start, left_end), (right_start, right_end)) \<Rightarrow> left_start \<le> right_end \<and> right_start \<le> left_end)"

definition format_address :: "'n ipnet_lib \<Rightarrow> u128 \<Rightarrow> bool \<Rightarrow> string" where
  "format_address lib value ipv4 = show_ip lib (if ipv4 then V4 (ucast value) else V6 value)"

subsection \<open>The search\<close>

unbundle bit_operations_syntax

definition host_mask :: "nat \<Rightarrow> u128" where
  "host_mask host_bits = (if host_bits = 128 then - 1 else push_bit host_bits 1 - 1)"

fun skip_occupied :: "u128 \<Rightarrow> u128 \<Rightarrow> interval list \<Rightarrow> u128 \<Rightarrow> network_plan_error + u128" where
  "skip_occupied pool_end hmask [] candidate = Inr candidate"
| "skip_occupied pool_end hmask ((s, e) # occupied) candidate =
     (if e < candidate then skip_occupied pool_end hmask occupied candidate
      else if s > (candidate OR hmask) then Inr candidate
      else case checked_add (e OR hmask) 1 of
        None \<Rightarrow> Inl AddressPoolExhausted
      | Some next \<Rightarrow>
          if next \<le> pool_end then skip_occupied pool_end hmask occupied next else Inl AddressPoolExhausted)"

definition first_free_subnet :: "u128 \<Rightarrow> u128 \<Rightarrow> u128 \<Rightarrow> interval list \<Rightarrow> network_plan_error + u128" where
  "first_free_subnet pool_start pool_end hmask occupied =
     and_then (skip_occupied pool_end hmask occupied pool_start) (\<lambda>candidate.
       if (candidate OR hmask) \<le> pool_end then Inr candidate else Inl AddressPoolExhausted)"

text \<open>The merged vector is kept with its last element in front.\<close>

definition merge_step :: "interval \<Rightarrow> interval list \<Rightarrow> interval list" where
  "merge_step iv merged =
     (case (iv, merged) of
        ((s, e), (last_start, last_end) # rest) \<Rightarrow>
          if s \<le> saturating_add last_end 1 then (last_start, max last_end e) # rest else iv # merged
      | (_, []) \<Rightarrow> [iv])"

definition merge_sorted :: "interval list \<Rightarrow> interval list" where
  "merge_sorted intervals = rev (fold merge_step intervals [])"

definition merged_intervals :: "'n ipnet_lib \<Rightarrow> 'n list \<Rightarrow> bool \<Rightarrow> interval list" where
  "merged_intervals lib networks ipv4 =
     merge_sorted (sort (map (network_interval lib) (filter (\<lambda>n. net_is_v4 lib n = ipv4) networks)))"

subsection \<open>Allocation\<close>

definition pair_network :: "'n ipnet_lib \<Rightarrow> tunnel_address_pair \<Rightarrow> bool \<Rightarrow> network_plan_error + 'n" where
  "pair_network lib pair ipv4 =
     and_then (ok_or InvalidCidr (parse_ip lib (tp_left pair))) (\<lambda>left.
     and_then (ok_or InvalidCidr (parse_ip lib (tp_right pair))) (\<lambda>right.
     if left = right \<or> is_ipv4 left \<noteq> ipv4 \<or> is_ipv4 right \<noteq> ipv4 then Inl InvalidCidr
     else and_then (ok_or InvalidCidr (new_net lib left (tp_prefix_len pair))) (\<lambda>network.
       let network = trunc lib network in
       if \<not> net_contains lib network right then Inl InvalidCidr else Inr network)))"

definition fill_preferred_pair :: "'n ipnet_lib \<Rightarrow> tunnel_address_pair \<Rightarrow> bool \<Rightarrow> network_plan_error + tunnel_address_pair" where
  "fill_preferred_pair lib pair ipv4 =
     (let left_empty = trim (tp_left pair) = []; right_empty = trim (tp_right pair) = [] in
      if \<not> left_empty \<and> \<not> right_empty then Inr pair
      else and_then (ok_or InvalidPreferredTunnelAddress (parse_ip lib (if left_empty then tp_right pair else tp_left pair))) (\<lambda>anchor.
        if is_ipv4 anchor \<noteq> ipv4 then Inl InvalidPreferredTunnelAddress
        else and_then (ok_or InvalidPreferredTunnelAddress (new_net lib anchor (tp_prefix_len pair))) (\<lambda>network.
          let start = fst (network_interval lib (trunc lib network));
              first = start + of_bool (ipv4 \<and> tp_prefix_len pair < 31);
              peer = format_address lib (first + of_bool (first = addr_value anchor)) ipv4
          in Inr \<lparr>tp_left = (if left_empty then peer else tp_left pair),
                  tp_right = (if right_empty then peer else tp_right pair), tp_prefix_len = tp_prefix_len pair\<rparr>)))"

definition resolve_preferred :: "'n ipnet_lib \<Rightarrow> u8 \<Rightarrow> tunnel_address_pair \<Rightarrow> 'n list \<Rightarrow> bool \<Rightarrow> network_plan_error + tunnel_address_pair" where
  "resolve_preferred lib prefix_len pair occupied ipv4 =
     (if tp_prefix_len pair \<noteq> prefix_len then Inl InvalidPreferredTunnelAddress
      else and_then (fill_preferred_pair lib pair ipv4) (\<lambda>pair.
        and_then (map_err (\<lambda>_. InvalidPreferredTunnelAddress) (pair_network lib pair ipv4)) (\<lambda>network.
        if list_ex (tunnel_networks_overlap lib network) occupied then Inl TunnelAddressConflict else Inr pair)))"

definition resolve_pool :: "'n ipnet_lib \<Rightarrow> string option \<Rightarrow> u8 \<Rightarrow> 'n list \<Rightarrow> bool \<Rightarrow> network_plan_error + tunnel_address_pair" where
  "resolve_pool lib pool prefix_len occupied ipv4 =
     and_then (ok_or AddressPoolRequired
       (case map_option trim pool of None \<Rightarrow> None | Some v \<Rightarrow> if v = [] then None else Some v)) (\<lambda>text.
     and_then (ok_or InvalidCidr (parse_net lib text)) (\<lambda>pool.
     let pool = trunc lib pool; width = (if ipv4 then 32 else 128) in
     if net_is_v4 lib pool \<noteq> ipv4 then Inl InvalidCidr
     else if net_prefix_len lib pool > prefix_len then Inl AddressPoolTooSmall
     else case network_interval lib pool of (pool_start, pool_end) \<Rightarrow>
       and_then (first_free_subnet pool_start pool_end (host_mask (width - unat prefix_len))
           (merged_intervals lib occupied ipv4)) (\<lambda>start.
         let left = start + of_bool (ipv4 \<and> prefix_len < 31) in
         Inr \<lparr>tp_left = format_address lib left ipv4, tp_right = format_address lib (left + 1) ipv4,
              tp_prefix_len = prefix_len\<rparr>)))"

definition resolve_family ::
    "'n ipnet_lib \<Rightarrow> string option \<Rightarrow> u8 \<Rightarrow> tunnel_address_pair option \<Rightarrow> 'n list \<Rightarrow> bool \<Rightarrow> network_plan_error + tunnel_address_pair" where
  "resolve_family lib pool prefix_len preferred occupied ipv4 =
     (if unat prefix_len \<ge> (if ipv4 then 32 else 128) then Inl InvalidTunnelPrefix
      else case preferred of
        Some pair \<Rightarrow>
          if trim (tp_left pair) \<noteq> [] \<or> trim (tp_right pair) \<noteq> []
          then resolve_preferred lib prefix_len pair occupied ipv4
          else resolve_pool lib pool prefix_len occupied ipv4
      | None \<Rightarrow> resolve_pool lib pool prefix_len occupied ipv4)"

definition parse_reservation :: "'n ipnet_lib \<Rightarrow> string \<Rightarrow> network_plan_error + 'n" where
  "parse_reservation lib text =
     (let text = trim text in
      case parse_net lib text of
        Some network \<Rightarrow> Inr (trunc lib network)
      | None \<Rightarrow>
          (case parse_ip lib text of
             Some address \<Rightarrow> Inr (host_net lib address)
           | None \<Rightarrow> Inl (InvalidReservedAddress text)))"

datatype tunnel_address_family = FamilyIpv4 | FamilyIpv6

record tunnel_endpoint_allocation =
  ta_ipv4_tunnel :: "tunnel_address_pair option"
  ta_ipv6_tunnel :: "tunnel_address_pair option"
  ta_latency_primary_family :: tunnel_address_family

record allocation_options =
  opt_include_ipv4 :: bool
  opt_include_ipv6 :: bool
  opt_ipv4_prefix_len :: u8
  opt_ipv6_prefix_len :: u8
  opt_preferred_ipv4 :: "tunnel_address_pair option"
  opt_preferred_ipv6 :: "tunnel_address_pair option"

definition default_allocation_options :: allocation_options where
  "default_allocation_options = \<lparr>opt_include_ipv4 = True, opt_include_ipv6 = False, opt_ipv4_prefix_len = 31,
     opt_ipv6_prefix_len = 127, opt_preferred_ipv4 = None, opt_preferred_ipv6 = None\<rparr>"

definition allocate_tunnel_endpoints_with_options ::
    "'n ipnet_lib \<Rightarrow> string option \<Rightarrow> string option \<Rightarrow> string list \<Rightarrow> allocation_options
      \<Rightarrow> network_plan_error + tunnel_endpoint_allocation" where
  "allocate_tunnel_endpoints_with_options lib ipv4_pool_cidr ipv6_pool_cidr reserved_addresses options =
     (if \<not> opt_include_ipv4 options \<and> \<not> opt_include_ipv6 options then Inl TunnelAddressRequired
      else and_then (try_map (parse_reservation lib) reserved_addresses) (\<lambda>occupied.
        and_then
          (if opt_include_ipv4 options
           then and_then (resolve_family lib ipv4_pool_cidr (opt_ipv4_prefix_len options) (opt_preferred_ipv4 options) occupied True) (Inr \<circ> Some)
           else Inr None) (\<lambda>ipv4_tunnel.
        and_then
          (if opt_include_ipv6 options
           then and_then (resolve_family lib ipv6_pool_cidr (opt_ipv6_prefix_len options) (opt_preferred_ipv6 options) occupied False) (Inr \<circ> Some)
           else Inr None) (\<lambda>ipv6_tunnel.
        Inr \<lparr>ta_ipv4_tunnel = ipv4_tunnel, ta_ipv6_tunnel = ipv6_tunnel,
             ta_latency_primary_family = (if ipv4_tunnel \<noteq> None then FamilyIpv4 else FamilyIpv6)\<rparr>))))"

definition allocate_tunnel_endpoints ::
    "'n ipnet_lib \<Rightarrow> string option \<Rightarrow> string option \<Rightarrow> string list \<Rightarrow> bool \<Rightarrow> bool \<Rightarrow> network_plan_error + tunnel_endpoint_allocation" where
  "allocate_tunnel_endpoints lib ipv4_pool_cidr ipv6_pool_cidr reserved_addresses include_ipv4 include_ipv6 =
     allocate_tunnel_endpoints_with_options lib ipv4_pool_cidr ipv6_pool_cidr reserved_addresses
       (default_allocation_options\<lparr>opt_include_ipv4 := include_ipv4, opt_include_ipv6 := include_ipv6\<rparr>)"

text \<open>The networks a plan reserves globally: its main pairs, without interface-local networks.\<close>

definition is_link_local_network :: "'n ipnet_lib \<Rightarrow> 'n \<Rightarrow> bool" where
  "is_link_local_network lib network \<longleftrightarrow>
     \<not> net_is_v4 lib network \<and> net_prefix_len lib network \<ge> 10 \<and> is_link_local (net_first lib network)"

definition tunnel_plan_global_networks ::
    "'n ipnet_lib \<Rightarrow> tunnel_address_pair option \<Rightarrow> tunnel_address_pair option \<Rightarrow> network_plan_error + 'n list" where
  "tunnel_plan_global_networks lib ipv4_tunnel ipv6_tunnel =
     and_then (case ipv4_tunnel of None \<Rightarrow> Inr [] | Some pair \<Rightarrow> and_then (pair_network lib pair True) (\<lambda>n. Inr [n])) (\<lambda>v4.
     and_then (case ipv6_tunnel of None \<Rightarrow> Inr [] | Some pair \<Rightarrow> and_then (pair_network lib pair False) (\<lambda>n. Inr [n])) (\<lambda>v6.
     Inr (filter (\<lambda>n. \<not> is_link_local_network lib n) (v4 @ v6))))"

end
