(* ===== verification/Net_Safety.thy ===== *)
theory Net_Safety
  imports Net_Allocator
begin

section \<open>Properties of the subnet allocation\<close>

text \<open>
  The search is followed on natural numbers: a subnet of \<open>2 ^ k\<close> addresses is a block, \<open>x OR mask\<close> is
  the last address of the block of \<open>x\<close>. The two properties: the search is exact for every list of
  reservations, and what is allocated is a network without conflicts.
\<close>

unbundle bit_operations_syntax

subsection \<open>Blocks\<close>

lemma nat_or_mask: "(n :: nat) OR mask k = n div 2 ^ k * 2 ^ k + (2 ^ k - 1)"
proof -
  have "n OR mask k = push_bit k (drop_bit k n) OR mask k"
    by (rule bit_eqI) (auto simp: bit_or_iff bit_mask_iff bit_push_bit_iff bit_drop_bit_eq)
  also have "\<dots> = push_bit k (drop_bit k n) + mask k"
    by (rule disjunctive_add [symmetric]) (auto simp: bit_mask_iff bit_push_bit_iff)
  finally show ?thesis by (simp add: push_bit_eq_mult drop_bit_eq_div mask_eq_exp_minus_1)
qed

lemma host_mask_eq: "k \<le> 128 \<Longrightarrow> host_mask k = mask k"
  by (auto simp: host_mask_def mask_eq_exp_minus_1 push_bit_eq_mult)

lemma unat_or_host_mask:
  assumes "k \<le> 128"
  shows "Suc (unat (x OR host_mask k)) = Suc (unat x div 2 ^ k) * 2 ^ k"
proof -
  have "unat (mask k :: u128) = mask k" using assms by (simp add: unat_eq_nat_uint uint_mask_eq nat_mask_eq min_def)
  then have "unat (x OR host_mask k) = unat x div 2 ^ k * 2 ^ k + (2 ^ k - 1)"
    using assms by (simp add: host_mask_eq unsigned_or_eq nat_or_mask)
  then show ?thesis using zero_less_power [of "2 :: nat" k] by simp
qed

text \<open>Comparing with the last address of a block, and the start of the next one.\<close>

lemma le_block_end: "k \<le> 128 \<Longrightarrow> y \<le> x OR host_mask k \<longleftrightarrow> unat y < Suc (unat x div 2 ^ k) * 2 ^ k"
  unfolding word_le_nat_alt less_Suc_eq_le [symmetric] by (simp only: unat_or_host_mask)

lemma block_end_le: "k \<le> 128 \<Longrightarrow> x OR host_mask k \<le> y \<longleftrightarrow> Suc (unat x div 2 ^ k) * 2 ^ k \<le> Suc (unat y)"
  unfolding word_le_nat_alt by (metis Suc_le_mono unat_or_host_mask)

lemma next_block:
  assumes "k \<le> 128" and "checked_add (e OR host_mask k) 1 = Some c"
  shows "unat c = Suc (unat e div 2 ^ k) * 2 ^ k"
  using assms unat_or_host_mask [OF assms(1), of e] by (auto simp: checked_add_Some unat_add_no_overflow)

lemma block_end_mono: "k \<le> 128 \<Longrightarrow> c \<le> d \<Longrightarrow> c OR host_mask k \<le> d OR host_mask k"
  by (simp only: block_end_le unat_or_host_mask) (simp add: div_le_mono word_le_nat_alt)

lemma aligned_block: "2 ^ k dvd (c :: nat) \<Longrightarrow> c < Suc (n div 2 ^ k) * 2 ^ k \<longleftrightarrow> c div 2 ^ k \<le> n div 2 ^ k"
proof -
  assume "2 ^ k dvd c"
  then obtain b where b: "c = b * 2 ^ k" by (metis dvd_def mult.commute)
  show ?thesis unfolding b mult_less_cancel2 by (simp add: less_Suc_eq_le)
qed

lemma aligned_div_le: "2 ^ k dvd (c :: nat) \<Longrightarrow> c div 2 ^ k \<le> n div 2 ^ k \<longleftrightarrow> c \<le> n"
  by (auto simp: dvd_def div_le_mono less_eq_div_iff_mult_less_eq mult.commute)

subsection \<open>The search is exact\<close>

definition subnet_free :: "nat \<Rightarrow> u128 \<Rightarrow> u128 \<Rightarrow> interval list \<Rightarrow> u128 \<Rightarrow> bool" where
  "subnet_free k pool_start pool_end occupied c \<longleftrightarrow>
     2 ^ k dvd unat c \<and> pool_start \<le> c \<and> c OR host_mask k \<le> pool_end
     \<and> (\<forall>(s, e)\<in>set occupied. \<not> (s \<le> c OR host_mask k \<and> c \<le> e))"

lemma skip_occupied_sound:
  assumes "k \<le> 128" and "skip_occupied pool_end (host_mask k) occupied c = Inr d"
    and "sorted (map fst occupied)" and "2 ^ k dvd unat c"
  shows "2 ^ k dvd unat d \<and> c \<le> d \<and> (\<forall>(s, e)\<in>set occupied. \<not> (s \<le> d OR host_mask k \<and> d \<le> e))"
  using assms(2-4)
proof (induction occupied arbitrary: c)
  case (Cons iv occupied)
  obtain s e where iv: "iv = (s, e)" by (cases iv)
  consider (before) "e < c" | (after) "\<not> e < c" "s > (c OR host_mask k)" | (hit) "\<not> e < c" "\<not> s > (c OR host_mask k)"
    by blast
  then show ?case
  proof cases
    case before
    then have "2 ^ k dvd unat d \<and> c \<le> d \<and> (\<forall>(s, e)\<in>set occupied. \<not> (s \<le> d OR host_mask k \<and> d \<le> e))"
      using Cons iv by simp
    then show ?thesis using before iv by auto
  next
    case after
    then have "d = c" using Cons.prems(1) iv by simp
    then show ?thesis using after iv Cons.prems by fastforce
  next
    case hit
    then obtain c1 where c1: "checked_add (e OR host_mask k) 1 = Some c1"
      and run: "skip_occupied pool_end (host_mask k) occupied c1 = Inr d"
      using Cons.prems(1) iv by (auto split: option.splits if_splits)
    have nxt: "unat c1 = Suc (unat e div 2 ^ k) * 2 ^ k" by (rule next_block [OF assms(1) c1])
    then have "2 ^ k dvd unat c1" and "unat e < unat c1"
      by (simp_all add: dividend_less_div_times)
    moreover have "2 ^ k dvd unat d \<and> c1 \<le> d \<and> (\<forall>(s, e)\<in>set occupied. \<not> (s \<le> d OR host_mask k \<and> d \<le> e))"
      using Cons.IH [OF run] Cons.prems(2) calculation iv by simp
    ultimately show ?thesis using hit iv by (auto simp: word_le_nat_alt word_less_nat_alt not_less)
  qed
qed simp

definition conflicts :: "nat \<Rightarrow> interval list \<Rightarrow> u128 \<Rightarrow> bool" where
  "conflicts k occupied x \<longleftrightarrow> (\<exists>(s, e)\<in>set occupied. s \<le> x OR host_mask k \<and> x \<le> e)"

text \<open>A jump passes only over subnets that conflict with the interval that causes it.\<close>

lemma jump_conflicts:
  assumes "k \<le> 128" and "2 ^ k dvd unat x" and "c \<le> x" and "\<not> s > (c OR host_mask k)" and "x \<le> e OR host_mask k"
  shows "conflicts k ((s, e) # occupied) x"
proof -
  have "unat x \<le> unat e"
    using assms by (simp only: le_block_end aligned_block aligned_div_le)
  moreover have "c OR host_mask k \<le> x OR host_mask k" by (rule block_end_mono [OF assms(1,3)])
  then have "s \<le> x OR host_mask k" using assms(4) by (simp add: not_less)
  ultimately show ?thesis by (simp add: conflicts_def word_le_nat_alt)
qed

fun passed :: "u128 \<Rightarrow> network_plan_error + u128 \<Rightarrow> u128 \<Rightarrow> bool" where
  "passed pool_end (Inr d) x = (x < d)"
| "passed pool_end (Inl err) x = (x \<le> pool_end)"

lemma skip_occupied_complete:
  assumes "k \<le> 128" and "2 ^ k dvd unat x"
  shows "c \<le> x \<Longrightarrow> passed pool_end (skip_occupied pool_end (host_mask k) occupied c) x \<Longrightarrow> conflicts k occupied x"
proof (induction occupied arbitrary: c)
  case (Cons iv occupied)
  obtain s e where iv: "iv = (s, e)" by (cases iv)
  have more: "conflicts k occupied x \<Longrightarrow> conflicts k (iv # occupied) x" by (auto simp: conflicts_def)
  consider (before) "e < c" | (after) "\<not> e < c" "s > (c OR host_mask k)" | (hit) "\<not> e < c" "\<not> s > (c OR host_mask k)"
    by blast
  then show ?case
  proof cases
    case before
    then show ?thesis using Cons more iv by simp
  next
    case after
    then show ?thesis using Cons.prems iv by simp
  next
    case hit
    have jump: "conflicts k (iv # occupied) x" if "x \<le> e OR host_mask k"
      unfolding iv using assms Cons.prems(1) that hit by (intro jump_conflicts)
    show ?thesis
    proof (cases "checked_add (e OR host_mask k) 1")
      case None
      then have "\<not> unat (e OR host_mask k) + 1 < 2 ^ 128" by (simp add: checked_add_def split: if_splits)
      then have "x \<le> e OR host_mask k" using unat_le_max [of x] unfolding word_le_nat_alt by simp
      then show ?thesis by (rule jump)
    next
      case (Some c1)
      then have "unat c1 = Suc (unat (e OR host_mask k))" by (simp add: checked_add_Some unat_add_no_overflow)
      then have c1: "x < c1 \<longleftrightarrow> x \<le> e OR host_mask k"
        by (simp only: word_le_nat_alt word_less_nat_alt less_Suc_eq_le)
      show ?thesis
      proof (cases "x < c1")
        case True
        then show ?thesis using c1 jump by simp
      next
        case False
        then have "c1 \<le> x" by simp
        then show ?thesis using Cons.IH [of c1] Cons.prems(2) hit Some more iv by (cases "c1 \<le> pool_end") auto
      qed
    qed
  qed
qed simp

lemma skip_occupied_error: "skip_occupied pool_end hmask occupied c = Inl err \<Longrightarrow> err = AddressPoolExhausted"
  by (induction occupied arbitrary: c) (auto split: if_splits option.splits)

lemma first_free_subnet_exact:
  assumes "k \<le> 128" and "2 ^ k dvd unat pool_start" and "sorted (map fst occupied)"
  shows "case first_free_subnet pool_start pool_end (host_mask k) occupied of
      Inr c \<Rightarrow> subnet_free k pool_start pool_end occupied c \<and> (\<forall>x. subnet_free k pool_start pool_end occupied x \<longrightarrow> c \<le> x)
    | Inl err \<Rightarrow> err = AddressPoolExhausted \<and> (\<nexists>x. subnet_free k pool_start pool_end occupied x)"
proof -
  have free: "subnet_free k pool_start pool_end occupied x \<longleftrightarrow>
      2 ^ k dvd unat x \<and> pool_start \<le> x \<and> x OR host_mask k \<le> pool_end \<and> \<not> conflicts k occupied x" for x
    by (auto simp: subnet_free_def conflicts_def)
  have up: "x \<le> x OR host_mask k" for x by (simp only: le_block_end [OF assms(1)]) (simp add: dividend_less_div_times)
  note complete = skip_occupied_complete [OF assms(1), where pool_end = pool_end and occupied = occupied and c = pool_start]
  show ?thesis
  proof (cases "skip_occupied pool_end (host_mask k) occupied pool_start")
    case (Inl err)
    have "\<not> subnet_free k pool_start pool_end occupied x" for x
      using complete [of x] order_trans [OF up, of x pool_end] by (auto simp: Inl free)
    then show ?thesis using Inl skip_occupied_error [OF Inl] by (simp add: first_free_subnet_def)
  next
    case (Inr d)
    have sound: "2 ^ k dvd unat d \<and> pool_start \<le> d \<and> \<not> conflicts k occupied d"
      using skip_occupied_sound [OF assms(1) Inr assms(3,2)] by (auto simp: conflicts_def)
    have low: "d \<le> x" if "subnet_free k pool_start pool_end occupied x" for x
      using complete [of x] that by (auto simp: Inr free not_less [symmetric])
    have "d OR host_mask k \<le> pool_end" if "subnet_free k pool_start pool_end occupied x" for x
      using order_trans [OF block_end_mono [OF assms(1) low [OF that]]] that by (simp add: free)
    then show ?thesis using Inr sound low by (auto simp: first_free_subnet_def free)
  qed
qed

subsection \<open>Merging changes nothing\<close>

definition hits :: "u128 \<Rightarrow> u128 \<Rightarrow> interval list \<Rightarrow> bool" where
  "hits a b ivs \<longleftrightarrow> (\<exists>(s, e)\<in>set ivs. s \<le> b \<and> a \<le> e)"

lemma hits_Cons: "hits a b ((s, e) # ivs) \<longleftrightarrow> s \<le> b \<and> a \<le> e \<or> hits a b ivs"
  by (simp add: hits_def)

lemma above_saturated:
  fixes s l a :: u128
  assumes "s \<le> saturating_add l 1" and "l < a"
  shows "s \<le> a"
  using assms unat_saturating_add [of l 1] unfolding word_le_nat_alt word_less_nat_alt by simp

lemma merge_step_hits:
  assumes "a \<le> b" and "s \<le> e" and "\<forall>(l, r)\<in>set merged. l \<le> s"
  shows "hits a b (merge_step (s, e) merged) \<longleftrightarrow> s \<le> b \<and> a \<le> e \<or> hits a b merged"
proof (cases merged)
  case (Cons iv rest)
  obtain l r where iv: "iv = (l, r)" by (cases iv)
  show ?thesis
  proof (cases "s \<le> saturating_add r 1")
    case True
    have "l \<le> b \<and> a \<le> max r e \<longleftrightarrow> (s \<le> b \<and> a \<le> e) \<or> l \<le> b \<and> a \<le> r"
      using above_saturated [OF True, of a] order_trans [of s a b] assms iv Cons by (auto simp: le_max_iff_disj not_le)
    then show ?thesis using True Cons iv by (auto simp: merge_step_def hits_Cons)
  qed (auto simp: merge_step_def Cons iv hits_Cons)
qed (simp add: merge_step_def hits_def)

lemma merge_step_starts:
  "set (map fst (merge_step (s, e) merged)) \<subseteq> insert s (set (map fst merged))"
  "\<forall>l\<in>set (map fst merged). l \<le> s \<Longrightarrow> sorted (rev (map fst merged)) \<Longrightarrow> sorted (rev (map fst (merge_step (s, e) merged)))"
  by (fastforce simp: merge_step_def sorted_append split: list.splits if_splits)+

lemma fold_merge_hits:
  assumes "a \<le> b" and "\<forall>(s, e)\<in>set ivs. s \<le> e" and "sorted (map fst ivs)"
    and "\<forall>l\<in>set (map fst merged). \<forall>s\<in>set (map fst ivs). l \<le> s" and "sorted (rev (map fst merged))"
  shows "(hits a b (fold merge_step ivs merged) \<longleftrightarrow> hits a b ivs \<or> hits a b merged)
    \<and> sorted (rev (map fst (fold merge_step ivs merged)))"
  using assms(2-)
proof (induction ivs arbitrary: merged)
  case (Cons iv ivs)
  obtain s e where iv: "iv = (s, e)" by (cases iv)
  have low: "\<forall>l\<in>set (map fst merged). l \<le> s" using Cons.prems(3) iv by auto
  have "\<forall>l\<in>set (map fst (merge_step iv merged)). \<forall>s\<in>set (map fst ivs). l \<le> s"
    using merge_step_starts(1) [of s e merged] Cons.prems(2,3) iv by fastforce
  then have "(hits a b (fold merge_step ivs (merge_step iv merged)) \<longleftrightarrow> hits a b ivs \<or> hits a b (merge_step iv merged))
      \<and> sorted (rev (map fst (fold merge_step ivs (merge_step iv merged))))"
    using Cons merge_step_starts(2) [OF low] iv by simp
  moreover have "hits a b (merge_step iv merged) \<longleftrightarrow> s \<le> b \<and> a \<le> e \<or> hits a b merged"
    unfolding iv using Cons.prems(1) low iv by (intro merge_step_hits assms(1)) auto
  ultimately show ?case by (auto simp: iv hits_Cons)
qed (simp add: hits_def)

lemma merge_sorted_hits:
  assumes "\<forall>(s, e)\<in>set ivs. s \<le> e"
  shows "a \<le> b \<Longrightarrow> hits a b (merge_sorted (sort ivs)) \<longleftrightarrow> hits a b ivs" and "sorted (map fst (merge_sorted (sort ivs)))"
proof -
  have starts: "sorted (map fst (sort ivs))"
    unfolding sorted_map by (rule sorted_wrt_mono_rel [OF _ sorted_sort]) (auto simp: less_eq_prod_def)
  have ivs: "\<forall>(s, e)\<in>set (sort ivs). s \<le> e" using assms by simp
  show "a \<le> b \<Longrightarrow> hits a b (merge_sorted (sort ivs)) \<longleftrightarrow> hits a b ivs"
    using fold_merge_hits [OF _ ivs starts, of a b "[]"] by (simp add: merge_sorted_def) (simp add: hits_def)
  show "sorted (map fst (merge_sorted (sort ivs)))"
    using fold_merge_hits [OF order_refl ivs starts, of "[]"] by (simp add: merge_sorted_def rev_map)
qed

lemma subnet_free_hits:
  "subnet_free k pool_start pool_end ivs c \<longleftrightarrow> 2 ^ k dvd unat c \<and> pool_start \<le> c \<and> c OR host_mask k \<le> pool_end
     \<and> \<not> hits c (c OR host_mask k) ivs"
  by (auto simp: subnet_free_def hits_def)

lemma le_or_host_mask: "k \<le> 128 \<Longrightarrow> x \<le> x OR host_mask k"
  by (simp only: le_block_end) (simp add: dividend_less_div_times)

lemma search_exact:
  assumes "k \<le> 128" and "2 ^ k dvd unat pool_start" and "\<forall>(s, e)\<in>set ivs. s \<le> e"
  shows "case first_free_subnet pool_start pool_end (host_mask k) (merge_sorted (sort ivs)) of
      Inr c \<Rightarrow> subnet_free k pool_start pool_end ivs c \<and> (\<forall>x. subnet_free k pool_start pool_end ivs x \<longrightarrow> c \<le> x)
    | Inl err \<Rightarrow> err = AddressPoolExhausted \<and> (\<nexists>x. subnet_free k pool_start pool_end ivs x)"
proof -
  have "subnet_free k pool_start pool_end (merge_sorted (sort ivs)) x \<longleftrightarrow> subnet_free k pool_start pool_end ivs x" for x
    by (simp add: subnet_free_hits merge_sorted_hits(1) [OF assms(3) le_or_host_mask [OF assms(1)]])
  with first_free_subnet_exact [OF assms(1,2) merge_sorted_hits(2) [OF assms(3)], of pool_end]
  show ?thesis by (simp only:)
qed

text \<open>
  (C31) The allocator finds the lowest free subnet: whatever the reservations, in any order and
  overlapping or not, the search over their sorted and merged intervals returns the lowest aligned
  subnet of the pool that touches none of them, and reports exhaustion only when there is none.
\<close>

theorem lowest_free_subnet:
  assumes "k \<le> 128" and "2 ^ k dvd unat pool_start" and "\<forall>(s, e)\<in>set ivs. s \<le> e"
  shows "case first_free_subnet pool_start pool_end (host_mask k) (merge_sorted (sort ivs)) of
      Inr c \<Rightarrow> subnet_free k pool_start pool_end ivs c \<and> (\<forall>x. subnet_free k pool_start pool_end ivs x \<longrightarrow> c \<le> x)
    | Inl err \<Rightarrow> err = AddressPoolExhausted \<and> (\<nexists>x. subnet_free k pool_start pool_end ivs x)"
  using assms by (rule search_exact)

theorem lowest_free_subnet_witness:
  "first_free_subnet 0 255 (host_mask 1) (merge_sorted (sort [(4, 9), (0, 3)])) = Inr 10
     \<and> subnet_free 1 0 255 [(4, 9), (0, 3)] 10"
proof -
  have "first_free_subnet 0 255 (host_mask 1) (merge_sorted (sort [(4, 9), (0, 3)])) = Inr 10"
    by (simp add: first_free_subnet_def host_mask_def merge_sorted_def merge_step_def saturating_add_def checked_add_def
        less_prod_simp less_eq_prod_simp max_def)
  then show ?thesis using lowest_free_subnet [of 1 0 "[(4, 9), (0, 3)]" 255] by simp
qed

subsection \<open>Allocated pairs\<close>

definition width_of :: "ip_addr \<Rightarrow> nat" where
  "width_of ip = (if is_ipv4 ip then 32 else 128)"

text \<open>
  What the allocation relies on: networks are aligned blocks of their prefix length, truncation keeps
  them, a network made from an address holds this address, and printed addresses are parsed back.
\<close>

definition ipnet_documented :: "'n ipnet_lib \<Rightarrow> bool" where
  "ipnet_documented lib \<longleftrightarrow>
     (\<forall>n. net_first lib (trunc lib n) = net_first lib n \<and> net_last lib (trunc lib n) = net_last lib n
        \<and> net_prefix_len lib (trunc lib n) = net_prefix_len lib n)
     \<and> (\<forall>n. unat (net_prefix_len lib n) \<le> width_of (net_first lib n)
        \<and> 2 ^ (width_of (net_first lib n) - unat (net_prefix_len lib n)) dvd unat (addr_value (net_first lib n))
        \<and> is_ipv4 (net_last lib n) = is_ipv4 (net_first lib n)
        \<and> addr_value (net_last lib n) =
            addr_value (net_first lib n) OR host_mask (width_of (net_first lib n) - unat (net_prefix_len lib n)))
     \<and> (\<forall>a p. unat p \<le> width_of a \<longrightarrow> (\<exists>n. new_net lib a p = Some n \<and> net_prefix_len lib n = p
        \<and> is_ipv4 (net_first lib n) = is_ipv4 a
        \<and> addr_value (net_first lib n) \<le> addr_value a \<and> addr_value a \<le> addr_value (net_last lib n)))
     \<and> (\<forall>n a. net_contains lib n a \<longleftrightarrow> is_ipv4 (net_first lib n) = is_ipv4 a
        \<and> addr_value (net_first lib n) \<le> addr_value a \<and> addr_value a \<le> addr_value (net_last lib n))
     \<and> (\<forall>a. parse_ip lib (show_ip lib a) = Some a)"

lemma host_address:
  assumes "k \<le> 128" and "2 ^ k dvd unat c" and "unat j < 2 ^ k"
  shows "unat (c + j) = unat c + unat j" and "c + j \<le> c OR host_mask k"
proof -
  have "Suc (unat (c OR host_mask k)) = unat c + 2 ^ k"
    using unat_or_host_mask [OF assms(1), of c] assms(2) by simp
  then have fits: "unat c + unat j \<le> unat (c OR host_mask k)" using assms(3) by simp
  then show sum: "unat (c + j) = unat c + unat j"
    using unat_le_max [of "c OR host_mask k"] by (intro unat_add_no_overflow) simp
  show "c + j \<le> c OR host_mask k" using fits sum by (simp add: word_le_nat_alt)
qed

text \<open>An aligned block is determined by any of its addresses.\<close>

lemma block_unique:
  assumes "k \<le> 128" and "2 ^ k dvd unat c" "2 ^ k dvd unat d" and "c \<le> x" "x \<le> c OR host_mask k" and "d \<le> x" "x \<le> d OR host_mask k"
  shows "c = d"
proof -
  have "unat c div 2 ^ k = unat x div 2 ^ k" if "2 ^ k dvd unat c" "c \<le> x" "x \<le> c OR host_mask k" for c
  proof (rule antisym)
    show "unat c div 2 ^ k \<le> unat x div 2 ^ k" using that(2) by (simp add: word_le_nat_alt div_le_mono)
    have "unat x < Suc (unat c div 2 ^ k) * 2 ^ k" using that(3) le_block_end [OF assms(1)] by blast
    then show "unat x div 2 ^ k \<le> unat c div 2 ^ k" by (metis less_Suc_eq_le less_mult_imp_div_less)
  qed
  then have "unat c div 2 ^ k = unat d div 2 ^ k" using assms by metis
  then have "unat c = unat d" using assms(2,3) by (metis dvd_div_mult_self)
  then show ?thesis by (simp only: word_unat_eq_iff)
qed

lemma ucast_round: "unat (v :: u128) < 2 ^ 32 \<Longrightarrow> ucast (ucast v :: u32) = v"
proof -
  assume "unat v < 2 ^ 32"
  then have "unat (ucast (ucast v :: u32) :: u128) = unat v"
    by (simp add: unsigned_ucast_eq unsigned_take_bit_eq take_bit_nat_eq_self_iff)
  then show ?thesis by (simp only: word_unat_eq_iff)
qed

lemma format_parses:
  assumes "ipnet_documented lib" and "ipv4 \<Longrightarrow> unat v < 2 ^ 32"
  shows "\<exists>a. parse_ip lib (format_address lib v ipv4) = Some a \<and> is_ipv4 a = ipv4 \<and> addr_value a = v"
  using assms by (auto simp: ipnet_documented_def format_address_def is_ipv4_def addr_value_def ucast_round)

text \<open>The documented facts one by one.\<close>

lemma net_trunc:
  assumes "ipnet_documented lib"
  shows "net_first lib (trunc lib n) = net_first lib n" and "net_last lib (trunc lib n) = net_last lib n"
    and "net_prefix_len lib (trunc lib n) = net_prefix_len lib n"
  using assms unfolding ipnet_documented_def by blast+

lemma net_block:
  assumes "ipnet_documented lib" and "k = width_of (net_first lib n) - unat (net_prefix_len lib n)"
  shows "2 ^ k dvd unat (addr_value (net_first lib n))" and "is_ipv4 (net_last lib n) = is_ipv4 (net_first lib n)"
    and "addr_value (net_last lib n) = addr_value (net_first lib n) OR host_mask k"
  using assms(1) unfolding ipnet_documented_def assms(2) by blast+

lemma net_new:
  assumes "ipnet_documented lib" and "unat p \<le> width_of a"
  obtains n where "new_net lib a p = Some n" and "net_prefix_len lib n = p" and "is_ipv4 (net_first lib n) = is_ipv4 a"
    and "addr_value (net_first lib n) \<le> addr_value a" and "addr_value a \<le> addr_value (net_last lib n)"
  using assms unfolding ipnet_documented_def by blast

lemma net_contains_iff:
  assumes "ipnet_documented lib"
  shows "net_contains lib n a \<longleftrightarrow> is_ipv4 (net_first lib n) = is_ipv4 a
    \<and> addr_value (net_first lib n) \<le> addr_value a \<and> addr_value a \<le> addr_value (net_last lib n)"
  using assms unfolding ipnet_documented_def by blast

lemma width_le: "width_of a \<le> 128"
  by (simp add: width_of_def)

lemma unat_widen: "unat (ucast (a :: u32) :: u128) = unat a"
  using unat_le_max [of a] by (simp add: unsigned_ucast_eq take_bit_nat_eq_self_iff)

lemma net_interval_block:
  assumes doc: "ipnet_documented lib"
  shows "fst (network_interval lib n) \<le> snd (network_interval lib n)"
    and "net_is_v4 lib n \<Longrightarrow> unat (snd (network_interval lib n)) < 2 ^ 32"
proof -
  define k where "k = width_of (net_first lib n) - unat (net_prefix_len lib n)"
  have "k \<le> 128" using width_le [of "net_first lib n"] by (simp add: k_def)
  then show "fst (network_interval lib n) \<le> snd (network_interval lib n)"
    unfolding network_interval_def fst_conv snd_conv net_block(3) [OF doc k_def] by (rule le_or_host_mask)
  assume v4: "net_is_v4 lib n"
  then have "is_ipv4 (net_last lib n)" unfolding net_is_v4_def net_block(2) [OF doc k_def] .
  then obtain a where "net_last lib n = V4 a" by (cases "net_last lib n") (auto simp: is_ipv4_def)
  then show "unat (snd (network_interval lib n)) < 2 ^ 32"
    using unat_le_max [of a] by (simp add: network_interval_def addr_value_def unat_widen)
qed

text \<open>Two different addresses of a block, as a pair, make a network with the interval of the block.\<close>

lemma pair_network_block:
  assumes doc: "ipnet_documented lib" and p: "unat prefix_len < (if ipv4 then 32 else 128)"
    and k: "k = (if ipv4 then 32 else 128) - unat prefix_len"
    and c: "2 ^ k dvd unat c" "c \<le> l" "l \<le> c OR host_mask k" "c \<le> r" "r \<le> c OR host_mask k" "l \<noteq> r"
    and v4: "ipv4 \<Longrightarrow> unat (c OR host_mask k) < 2 ^ 32"
  shows "\<exists>n. pair_network lib \<lparr>tp_left = format_address lib l ipv4, tp_right = format_address lib r ipv4, tp_prefix_len = prefix_len\<rparr> ipv4 = Inr n
    \<and> net_is_v4 lib n = ipv4 \<and> network_interval lib n = (c, c OR host_mask k)"
proof -
  have k128: "k \<le> 128" using k by auto
  have small: "unat l < 2 ^ 32" "unat r < 2 ^ 32" if ipv4
    using v4 [OF that] c(3,5) unfolding word_le_nat_alt by simp_all
  obtain a where a: "parse_ip lib (format_address lib l ipv4) = Some a" "is_ipv4 a = ipv4" "addr_value a = l"
    using format_parses [OF doc small(1)] by blast
  obtain b where b: "parse_ip lib (format_address lib r ipv4) = Some b" "is_ipv4 b = ipv4" "addr_value b = r"
    using format_parses [OF doc small(2)] by blast
  have "unat prefix_len \<le> width_of a" using p a(2) by (auto simp: width_of_def split: if_splits)
  then obtain n where n: "new_net lib a prefix_len = Some n" "net_prefix_len lib n = prefix_len"
      "is_ipv4 (net_first lib n) = ipv4" "addr_value (net_first lib n) \<le> l" "l \<le> addr_value (net_last lib n)"
    by (rule net_new [OF doc]) (use a in simp)
  have kn: "k = width_of (net_first lib n) - unat (net_prefix_len lib n)" using k n(2,3) by (simp add: width_of_def)
  note block = net_block(1,3) [OF doc kn]
  have first: "addr_value (net_first lib n) = c"
    by (rule block_unique [OF k128 block(1) c(1), of l]) (use n block c in simp_all)
  note trunc = net_trunc(1,2) [OF doc, of n]
  have "net_contains lib (trunc lib n) b"
    unfolding net_contains_iff [OF doc] trunc using n(3) b first block(2) c by simp
  moreover have "a \<noteq> b" using a b c(6) by auto
  ultimately have "pair_network lib \<lparr>tp_left = format_address lib l ipv4, tp_right = format_address lib r ipv4, tp_prefix_len = prefix_len\<rparr> ipv4
      = Inr (trunc lib n)"
    using a b n(1) by (simp add: pair_network_def Let_def)
  then show ?thesis using trunc n(3) first block(2) by (simp add: net_is_v4_def network_interval_def)
qed

lemma overlap_hits:
  assumes "net_is_v4 lib n = ipv4" and "network_interval lib n = (a, b)"
    and "\<not> hits a b (map (network_interval lib) (filter (\<lambda>n. net_is_v4 lib n = ipv4) occupied))" and "r \<in> set occupied"
  shows "\<not> tunnel_networks_overlap lib n r"
proof
  assume over: "tunnel_networks_overlap lib n r"
  obtain s e where r: "network_interval lib r = (s, e)" by fastforce
  have "net_is_v4 lib r = ipv4" "a \<le> e" "s \<le> b"
    using over assms(1,2) r by (auto simp: tunnel_networks_overlap_def split: if_splits)
  then have "hits a b (map (network_interval lib) (filter (\<lambda>n. net_is_v4 lib n = ipv4) occupied))"
    using assms(4) r by (force simp: hits_def)
  then show False using assms(3) by simp
qed

text \<open>The two addresses the allocator takes from a free block.\<close>

lemma chosen_addresses:
  assumes "k \<le> 128" and "2 ^ k dvd unat c" and "1 \<le> k" and "f \<Longrightarrow> 2 \<le> k" and "l = c + of_bool f"
  shows "c \<le> l" "l \<le> c OR host_mask k" "c \<le> l + 1" "l + 1 \<le> c OR host_mask k" "l \<noteq> l + 1"
proof -
  have two: "2 \<le> (2 :: nat) ^ k" using power_increasing [OF assms(3), of "2 :: nat"] by simp
  have four: "4 \<le> (2 :: nat) ^ k" if f using power_increasing [OF assms(4) [OF that], of "2 :: nat"] by simp
  have big: "unat (of_bool f :: u128) < 2 ^ k" using two by (cases f) simp_all
  have big1: "unat (of_bool f + 1 :: u128) < 2 ^ k" using two four by (cases f) simp_all
  have l1: "l + 1 = c + (of_bool f + 1)" by (simp only: assms(5) add.assoc)
  show "l \<le> c OR host_mask k" unfolding assms(5) by (rule host_address(2) [OF assms(1,2) big])
  show "l + 1 \<le> c OR host_mask k" unfolding l1 by (rule host_address(2) [OF assms(1,2) big1])
  show "c \<le> l" unfolding assms(5) word_le_nat_alt host_address(1) [OF assms(1,2) big] by (rule le_add1)
  show "c \<le> l + 1" unfolding l1 word_le_nat_alt host_address(1) [OF assms(1,2) big1] by (rule le_add1)
  show "l \<noteq> l + 1" by simp
qed

definition pair_free :: "'n ipnet_lib \<Rightarrow> 'n list \<Rightarrow> bool \<Rightarrow> tunnel_address_pair \<Rightarrow> bool" where
  "pair_free lib occupied ipv4 pair \<longleftrightarrow>
     (case pair_network lib pair ipv4 of Inr n \<Rightarrow> list_all (\<lambda>r. \<not> tunnel_networks_overlap lib n r) occupied | Inl _ \<Rightarrow> False)"

lemma resolve_pool_valid:
  assumes doc: "ipnet_documented lib" and p: "unat prefix_len < (if ipv4 then 32 else 128)"
    and run: "resolve_pool lib pool prefix_len occupied ipv4 = Inr pair"
  shows "pair_free lib occupied ipv4 pair"
proof -
  define k where "k = (if ipv4 then 32 else 128) - unat prefix_len"
  define ivs where "ivs = map (network_interval lib) (filter (\<lambda>n. net_is_v4 lib n = ipv4) occupied)"
  obtain net c where v4: "net_is_v4 lib net = ipv4" and q: "net_prefix_len lib net \<le> prefix_len"
    and ff: "first_free_subnet (fst (network_interval lib net)) (snd (network_interval lib net)) (host_mask k) (merge_sorted (sort ivs)) = Inr c"
    and pair: "pair = \<lparr>tp_left = format_address lib (c + of_bool (ipv4 \<and> prefix_len < 31)) ipv4,
      tp_right = format_address lib (c + of_bool (ipv4 \<and> prefix_len < 31) + 1) ipv4, tp_prefix_len = prefix_len\<rparr>"
    using run by (auto simp: resolve_pool_def and_then_eq_Inr Let_def case_prod_unfold merged_intervals_def k_def ivs_def
        not_less split: if_splits)
  have k: "k \<le> 128" "1 \<le> k" "ipv4 \<and> prefix_len < 31 \<Longrightarrow> 2 \<le> k"
    using p by (auto simp: k_def word_less_nat_alt split: if_splits)
  have "width_of (net_first lib net) = (if ipv4 then 32 else 128)" using v4 by (simp add: width_of_def net_is_v4_def)
  then have "k \<le> width_of (net_first lib net) - unat (net_prefix_len lib net)" using q by (simp add: k_def word_le_nat_alt)
  then have "2 ^ k dvd unat (fst (network_interval lib net))"
    unfolding network_interval_def fst_conv by (rule dvd_trans [OF le_imp_power_dvd net_block(1) [OF doc refl]])
  moreover have le: "\<forall>(s, e)\<in>set ivs. s \<le> e" using net_interval_block(1) [OF doc] by (auto simp: ivs_def case_prod_unfold)
  ultimately have free: "subnet_free k (fst (network_interval lib net)) (snd (network_interval lib net)) ivs c"
    using search_exact [OF k(1), of "fst (network_interval lib net)" ivs "snd (network_interval lib net)"]
    unfolding ff sum.case by blast
  then have c: "2 ^ k dvd unat c" "c OR host_mask k \<le> snd (network_interval lib net)" "\<not> hits c (c OR host_mask k) ivs"
    by (simp_all add: subnet_free_hits)
  have small: "unat (c OR host_mask k) < 2 ^ 32" if ipv4
    using c(2) net_interval_block(2) [OF doc, of net] v4 that unfolding word_le_nat_alt by simp
  obtain n where n: "pair_network lib pair ipv4 = Inr n" "net_is_v4 lib n = ipv4" "network_interval lib n = (c, c OR host_mask k)"
    using pair_network_block [OF doc p k_def c(1) chosen_addresses [OF k(1) c(1) k(2,3) refl] small] unfolding pair by blast
  then show ?thesis using overlap_hits [OF n(2,3) c(3) [unfolded ivs_def]] unfolding pair_free_def n(1) sum.case list_all_iff by blast
qed

lemma resolve_family_valid:
  assumes "ipnet_documented lib" and "resolve_family lib pool prefix_len preferred occupied ipv4 = Inr pair"
  shows "pair_free lib occupied ipv4 pair"
proof -
  have p: "unat prefix_len < (if ipv4 then 32 else 128)"
    using assms(2) by (auto simp: resolve_family_def split: if_splits)
  consider "resolve_pool lib pool prefix_len occupied ipv4 = Inr pair"
    | q where "resolve_preferred lib prefix_len q occupied ipv4 = Inr pair"
    using assms(2) by (auto simp: resolve_family_def split: if_splits option.splits)
  then show ?thesis
  proof cases
    case 1
    then show ?thesis by (rule resolve_pool_valid [OF assms(1) p])
  next
    case 2
    then show ?thesis
      by (auto simp: resolve_preferred_def and_then_eq_Inr map_err_eq_Inr pair_free_def list_ex_iff list_all_iff split: if_splits)
  qed
qed

lemma family_valid:
  assumes "ipnet_documented lib"
    and "(if wanted then and_then (resolve_family lib pool prefix_len preferred occupied ipv4) (Inr \<circ> Some) else Inr None) = Inr tunnel"
  shows "(tunnel \<noteq> None \<longleftrightarrow> wanted) \<and> pred_option (pair_free lib occupied ipv4) tunnel"
  using assms by (auto simp: and_then_eq_Inr resolve_family_valid split: if_splits)

subsection \<open>A library that is as documented\<close>

text \<open>
  The documentation is consistent: networks as an address with a prefix length, and a plain text form, satisfy it.
\<close>

definition host_bits :: "ip_addr \<times> u8 \<Rightarrow> nat" where
  "host_bits n = width_of (fst n) - min (unat (snd n)) (width_of (fst n))"

definition same_family :: "ip_addr \<Rightarrow> u128 \<Rightarrow> ip_addr" where
  "same_family ip v = (if is_ipv4 ip then V4 (ucast v) else V6 v)"

definition block_start :: "ip_addr \<times> u8 \<Rightarrow> u128" where
  "block_start n = of_nat (unat (addr_value (fst n)) div 2 ^ host_bits n * 2 ^ host_bits n)"

definition plain_show :: "ip_addr \<Rightarrow> string" where
  "plain_show ip = (if is_ipv4 ip then CHR ''4'' else CHR ''6'') # CHR '':'' # show_nat (unat (addr_value ip))"

definition plain_parse :: "string \<Rightarrow> ip_addr option" where
  "plain_parse s = (case split_once (CHR '':'') s of
     Some (v, ds) \<Rightarrow>
       if v = ''4'' then map_option (V4 \<circ> of_nat) (parse_unsigned (2 ^ 32 - 1) ds)
       else if v = ''6'' then map_option (V6 \<circ> of_nat) (parse_unsigned (2 ^ 128 - 1) ds) else None
   | None \<Rightarrow> None)"

definition plain_lib :: "(ip_addr \<times> u8) ipnet_lib" where
  "plain_lib = \<lparr>parse_net = (\<lambda>s. case split_once (CHR ''/'') s of
        Some (a, p) \<Rightarrow> (case (plain_parse a, parse_unsigned 128 p) of (Some a, Some p) \<Rightarrow> Some (a, of_nat p) | _ \<Rightarrow> None)
      | None \<Rightarrow> None),
     new_net = (\<lambda>a p. if unat p \<le> width_of a then Some (a, p) else None), host_net = (\<lambda>a. (a, of_nat (width_of a))),
     trunc = (\<lambda>n. (same_family (fst n) (block_start n), snd n)),
     net_prefix_len = (\<lambda>n. of_nat (min (unat (snd n)) (width_of (fst n)))),
     net_first = (\<lambda>n. same_family (fst n) (block_start n)),
     net_last = (\<lambda>n. same_family (fst n) (block_start n OR host_mask (host_bits n))),
     net_contains = (\<lambda>n a. is_ipv4 (fst n) = is_ipv4 a \<and> block_start n \<le> addr_value a
        \<and> addr_value a \<le> block_start n OR host_mask (host_bits n)),
     parse_ip = plain_parse, show_ip = plain_show\<rparr>"

lemma host_bits_le: "host_bits n \<le> width_of (fst n)" "host_bits n \<le> 128"
  using width_le [of "fst n"] by (auto simp: host_bits_def)

lemma addr_value_bound: "unat (addr_value ip) < 2 ^ width_of ip"
proof (cases ip)
  case (V4 a)
  then show ?thesis
    using unat_le_max [of a] by (simp add: addr_value_def width_of_def is_ipv4_def unat_widen)
next
  case (V6 a)
  then show ?thesis using unat_le_max [of a] by (simp add: addr_value_def width_of_def is_ipv4_def)
qed

lemma unat_block_start: "unat (block_start n) = unat (addr_value (fst n)) div 2 ^ host_bits n * 2 ^ host_bits n"
proof -
  have "unat (addr_value (fst n)) div 2 ^ host_bits n * 2 ^ host_bits n \<le> unat (addr_value (fst n))" by simp
  also have "\<dots> < 2 ^ 128" using unat_le_max [of "addr_value (fst n)"] by simp
  finally show ?thesis unfolding block_start_def by (simp del: of_nat_mult add: unsigned_of_nat take_bit_nat_eq_self_iff)
qed

lemma block_start_aligned: "2 ^ host_bits n dvd unat (block_start n)"
  by (simp add: unat_block_start)

lemma block_end: "Suc (unat (block_start n OR host_mask (host_bits n))) = Suc (unat (addr_value (fst n)) div 2 ^ host_bits n) * 2 ^ host_bits n"
  by (simp add: unat_or_host_mask host_bits_le(2) unat_block_start)

lemma block_end_bound: "unat (block_start n OR host_mask (host_bits n)) < 2 ^ width_of (fst n)"
proof -
  obtain d where d: "width_of (fst n) = d + host_bits n" using host_bits_le(1) [of n] by (metis le_add_diff_inverse2)
  have "unat (addr_value (fst n)) < 2 ^ d * 2 ^ host_bits n"
    using addr_value_bound [of "fst n"] by (simp add: d power_add)
  then have "Suc (unat (addr_value (fst n)) div 2 ^ host_bits n) \<le> 2 ^ d"
    by (simp add: Suc_le_eq less_mult_imp_div_less)
  then have "Suc (unat (addr_value (fst n)) div 2 ^ host_bits n) * 2 ^ host_bits n \<le> 2 ^ width_of (fst n)"
    unfolding d power_add by (rule mult_le_mono1)
  then show ?thesis using block_end [of n] by simp
qed

lemma same_family_value: "unat v < 2 ^ width_of ip \<Longrightarrow> addr_value (same_family ip v) = v"
  by (auto simp: same_family_def addr_value_def width_of_def ucast_round split: if_splits)

lemma same_family_kind [simp]: "is_ipv4 (same_family ip v) = is_ipv4 ip"
  by (simp add: same_family_def is_ipv4_def)

lemma plain_prefix: "unat (net_prefix_len plain_lib n) = min (unat (snd n)) (width_of (fst n))"
  using width_le [of "fst n"] by (simp add: plain_lib_def unsigned_of_nat take_bit_nat_eq_self_iff min_less_iff_disj)

lemma plain_first: "addr_value (net_first plain_lib n) = block_start n" "is_ipv4 (net_first plain_lib n) = is_ipv4 (fst n)"
  using le_less_trans [OF _ addr_value_bound [of "fst n"]] by (simp_all add: plain_lib_def same_family_value unat_block_start)

lemma plain_last: "addr_value (net_last plain_lib n) = block_start n OR host_mask (host_bits n)"
    "is_ipv4 (net_last plain_lib n) = is_ipv4 (fst n)"
  by (simp_all add: plain_lib_def same_family_value block_end_bound)

lemma plain_text: "parse_ip plain_lib (show_ip plain_lib ip) = Some ip"
proof -
  have "split_once (CHR '':'') (plain_show ip) = Some ((if is_ipv4 ip then ''4'' else ''6''), show_nat (unat (addr_value ip)))"
    by (simp add: plain_show_def)
  moreover have "parse_unsigned (2 ^ width_of ip - 1) (show_nat (unat (addr_value ip))) = Some (unat (addr_value ip))"
    by (rule parse_show_nat) (use addr_value_bound [of ip] in simp)
  ultimately show ?thesis
    by (cases ip) (simp_all add: plain_lib_def plain_parse_def is_ipv4_def width_of_def addr_value_def unat_widen)
qed

lemma plain_trunc: "block_start (trunc plain_lib n) = block_start n" "host_bits (trunc plain_lib n) = host_bits n"
proof -
  show bits: "host_bits (trunc plain_lib n) = host_bits n" by (simp add: plain_lib_def host_bits_def width_of_def)
  have "addr_value (fst (trunc plain_lib n)) = block_start n" using plain_first(1) [of n] by (simp add: plain_lib_def)
  then show "block_start (trunc plain_lib n) = block_start n"
    unfolding block_start_def [of "trunc plain_lib n"] bits using block_start_aligned [of n] by simp
qed

lemma plain_host_bits: "width_of (net_first plain_lib n) - unat (net_prefix_len plain_lib n) = host_bits n"
  by (simp add: plain_prefix host_bits_def width_of_def plain_first(2))

lemma block_holds: "block_start n \<le> addr_value (fst n)" "addr_value (fst n) \<le> block_start n OR host_mask (host_bits n)"
proof -
  show "block_start n \<le> addr_value (fst n)" by (simp add: word_le_nat_alt unat_block_start)
  show "addr_value (fst n) \<le> block_start n OR host_mask (host_bits n)"
    by (simp add: le_block_end host_bits_le unat_block_start dividend_less_div_times)
qed

lemma plain_documented: "ipnet_documented plain_lib"
  unfolding ipnet_documented_def
proof (intro conjI allI impI)
  fix n
  show "net_first plain_lib (trunc plain_lib n) = net_first plain_lib n" "net_last plain_lib (trunc plain_lib n) = net_last plain_lib n"
    using plain_trunc [of n] by (simp_all add: plain_lib_def) (simp_all add: same_family_def is_ipv4_def split: ip_addr.splits)
  show "net_prefix_len plain_lib (trunc plain_lib n) = net_prefix_len plain_lib n"
    by (simp add: plain_lib_def width_of_def)
  show "unat (net_prefix_len plain_lib n) \<le> width_of (net_first plain_lib n)"
    by (simp add: plain_prefix width_of_def plain_first(2))
  show "2 ^ (width_of (net_first plain_lib n) - unat (net_prefix_len plain_lib n)) dvd unat (addr_value (net_first plain_lib n))"
    by (simp only: plain_host_bits plain_first block_start_aligned)
  show "is_ipv4 (net_last plain_lib n) = is_ipv4 (net_first plain_lib n)" by (simp only: plain_first plain_last)
  show "addr_value (net_last plain_lib n) = addr_value (net_first plain_lib n)
      OR host_mask (width_of (net_first plain_lib n) - unat (net_prefix_len plain_lib n))"
    by (simp only: plain_host_bits plain_first plain_last)
next
  fix a and p :: u8
  assume p: "unat p \<le> width_of a"
  then have "net_prefix_len plain_lib (a, p) = p" using plain_prefix [of "(a, p)"] by (simp add: word_unat_eq_iff)
  then show "\<exists>n. new_net plain_lib a p = Some n \<and> net_prefix_len plain_lib n = p \<and> is_ipv4 (net_first plain_lib n) = is_ipv4 a
      \<and> addr_value (net_first plain_lib n) \<le> addr_value a \<and> addr_value a \<le> addr_value (net_last plain_lib n)"
    using p block_holds [of "(a, p)"] by (intro exI [of _ "(a, p)"]) (simp add: plain_first plain_last, simp add: plain_lib_def)
next
  fix n a
  show "net_contains plain_lib n a \<longleftrightarrow> is_ipv4 (net_first plain_lib n) = is_ipv4 a
      \<and> addr_value (net_first plain_lib n) \<le> addr_value a \<and> addr_value a \<le> addr_value (net_last plain_lib n)"
    by (simp only: plain_first plain_last) (simp add: plain_lib_def)
next
  fix ip
  show "parse_ip plain_lib (show_ip plain_lib ip) = Some ip" by (rule plain_text)
qed

subsection \<open>Allocations\<close>

text \<open>
  (C32) An allocation is usable: whether the operator's addresses are kept, completed or taken from
  a pool, each family that was asked for gets a pair, no other does, and a pair is two distinct addresses of one network
  of its family, which overlaps none of the reservations.
\<close>

theorem allocated_endpoints_valid:
  assumes "ipnet_documented lib"
    and "allocate_tunnel_endpoints_with_options lib pool4 pool6 reserved options = Inr alloc"
  shows "\<exists>occupied. try_map (parse_reservation lib) reserved = Inr occupied
    \<and> (ta_ipv4_tunnel alloc \<noteq> None \<longleftrightarrow> opt_include_ipv4 options) \<and> pred_option (pair_free lib occupied True) (ta_ipv4_tunnel alloc)
    \<and> (ta_ipv6_tunnel alloc \<noteq> None \<longleftrightarrow> opt_include_ipv6 options) \<and> pred_option (pair_free lib occupied False) (ta_ipv6_tunnel alloc)"
proof -
  obtain occupied where occ: "try_map (parse_reservation lib) reserved = Inr occupied"
    and v4: "(if opt_include_ipv4 options
        then and_then (resolve_family lib pool4 (opt_ipv4_prefix_len options) (opt_preferred_ipv4 options) occupied True) (Inr \<circ> Some)
        else Inr None) = Inr (ta_ipv4_tunnel alloc)"
    and v6: "(if opt_include_ipv6 options
        then and_then (resolve_family lib pool6 (opt_ipv6_prefix_len options) (opt_preferred_ipv6 options) occupied False) (Inr \<circ> Some)
        else Inr None) = Inr (ta_ipv6_tunnel alloc)"
    using assms(2) unfolding allocate_tunnel_endpoints_with_options_def
    by (auto simp: and_then_eq_Inr simp del: if_split split: if_split_asm)
  show ?thesis using occ family_valid [OF assms(1) v4] family_valid [OF assms(1) v6] by blast
qed

text \<open>A sample: the pool holds 8 to 15, with 8 to 10 reserved.\<close>

lemma sample_parse:
  "parse_net plain_lib ''4:8/29'' = Some (V4 8, 29)" "parse_net plain_lib ''4:8/31'' = Some (V4 8, 31)"
  "parse_net plain_lib ''4:10'' = None" "parse_ip plain_lib ''4:10'' = Some (V4 10)"
  by (simp_all add: plain_lib_def plain_parse_def parse_unsigned_def is_ascii_digit_def digit_value_def)

lemma sample_trim: "trim ''4:8/29'' = ''4:8/29''" "trim ''4:8/31'' = ''4:8/31''" "trim ''4:10'' = ''4:10''"
  by (rule trim_digits; simp add: is_ascii_digit_def)+

lemma sample_blocks:
  "trunc plain_lib (V4 8, 29) = (V4 8, 29)" "network_interval plain_lib (V4 8, 29) = (8, 15)"
  "trunc plain_lib (V4 8, 31) = (V4 8, 31)" "network_interval plain_lib (V4 8, 31) = (8, 9)"
  "host_net plain_lib (V4 10) = (V4 10, 32)" "network_interval plain_lib (V4 10, 32) = (10, 10)"
  by (simp_all add: plain_lib_def network_interval_def block_start_def host_bits_def same_family_def addr_value_def
      width_of_def is_ipv4_def host_mask_def)

lemma sample_digits: "show_nat 12 = ''12''" "show_nat 13 = ''13''"
  by code_simp+

lemma sample_format: "format_address plain_lib 12 True = ''4:12''" "format_address plain_lib 13 True = ''4:13''"
  by (simp_all add: format_address_def plain_lib_def plain_show_def is_ipv4_def addr_value_def sample_digits)

lemma sample_family:
  "net_is_v4 plain_lib (V4 8, 29)" "net_is_v4 plain_lib (V4 8, 31)" "net_is_v4 plain_lib (V4 10, 32)"
  "net_prefix_len plain_lib (V4 8, 29) = 29"
  unfolding net_is_v4_def plain_first by (simp_all add: is_ipv4_def plain_lib_def width_of_def)

lemma sample_search:
  "first_free_subnet 8 15 (host_mask (Suc 0)) (merge_sorted [(8, 9), (10, 10)]) = Inr 12"
  by (simp add: first_free_subnet_def host_mask_def merge_sorted_def merge_step_def saturating_add_def checked_add_def
      less_prod_simp less_eq_prod_simp max_def)

lemma sample_pool:
  "resolve_pool plain_lib (Some ''4:8/29'') 31 [(V4 8, 31), (V4 10, 32)] True
     = Inr \<lparr>tp_left = ''4:12'', tp_right = ''4:13'', tp_prefix_len = 31\<rparr>"
  by (simp add: resolve_pool_def sample_trim sample_parse sample_blocks sample_family merged_intervals_def sample_search sample_format)

lemma sample_reservations:
  "try_map (parse_reservation plain_lib) [''4:8/31'', ''4:10''] = Inr [(V4 8, 31), (V4 10, 32)]"
  by (simp add: parse_reservation_def sample_trim sample_parse sample_blocks)

lemma sample_allocation:
  "allocate_tunnel_endpoints_with_options plain_lib (Some ''4:8/29'') None [''4:8/31'', ''4:10''] default_allocation_options
     = Inr \<lparr>ta_ipv4_tunnel = Some \<lparr>tp_left = ''4:12'', tp_right = ''4:13'', tp_prefix_len = 31\<rparr>,
         ta_ipv6_tunnel = None, ta_latency_primary_family = FamilyIpv4\<rparr>"
  unfolding allocate_tunnel_endpoints_with_options_def sample_reservations
  by (simp add: default_allocation_options_def resolve_family_def sample_pool)

theorem allocated_endpoints_valid_witness:
  "pair_free plain_lib [(V4 8, 31), (V4 10, 32)] True \<lparr>tp_left = ''4:12'', tp_right = ''4:13'', tp_prefix_len = 31\<rparr>"
  using allocated_endpoints_valid [OF plain_documented sample_allocation] unfolding sample_reservations by simp

end
