(* ===== verification/Tag_Order.thy ===== *)
theory Tag_Order
  imports Sweep Rust_Str "HOL-Library.List_Lexorder" "HOL-Library.Sublist"
begin

section \<open>The natural order of tags\<close>

text \<open>
  \<open>common/src/selection/tag_order.rs\<close>: tags of one namespace that stand next to each other are sorted
  so that numbers inside them count as numbers. The cursors of the comparison are the suffixes they
  point to. The comparison is shown to be the comparison of keys in a linear order, which makes it a
  legal argument of \<open>sort_by\<close>; the normalization keeps the tags and their namespaces in place and
  orders each block.
\<close>

subsection \<open>The code\<close>

definition tag_namespace :: "string \<Rightarrow> string option" where
  "tag_namespace tag = (case split_once (CHR '':'') tag of
     Some (namespace, _) \<Rightarrow> if namespace = [] then None else Some namespace
   | None \<Rightarrow> None)"

definition same_tag_namespace :: "string \<Rightarrow> string \<Rightarrow> bool" where
  "same_tag_namespace left right =
     (case (tag_namespace left, tag_namespace right) of
        (Some left, Some right) \<Rightarrow> eq_ignore_ascii_case left right
      | _ \<Rightarrow> False)"

definition fold_ascii :: "char \<Rightarrow> nat" where
  "fold_ascii b = byte (ascii_lower b)"

definition compare_text_chunks :: "string \<Rightarrow> string \<Rightarrow> ordering" where
  "compare_text_chunks left right = cmp_slices (\<lambda>a b. cmp (fold_ascii a) (fold_ascii b)) left right"

definition cmp_bytes :: "string \<Rightarrow> string \<Rightarrow> ordering" where
  "cmp_bytes = cmp_slices (\<lambda>a b. cmp (byte a) (byte b))"

text \<open>The digits from the first that is not zero; of zeros only, the last.\<close>

definition significant_digits :: "string \<Rightarrow> string" where
  "significant_digits digits =
     (if list_all (\<lambda>b. b = CHR ''0'') digits then drop (length digits - 1) digits
      else dropWhile (\<lambda>b. b = CHR ''0'') digits)"

definition compare_digit_chunks :: "string \<Rightarrow> string \<Rightarrow> ordering" where
  "compare_digit_chunks left right =
     (let left_significant = significant_digits left; right_significant = significant_digits right in
      then_with (cmp (length left_significant) (length right_significant)) (cmp_bytes left_significant right_significant))"

text \<open>\<open>chunk_end\<close>: the chunk at the front, and what follows it.\<close>

definition chunk :: "bool \<Rightarrow> string \<Rightarrow> string" where
  "chunk digit s = takeWhile (\<lambda>b. is_ascii_digit b = digit) s"

definition after_chunk :: "bool \<Rightarrow> string \<Rightarrow> string" where
  "after_chunk digit s = dropWhile (\<lambda>b. is_ascii_digit b = digit) s"

function natural_loop :: "string \<Rightarrow> string \<Rightarrow> ordering \<Rightarrow> ordering" where
  "natural_loop left right numeric_tie_break =
     (if left = [] \<or> right = [] then
        (if left = [] \<and> right \<noteq> [] then Less else if left \<noteq> [] \<and> right = [] then Greater else numeric_tie_break)
      else let left_digit = is_ascii_digit (hd left); right_digit = is_ascii_digit (hd right) in
        if left_digit \<noteq> right_digit then cmp (fold_ascii (hd left)) (fold_ascii (hd right))
        else let left_chunk = chunk left_digit left; right_chunk = chunk right_digit right;
                 ordering = (if left_digit then compare_digit_chunks left_chunk right_chunk
                             else compare_text_chunks left_chunk right_chunk)
             in if ordering \<noteq> Equal then ordering
                else natural_loop (after_chunk left_digit left) (after_chunk right_digit right)
                  (if left_digit \<and> numeric_tie_break = Equal
                   then then_with (cmp (length left_chunk) (length right_chunk)) (cmp_bytes left_chunk right_chunk)
                   else numeric_tie_break))"
  by pat_completeness auto
termination
proof (relation "measure (\<lambda>(l, r, t). length l)", goal_cases)
  case (2 l r t)
  then show ?case by (cases l) (auto simp: after_chunk_def le_imp_less_Suc length_dropWhile_le)
qed simp

declare natural_loop.simps [simp del]

definition compare_ascii_natural :: "string \<Rightarrow> string \<Rightarrow> ordering" where
  "compare_ascii_natural left right = natural_loop left right Equal"

definition tag_value :: "string \<Rightarrow> string" where
  "tag_value tag = (case split_once (CHR '':'') tag of Some (_, rest) \<Rightarrow> rest | None \<Rightarrow> tag)"

definition compare_tag_names_naturally :: "string \<Rightarrow> string \<Rightarrow> ordering" where
  "compare_tag_names_naturally left right =
     then_with (compare_ascii_natural (tag_value left) (tag_value right)) (cmp_bytes left right)"

function normalize_tag_namespace_blocks :: "string list \<Rightarrow> string list" where
  "normalize_tag_namespace_blocks tags =
     (case tags of [] \<Rightarrow> []
      | tag # rest \<Rightarrow>
          if tag_namespace tag = None then tag # normalize_tag_namespace_blocks rest
          else let block = tag # takeWhile (same_tag_namespace tag) rest in
            (if length block > 1 then sort_by compare_tag_names_naturally block else block)
            @ normalize_tag_namespace_blocks (dropWhile (same_tag_namespace tag) rest))"
  by pat_completeness auto
termination
  by (relation "measure length") (auto simp: le_imp_less_Suc length_dropWhile_le)

declare normalize_tag_namespace_blocks.simps [simp del]

definition rposition :: "('a \<Rightarrow> bool) \<Rightarrow> 'a list \<Rightarrow> nat option" where
  "rposition p xs = (if list_ex p xs then Some (length xs - 1 - length (takeWhile (\<lambda>x. \<not> p x) (rev xs))) else None)"

definition insert_tag :: "string list \<Rightarrow> string \<Rightarrow> string list" where
  "insert_tag ordered_tags addition =
     (if addition \<in> set ordered_tags then ordered_tags
      else let insertion_index =
          (case tag_namespace addition of None \<Rightarrow> None
           | Some _ \<Rightarrow> map_option Suc (rposition (\<lambda>existing. same_tag_namespace existing addition) ordered_tags))
        in case insertion_index of
             Some index \<Rightarrow> take index ordered_tags @ addition # drop index ordered_tags
           | None \<Rightarrow> ordered_tags @ [addition])"

definition insert_tags_into_last_namespace_blocks :: "string list \<Rightarrow> string list \<Rightarrow> bool \<Rightarrow> string list" where
  "insert_tags_into_last_namespace_blocks ordered_tags additions namespace_natural_sort_enabled =
     (let tags = fold (\<lambda>addition tags. insert_tag tags addition) additions ordered_tags in
      if namespace_natural_sort_enabled then normalize_tag_namespace_blocks tags else tags)"

subsection \<open>The comparison as a comparison of keys\<close>

lemma cmp_Cons: "cmp (x # xs) (y # ys) = then_with (cmp x y) (cmp xs ys)"
  by (auto simp: cmp_def)

lemma cmp_Nil [simp]: "cmp [] (y # ys) = Less" "cmp (x # xs) [] = Greater" "cmp (x :: 'a::linorder) x = Equal"
  by (simp_all add: cmp_def)

lemma cmp_pair: "cmp (a, b) (c, d) = then_with (cmp a c) (cmp b d)"
  by (auto simp: cmp_def less_prod_simp)

lemma cmp_slices_map: "cmp_slices (\<lambda>a b. cmp (f a) (f b)) xs ys = cmp (map f xs) (map f ys)"
  by (induction "\<lambda>a b. cmp (f a) (f b)" xs ys rule: cmp_slices.induct) (simp_all add: cmp_Cons)

lemma then_with_assoc: "then_with (then_with a b) c = then_with a (then_with b c)"
  by (cases a) simp_all

text \<open>A chunk of digits is compared by its length and digits, below or above text as its bytes are.\<close>

definition chunk_key :: "string \<Rightarrow> nat \<times> nat list" where
  "chunk_key c =
     (if is_ascii_digit (hd c) then (48, length (significant_digits c) # map byte (significant_digits c))
      else (fold_ascii (hd c), map fold_ascii (tl c)))"

function chunks_of :: "string \<Rightarrow> string list" where
  "chunks_of s = (if s = [] then [] else chunk (is_ascii_digit (hd s)) s # chunks_of (after_chunk (is_ascii_digit (hd s)) s))"
  by pat_completeness auto
termination
proof (relation "measure length", goal_cases)
  case (2 s)
  then show ?case by (cases s) (auto simp: after_chunk_def le_imp_less_Suc length_dropWhile_le)
qed simp

declare chunks_of.simps [simp del]

definition natural_keys :: "string \<Rightarrow> (nat \<times> nat list) list" where
  "natural_keys s = map chunk_key (chunks_of s)"

definition number_ties :: "string \<Rightarrow> (nat \<times> nat list) list" where
  "number_ties s = map (\<lambda>c. (length c, map byte c)) (filter (\<lambda>c. is_ascii_digit (hd c)) (chunks_of s))"

lemma chunk_facts:
  assumes "s \<noteq> []"
  shows "chunk (is_ascii_digit (hd s)) s \<noteq> []" and "hd (chunk (is_ascii_digit (hd s)) s) = hd s"
  using assms by (cases s; simp add: chunk_def)+

lemma keys_Nil [simp]: "natural_keys [] = []" "number_ties [] = []"
  by (simp_all add: natural_keys_def number_ties_def chunks_of.simps)

lemma keys_step:
  assumes "s \<noteq> []" and "d = is_ascii_digit (hd s)"
  shows "natural_keys s = chunk_key (chunk d s) # natural_keys (after_chunk d s)"
    and "number_ties s = (if d then [(length (chunk d s), map byte (chunk d s))] else []) @ number_ties (after_chunk d s)"
  using assms chunk_facts [OF assms(1)]
  by (simp_all add: natural_keys_def number_ties_def chunks_of.simps [of s])

lemma fold_ascii_digit: "is_ascii_digit b \<Longrightarrow> 48 \<le> fold_ascii b \<and> fold_ascii b \<le> 57"
  by (auto simp: fold_ascii_def ascii_lower_def is_ascii_digit_def)

lemma fold_ascii_text: "\<not> is_ascii_digit b \<Longrightarrow> fold_ascii b < 48 \<or> 57 < fold_ascii b"
  by (auto simp: fold_ascii_def ascii_lower_def is_ascii_digit_def byte_char_of)

lemma chunk_key_cmp:
  assumes "l \<noteq> []" and "r \<noteq> []"
  shows "is_ascii_digit (hd l) \<noteq> is_ascii_digit (hd r) \<Longrightarrow>
      cmp (chunk_key l) (chunk_key r) = cmp (fold_ascii (hd l)) (fold_ascii (hd r)) \<and> chunk_key l \<noteq> chunk_key r"
    and "is_ascii_digit (hd l) \<Longrightarrow> is_ascii_digit (hd r) \<Longrightarrow> cmp (chunk_key l) (chunk_key r) = compare_digit_chunks l r"
    and "\<not> is_ascii_digit (hd l) \<Longrightarrow> \<not> is_ascii_digit (hd r) \<Longrightarrow> cmp (chunk_key l) (chunk_key r) = compare_text_chunks l r"
proof -
  show "cmp (chunk_key l) (chunk_key r) = cmp (fold_ascii (hd l)) (fold_ascii (hd r)) \<and> chunk_key l \<noteq> chunk_key r"
    if "is_ascii_digit (hd l) \<noteq> is_ascii_digit (hd r)"
    using that fold_ascii_digit [of "hd l"] fold_ascii_digit [of "hd r"] fold_ascii_text [of "hd l"] fold_ascii_text [of "hd r"]
    by (cases "is_ascii_digit (hd l)") (auto simp: chunk_key_def cmp_pair cmp_def)
  show "cmp (chunk_key l) (chunk_key r) = compare_digit_chunks l r" if "is_ascii_digit (hd l)" "is_ascii_digit (hd r)"
    using that by (simp add: chunk_key_def compare_digit_chunks_def cmp_bytes_def cmp_slices_map cmp_pair cmp_Cons Let_def)
  show "cmp (chunk_key l) (chunk_key r) = compare_text_chunks l r" if "\<not> is_ascii_digit (hd l)" "\<not> is_ascii_digit (hd r)"
    using that assms by (cases l; cases r) (simp_all add: chunk_key_def compare_text_chunks_def cmp_slices_map cmp_pair cmp_Cons)
qed

text \<open>One round of the loop, in terms of the keys of its two chunks.\<close>

lemma natural_loop_ends:
  "natural_loop [] [] t = t" "r \<noteq> [] \<Longrightarrow> natural_loop [] r t = Less" "l \<noteq> [] \<Longrightarrow> natural_loop l [] t = Greater"
  by (simp_all add: natural_loop.simps)

lemma natural_loop_round:
  assumes "l \<noteq> []" and "r \<noteq> []" and "d = is_ascii_digit (hd l)" and "e = is_ascii_digit (hd r)"
    and "lc = chunk d l" and "rc = chunk e r"
  shows "natural_loop l r t =
    (if chunk_key lc \<noteq> chunk_key rc then cmp (chunk_key lc) (chunk_key rc)
     else natural_loop (after_chunk d l) (after_chunk e r)
       (if d then then_with t (cmp (length lc, map byte lc) (length rc, map byte rc)) else t))"
proof -
  have c: "lc \<noteq> []" "rc \<noteq> []" "hd lc = hd l" "hd rc = hd r"
    using chunk_facts [OF assms(1)] chunk_facts [OF assms(2)] assms by simp_all
  have k: "cmp (chunk_key lc) (chunk_key rc) = (if d \<noteq> e then cmp (fold_ascii (hd l)) (fold_ascii (hd r))
      else if d then compare_digit_chunks lc rc else compare_text_chunks lc rc)" "d \<noteq> e \<Longrightarrow> chunk_key lc \<noteq> chunk_key rc"
    using chunk_key_cmp [OF c(1,2)] c assms(3,4) by auto
  have tie: "(if d \<and> t = Equal then then_with (cmp (length lc) (length rc)) (cmp_bytes lc rc) else t)
      = (if d then then_with t (cmp (length lc, map byte lc) (length rc, map byte rc)) else t)"
    by (cases t) (simp_all add: cmp_bytes_def cmp_slices_map cmp_pair)
  have e: "chunk_key lc = chunk_key rc \<longleftrightarrow> cmp (chunk_key lc) (chunk_key rc) = Equal" by (simp add: cmp_eq)
  show ?thesis
    unfolding natural_loop.simps [of l r t] Let_def assms(3-6) [symmetric] tie
    using assms(1,2) k unfolding e by (auto simp: assms(5,6))
qed

lemma natural_loop_key:
  "natural_loop l r t = then_with (cmp (natural_keys l) (natural_keys r)) (then_with t (cmp (number_ties l) (number_ties r)))"
proof (induction "length l" arbitrary: l r t rule: less_induct)
  case less
  show ?case
  proof (cases "l = [] \<or> r = []")
    case True
    then show ?thesis
      by (cases "l = []"; cases "r = []") (auto simp: natural_loop_ends keys_step then_with_eq(1) then_with_def split: ordering.split)
  next
    case False
    define d e where "d = is_ascii_digit (hd l)" and "e = is_ascii_digit (hd r)"
    define lc rc where "lc = chunk d l" and "rc = chunk e r"
    have l: "natural_keys l = chunk_key lc # natural_keys (after_chunk d l)"
        "number_ties l = (if d then [(length lc, map byte lc)] else []) @ number_ties (after_chunk d l)"
      using keys_step [OF _ d_def] False by (simp_all add: lc_def)
    have r: "natural_keys r = chunk_key rc # natural_keys (after_chunk e r)"
        "number_ties r = (if e then [(length rc, map byte rc)] else []) @ number_ties (after_chunk e r)"
      using keys_step [OF _ e_def] False by (simp_all add: rc_def)
    have "length (after_chunk d l) < length l"
      using False by (cases l) (auto simp: after_chunk_def d_def le_imp_less_Suc length_dropWhile_le)
    note IH = less [OF this]
    have ne: "lc \<noteq> []" "rc \<noteq> []" "hd lc = hd l" "hd rc = hd r"
      using chunk_facts [of l] chunk_facts [of r] False by (simp_all add: lc_def rc_def d_def e_def)
    show ?thesis
    proof (cases "chunk_key lc = chunk_key rc")
      case True
      then have "d = e" using chunk_key_cmp(1) [OF ne(1,2)] ne by (auto simp: d_def e_def)
      have "natural_loop l r t = natural_loop (after_chunk d l) (after_chunk e r)
          (if d then then_with t (cmp (length lc, map byte lc) (length rc, map byte rc)) else t)"
        using False True by (simp add: natural_loop_round [OF _ _ d_def e_def lc_def rc_def])
      then show ?thesis unfolding IH l r using True \<open>d = e\<close> by (simp add: cmp_Cons then_with_assoc)
    next
      case kne: False
      then have "cmp (chunk_key lc) (chunk_key rc) \<noteq> Equal" by (simp add: cmp_eq)
      then show ?thesis
        using False kne by (cases "cmp (chunk_key lc) (chunk_key rc)")
          (simp_all add: natural_loop_round [OF _ _ d_def e_def lc_def rc_def] l(1) r(1) cmp_Cons)
    qed
  qed
qed

definition tag_key :: "string \<Rightarrow> ((nat \<times> nat list) list \<times> (nat \<times> nat list) list) \<times> nat list" where
  "tag_key tag = ((natural_keys (tag_value tag), number_ties (tag_value tag)), map byte tag)"

lemma compare_tag_names_key: "compare_tag_names_naturally l r = cmp (tag_key l) (tag_key r)"
  by (simp add: compare_tag_names_naturally_def compare_ascii_natural_def natural_loop_key tag_key_def cmp_pair
      cmp_bytes_def cmp_slices_map then_with_assoc)

interpretation tag_order: comparator compare_tag_names_naturally
  unfolding compare_tag_names_key by (rule comparator_key)

lemma inj_byte: "byte a = byte b \<longleftrightarrow> a = b"
  by simp

lemma tag_key_inj: "tag_key l = tag_key r \<longleftrightarrow> l = r"
  by (auto simp: tag_key_def inj_map_eq_map inj_def)

subsection \<open>Digits count as numbers\<close>

lemma then_with_Equal [simp]: "then_with a Equal = a"
  by (cases a) simp_all

lemma cmp_push_digits:
  assumes "length l = length r" and "list_all is_ascii_digit l" and "list_all is_ascii_digit r"
  shows "cmp (push_digits a l) (push_digits b r) = then_with (cmp a b) (cmp (map byte l) (map byte r))"
  using assms
proof (induction l r arbitrary: a b rule: list_induct2)
  case (Cons x xs y ys)
  have "cmp (10 * a + digit_value x) (10 * b + digit_value y) = then_with (cmp a b) (cmp (byte x) (byte y))"
    using Cons.prems digit_value_bound [of x] digit_value_bound [of y] by (auto simp: cmp_def)
  with Cons show ?case by (simp add: cmp_Cons then_with_assoc)
qed simp

lemma number_of_less:
  assumes "list_all is_ascii_digit l" and "list_all is_ascii_digit r" and "length l < length r" and "hd r \<noteq> CHR ''0''"
  shows "number_of l < number_of r"
proof -
  obtain c ds where r: "r = c # ds" using assms(3) by (cases r) auto
  have c: "1 \<le> digit_value c" using assms(2,4) r digit_nonzero by simp
  have "number_of l < 10 ^ length l" using push_digits_bounds [OF assms(1), of 0] by simp
  also have "\<dots> \<le> 1 * 10 ^ length ds" using assms(3) r by (simp add: power_increasing)
  also have "\<dots> \<le> digit_value c * 10 ^ length ds" using c by (rule mult_le_mono1)
  also have "\<dots> \<le> number_of r" using push_digits_bounds [of ds "digit_value c"] assms(2) r by simp
  finally show ?thesis .
qed

definition significant_of :: "string \<Rightarrow> string \<Rightarrow> bool" where
  "significant_of ds sig \<longleftrightarrow> number_of sig = number_of ds \<and> list_all is_ascii_digit sig
     \<and> (length sig = 1 \<or> hd sig \<noteq> CHR ''0'') \<and> sig \<noteq> []"

lemma significant_digits_of:
  assumes "ds \<noteq> []" and "list_all is_ascii_digit ds"
  shows "significant_of ds (significant_digits ds)"
proof (cases "list_all (\<lambda>b. b = CHR ''0'') ds")
  case True
  have "number_of ds = 0" using True by (induction ds) (auto simp: digit_value_def)
  moreover have "drop (length ds - 1) ds = [last ds]" using assms(1) by (cases ds rule: rev_cases) simp_all
  moreover have "last ds = CHR ''0''" using True assms(1) by (simp add: list_all_iff)
  ultimately show ?thesis
    using True by (simp add: significant_digits_def significant_of_def digit_value_def is_ascii_digit_def)
next
  case False
  have leading: "number_of (dropWhile (\<lambda>b. b = CHR ''0'') ds) = number_of ds"
    by (induction ds) (auto simp: digit_value_def)
  have ne: "dropWhile (\<lambda>b. b = CHR ''0'') ds \<noteq> []" using False by (simp add: list_all_iff)
  have digits: "list_all is_ascii_digit (dropWhile (\<lambda>b. b = CHR ''0'') ds)"
    using assms(2) by (induction ds) auto
  have "significant_digits ds = dropWhile (\<lambda>b. b = CHR ''0'') ds" using False by (simp add: significant_digits_def)
  then show ?thesis using leading digits ne hd_dropWhile [OF ne] by (simp only: significant_of_def) simp
qed

lemma number_of_shorter:
  assumes "significant_of l sl" and "significant_of r sr" and "length sl < length sr"
  shows "number_of l < number_of r"
proof -
  have "hd sr \<noteq> CHR ''0''" using assms by (auto simp: significant_of_def)
  then show ?thesis using number_of_less [of sl sr] assms by (simp add: significant_of_def)
qed

lemma compare_digit_chunks_number:
  assumes "l \<noteq> []" "list_all is_ascii_digit l" and "r \<noteq> []" "list_all is_ascii_digit r"
  shows "compare_digit_chunks l r = cmp (number_of l) (number_of r)"
proof -
  note L = significant_digits_of [OF assms(1,2)] and R = significant_digits_of [OF assms(3,4)]
  consider (lt) "length (significant_digits l) < length (significant_digits r)"
    | (eq) "length (significant_digits l) = length (significant_digits r)"
    | (gt) "length (significant_digits r) < length (significant_digits l)" by linarith
  then show ?thesis
  proof cases
    case lt
    then show ?thesis using number_of_shorter [OF L R lt] by (simp add: compare_digit_chunks_def cmp_def)
  next
    case eq
    then show ?thesis
      using cmp_push_digits [OF eq, of 0 0] L R
      by (simp add: compare_digit_chunks_def Let_def cmp_bytes_def cmp_slices_map significant_of_def)
  next
    case gt
    then show ?thesis using number_of_shorter [OF R L gt] by (simp add: compare_digit_chunks_def Let_def cmp_def)
  qed
qed

lemma chunks_of_append:
  assumes "p = [] \<or> s = [] \<or> is_ascii_digit (last p) \<noteq> is_ascii_digit (hd s)"
  shows "chunks_of (p @ s) = chunks_of p @ chunks_of s"
  using assms
proof (induction "length p" arbitrary: p rule: less_induct)
  case less
  show ?case
  proof (cases "p = [] \<or> s = []")
    case True
    then show ?thesis by (auto simp: chunks_of.simps [of "[]"])
  next
    case False
    define d where "d = is_ascii_digit (hd p)"
    have ne: "p \<noteq> []" "s \<noteq> []" "hd (p @ s) = hd p" using False by simp_all
    show ?thesis
    proof (cases "after_chunk d p = []")
      case True
      then have all: "\<forall>c\<in>set p. is_ascii_digit c = d" by (simp add: after_chunk_def)
      then have "is_ascii_digit (hd s) \<noteq> d" using less.prems ne by auto
      then have "chunk d (p @ s) = p" "after_chunk d (p @ s) = s" "chunk d p = p"
        using all ne(2) by (cases s; auto simp: chunk_def after_chunk_def takeWhile_append dropWhile_append)+
      then show ?thesis using ne True by (simp add: chunks_of.simps [of "p @ s"] chunks_of.simps [of p] d_def chunks_of.simps [of "[]"])
    next
      case rest: False
      then have some: "\<exists>c\<in>set p. is_ascii_digit c \<noteq> d" by (auto simp: after_chunk_def)
      then have split: "chunk d (p @ s) = chunk d p" "after_chunk d (p @ s) = after_chunk d p @ s"
        by (auto simp: chunk_def after_chunk_def takeWhile_append1 dropWhile_append1)
      have "length (after_chunk d p) < length p"
        using ne(1) by (cases p) (auto simp: after_chunk_def d_def le_imp_less_Suc length_dropWhile_le)
      moreover have "last (after_chunk d p) = last p" using rest
        by (metis after_chunk_def dropWhile_eq_drop last_drop drop_eq_Nil linorder_not_less)
      ultimately have "chunks_of (after_chunk d p @ s) = chunks_of (after_chunk d p) @ chunks_of s"
        using less.hyps [of "after_chunk d p"] less.prems ne by simp
      then show ?thesis using ne split by (simp add: chunks_of.simps [of "p @ s"] chunks_of.simps [of p] d_def)
    qed
  qed
qed

lemma chunks_of_digits: "a \<noteq> [] \<Longrightarrow> list_all is_ascii_digit a \<Longrightarrow> chunks_of a = [a]"
proof -
  assume a: "a \<noteq> []" "list_all is_ascii_digit a"
  then have "is_ascii_digit (hd a)" by (cases a) simp_all
  moreover have "chunk True a = a" "after_chunk True a = []"
    using a(2) by (simp_all add: chunk_def after_chunk_def list_all_iff)
  ultimately show ?thesis using a(1) by (simp add: chunks_of.simps [of a] chunks_of.simps [of "[]"])
qed

text \<open>
  The comparison is natural: after a common beginning, two numbers decide by their value, whatever
  their leading zeros and whatever follows them.
\<close>

theorem numbers_compare_by_value:
  assumes "p = [] \<or> \<not> is_ascii_digit (last p)"
    and "digits_value 0 a = Some m" "a \<noteq> []" "u = [] \<or> \<not> is_ascii_digit (hd u)"
    and "digits_value 0 b = Some n" "b \<noteq> []" "v = [] \<or> \<not> is_ascii_digit (hd v)" and "m < n"
  shows "compare_ascii_natural (p @ a @ u) (p @ b @ v) = Less"
proof -
  have keys: "natural_keys (p @ ds @ w) = natural_keys p @ chunk_key ds # natural_keys w"
    if "ds \<noteq> []" "list_all is_ascii_digit ds" "w = [] \<or> \<not> is_ascii_digit (hd w)" for ds w
  proof -
    have "is_ascii_digit (hd ds)" "is_ascii_digit (last ds)" using that(1,2) by (simp_all add: list_all_iff)
    then show ?thesis
      using chunks_of_append [of p "ds @ w"] chunks_of_append [of ds w] chunks_of_digits [OF that(1,2)] that assms(1)
      by (auto simp: natural_keys_def)
  qed
  have ab: "list_all is_ascii_digit a" "list_all is_ascii_digit b" "number_of a < number_of b"
    using assms(2,5,8) by (simp_all add: digits_value_number)
  then have "is_ascii_digit (hd a)" "is_ascii_digit (hd b)" using assms(3,6) by (simp_all add: list_all_iff)
  then have "cmp (chunk_key a) (chunk_key b) = Less"
    using chunk_key_cmp(2) [OF assms(3,6)] compare_digit_chunks_number [OF assms(3) ab(1) assms(6) ab(2)] ab(3)
    by (simp add: cmp_eq)
  moreover have "cmp (xs @ x # ys) (xs @ y # zs) = Less" if "cmp x y = Less" for xs ys zs and x y :: "nat \<times> nat list"
    using that by (induction xs) (simp_all add: cmp_Cons)
  ultimately show ?thesis
    using keys [OF assms(3) ab(1) assms(4)] keys [OF assms(6) ab(2) assms(7)]
    by (simp add: compare_ascii_natural_def natural_loop_key)
qed

theorem numbers_compare_by_value_witness: "compare_ascii_natural ''disk009-b'' ''disk10-a'' = Less"
  using numbers_compare_by_value [of "''disk''" "''009''" 9 "''-b''" "''10''" 10 "''-a''"]
  by (simp add: is_ascii_digit_def digit_value_def)

subsection \<open>Blocks\<close>

definition folded_namespace :: "string \<Rightarrow> string option" where
  "folded_namespace tag = map_option to_ascii_lowercase (tag_namespace tag)"

lemma same_tag_namespace_iff:
  "same_tag_namespace l r \<longleftrightarrow> folded_namespace l = folded_namespace r \<and> folded_namespace l \<noteq> None"
  by (auto simp: same_tag_namespace_def folded_namespace_def eq_ignore_ascii_case_def split: option.splits)

text \<open>Neighbours of one namespace are in order.\<close>

definition blocks_ordered :: "string list \<Rightarrow> bool" where
  "blocks_ordered tags = successively (\<lambda>a b. same_tag_namespace a b \<longrightarrow> compare_tag_names_naturally a b \<noteq> Greater) tags"

lemma normalize_Nil [simp]: "normalize_tag_namespace_blocks [] = []"
  by (simp add: normalize_tag_namespace_blocks.simps)

lemma sort_single: "sort_by f [x] = [x]"
  by (simp add: sort_by_def)

lemma normalize_single:
  "tag_namespace tag = None \<Longrightarrow> normalize_tag_namespace_blocks (tag # rest) = tag # normalize_tag_namespace_blocks rest"
  by (simp add: normalize_tag_namespace_blocks.simps [of "tag # rest"])

lemma normalize_block:
  "tag_namespace tag \<noteq> None \<Longrightarrow> normalize_tag_namespace_blocks (tag # rest) =
     sort_by compare_tag_names_naturally (tag # takeWhile (same_tag_namespace tag) rest)
     @ normalize_tag_namespace_blocks (dropWhile (same_tag_namespace tag) rest)"
  by (auto simp: normalize_tag_namespace_blocks.simps [of "tag # rest"] Let_def sort_single)

lemma normalize_induct [case_names Nil single block]:
  assumes "P []"
    and single: "\<And>tag rest. tag_namespace tag = None \<Longrightarrow> P rest \<Longrightarrow> P (tag # rest)"
    and block: "\<And>tag rest. tag_namespace tag \<noteq> None \<Longrightarrow> P (dropWhile (same_tag_namespace tag) rest) \<Longrightarrow> P (tag # rest)"
  shows "P tags"
proof (induction "length tags" arbitrary: tags rule: less_induct)
  case less
  show ?case
  proof (cases tags)
    case Nil
    then show ?thesis using assms(1) by simp
  next
    case (Cons tag rest)
    have "P rest" "P (dropWhile (same_tag_namespace tag) rest)"
      using less Cons by (simp_all add: le_imp_less_Suc length_dropWhile_le)
    then show ?thesis using single block Cons by blast
  qed
qed

lemma normalize_mset: "mset (normalize_tag_namespace_blocks tags) = mset tags"
proof (induction tags rule: normalize_induct)
  case (block tag rest)
  then show ?case
    unfolding normalize_block [OF block(1)] by (simp, metis mset_append takeWhile_dropWhile_id)
qed (simp_all add: normalize_single)

lemma map_constant: "\<forall>x\<in>set xs. f x = c \<Longrightarrow> map f xs = replicate (length xs) c"
  by (induction xs) auto

lemma block_namespaces:
  assumes "tag_namespace tag \<noteq> None"
  shows "\<forall>x\<in>set (tag # takeWhile (same_tag_namespace tag) rest). folded_namespace x = folded_namespace tag"
  by (auto simp: same_tag_namespace_iff dest!: set_takeWhileD)

lemma normalize_namespaces: "map folded_namespace (normalize_tag_namespace_blocks tags) = map folded_namespace tags"
proof (induction tags rule: normalize_induct)
  case (block tag rest)
  let ?b = "tag # takeWhile (same_tag_namespace tag) rest"
  have "map folded_namespace (sort_by compare_tag_names_naturally ?b) = map folded_namespace ?b"
    using block_namespaces [OF block(1), of rest]
      map_constant [of ?b folded_namespace] map_constant [of "sort_by compare_tag_names_naturally ?b" folded_namespace] by simp
  then have "map folded_namespace (normalize_tag_namespace_blocks (tag # rest))
      = map folded_namespace ?b @ map folded_namespace (dropWhile (same_tag_namespace tag) rest)"
    using block(2) by (simp only: normalize_block [OF block(1)] map_append)
  also have "\<dots> = map folded_namespace (tag # rest)" by (simp flip: map_append)
  finally show ?case .
qed (simp_all add: normalize_single)

lemma normalize_eq_Nil: "normalize_tag_namespace_blocks tags = [] \<longleftrightarrow> tags = []"
  using normalize_namespaces [of tags] by auto

lemma namespace_of_hd:
  assumes "tags \<noteq> []"
  shows "folded_namespace (hd (normalize_tag_namespace_blocks tags)) = folded_namespace (hd tags)"
  using normalize_namespaces [of tags] assms normalize_eq_Nil [of tags] by (metis hd_map)

lemma normalize_ordered: "blocks_ordered (normalize_tag_namespace_blocks tags)"
proof (induction tags rule: normalize_induct)
  case (single tag rest)
  then show ?case
    by (auto simp: normalize_single blocks_ordered_def successively_Cons same_tag_namespace_def)
next
  case (block tag rest)
  let ?s = "sort_by compare_tag_names_naturally (tag # takeWhile (same_tag_namespace tag) rest)"
  have s: "\<forall>x\<in>set ?s. folded_namespace x = folded_namespace tag" using block_namespaces [OF block(1), of rest] by simp
  have "sorted_wrt (\<lambda>a b. compare_tag_names_naturally a b \<noteq> Greater) ?s"
    using tag_order.sorted_sort_by by (simp add: sorted_by_def)
  then have ordered: "blocks_ordered ?s"
    unfolding blocks_ordered_def by (intro successively_if_sorted_wrt) (auto elim: sorted_wrt_mono_rel [rotated])
  have "\<not> same_tag_namespace (last ?s) (hd (normalize_tag_namespace_blocks (dropWhile (same_tag_namespace tag) rest)))"
    if "dropWhile (same_tag_namespace tag) rest \<noteq> []"
  proof -
    have "?s \<noteq> []" by (metis length_0_conv length_sort_by list.distinct(1))
    then have "folded_namespace (last ?s) = folded_namespace tag" using s last_in_set by blast
    moreover have "\<not> same_tag_namespace tag (hd (dropWhile (same_tag_namespace tag) rest))" by (rule hd_dropWhile [OF that])
    ultimately show ?thesis unfolding same_tag_namespace_iff namespace_of_hd [OF that] by simp
  qed
  then show ?case
    using block(2) ordered normalize_eq_Nil unfolding normalize_block [OF block(1)] blocks_ordered_def successively_append_iff by blast
qed (simp add: blocks_ordered_def)

lemma ordered_normalize: "blocks_ordered tags \<Longrightarrow> normalize_tag_namespace_blocks tags = tags"
proof (induction tags rule: normalize_induct)
  case (single tag rest)
  then show ?case by (auto simp: normalize_single blocks_ordered_def successively_Cons)
next
  case (block tag rest)
  let ?b = "tag # takeWhile (same_tag_namespace tag) rest"
  have split: "tag # rest = ?b @ dropWhile (same_tag_namespace tag) rest" by simp
  have "blocks_ordered (?b @ dropWhile (same_tag_namespace tag) rest)" using block.prems by (simp only: split [symmetric])
  then have parts: "blocks_ordered ?b" "blocks_ordered (dropWhile (same_tag_namespace tag) rest)"
    by (simp_all only: blocks_ordered_def successively_append_iff)
  have "successively (\<lambda>a b. compare_tag_names_naturally a b \<noteq> Greater) ?b"
  proof (rule successively_mono [OF parts(1) [unfolded blocks_ordered_def]])
    fix x y
    assume "x \<in> set ?b" "y \<in> set ?b" and imp: "same_tag_namespace x y \<longrightarrow> compare_tag_names_naturally x y \<noteq> Greater"
    then have "folded_namespace x = folded_namespace tag" "folded_namespace y = folded_namespace tag"
      using block_namespaces [OF block(1), of rest] by blast+
    then have "same_tag_namespace x y" using block(1) by (simp add: same_tag_namespace_iff folded_namespace_def)
    then show "compare_tag_names_naturally x y \<noteq> Greater" using imp by blast
  qed
  moreover have "transp (\<lambda>a b. compare_tag_names_naturally a b \<noteq> Greater)"
    by (rule transpI) (rule tag_order.compare_trans)
  ultimately have "sorted_by compare_tag_names_naturally ?b"
    unfolding sorted_by_def by (simp only: successively_conv_sorted_wrt)
  then show ?case
    unfolding normalize_block [OF block(1)] block.IH [OF parts(2)] by (simp only: tag_order.sort_by_sorted split [symmetric])
qed simp


subsection \<open>Insertion\<close>

lemma subseq_insert: "subseq (take i xs @ drop i xs) (take i xs @ x # drop i xs)"
  by (rule list_emb_append_mono) (auto intro: list_emb_Cons)

lemma set_inserted: "set (take i xs @ x # drop i xs) = insert x (set xs)"
  using set_append [of "take i xs" "drop i xs"] by simp

lemma distinct_inserted: "distinct (take i xs @ x # drop i xs) \<longleftrightarrow> x \<notin> set xs \<and> distinct xs"
proof -
  have "mset (take i xs @ x # drop i xs) = mset (x # xs)"
    using mset_append [of "take i xs" "drop i xs"] by simp
  then show ?thesis by (metis distinct.simps(2) mset_eq_imp_distinct_iff)
qed

lemma insert_tag_facts:
  "set (insert_tag tags t) = insert t (set tags)" "distinct tags \<Longrightarrow> distinct (insert_tag tags t)" "subseq tags (insert_tag tags t)"
proof -
  have "\<exists>i. insert_tag tags t = take i tags @ t # drop i tags" if "t \<notin> set tags"
  proof -
    have "\<exists>i. tags @ [t] = take i tags @ t # drop i tags" by (rule exI [of _ "length tags"]) simp
    then show ?thesis using that unfolding insert_tag_def Let_def by (auto split: option.split)
  qed
  then consider "insert_tag tags t = tags" "t \<in> set tags"
    | i where "insert_tag tags t = take i tags @ t # drop i tags" "t \<notin> set tags"
    by (cases "t \<in> set tags") (auto simp: insert_tag_def)
  then show "set (insert_tag tags t) = insert t (set tags)" "distinct tags \<Longrightarrow> distinct (insert_tag tags t)"
      "subseq tags (insert_tag tags t)"
    using subseq_insert [of _ tags t] by (cases; auto simp only: set_inserted distinct_inserted append_take_drop_id insert_absorb)+
qed

text \<open>
  Adding tags loses none, adds none twice and keeps the order of the tags that were there;
  with sorting switched on the order changes inside the blocks only.
\<close>

theorem inserted_tags_kept:
  assumes "distinct ordered_tags"
  shows "\<exists>tags. insert_tags_into_last_namespace_blocks ordered_tags additions enabled
        = (if enabled then normalize_tag_namespace_blocks tags else tags)
      \<and> subseq ordered_tags tags \<and> distinct tags \<and> set tags = set ordered_tags \<union> set additions"
proof -
  have "subseq ordered_tags (fold (\<lambda>a ts. insert_tag ts a) additions ordered_tags)
      \<and> distinct (fold (\<lambda>a ts. insert_tag ts a) additions ordered_tags)
      \<and> set (fold (\<lambda>a ts. insert_tag ts a) additions ordered_tags) = set ordered_tags \<union> set additions"
    using assms
  proof (induction additions arbitrary: ordered_tags)
    case (Cons a as)
    then show ?case
      using Cons.IH [of "insert_tag ordered_tags a"] insert_tag_facts [of ordered_tags a]
        subseq_order.trans [of ordered_tags "insert_tag ordered_tags a"] by simp
  qed simp
  then show ?thesis by (auto simp: insert_tags_into_last_namespace_blocks_def Let_def)
qed

theorem inserted_tags_kept_witness:
  "insert_tags_into_last_namespace_blocks [''eu:b'', ''x''] [''EU:a'', ''x''] False = [''eu:b'', ''EU:a'', ''x'']
     \<and> set (insert_tags_into_last_namespace_blocks [''eu:b'', ''x''] [''EU:a'', ''x''] False)
         = set [''eu:b'', ''x''] \<union> set [''EU:a'', ''x'']"
proof -
  have "insert_tags_into_last_namespace_blocks [''eu:b'', ''x''] [''EU:a'', ''x''] False = [''eu:b'', ''EU:a'', ''x'']"
    by code_simp
  then show ?thesis using inserted_tags_kept [of "[''eu:b'', ''x'']" "[''EU:a'', ''x'']" False] by auto
qed

end
