(* ===== verification/Vps_Rules.thy ===== *)
theory Vps_Rules
  imports Rust_Str
begin

section \<open>Rules of a machine\<close>

text \<open>
  \<open>common/src/config/vps_rules.rs\<close>: the values an operator writes for the rules of a machine (quotas, billing,
  interfaces), each with its canonical text, its JSON form and its display text. Errors are the
  code's error strings. Checked 128-bit arithmetic is arithmetic on natural numbers with the bound
  written out. JSON values are those of \<open>serde_json\<close>; an object is the list of its members. Only the display of a
  quota uses floating point: its operations are the parameter \<open>f64_ops\<close>.
\<close>

subsection \<open>Strings\<close>

text \<open>\<open>chars().any(char::is_whitespace)\<close> and \<open>char::is_control\<close> on the bytes of a string.\<close>

fun has_white :: "string \<Rightarrow> bool" where
  "has_white [] = False"
| "has_white (c # cs) = (ws_len (c # cs) > 0 \<or> has_white cs)"

fun has_control :: "string \<Rightarrow> bool" where
  "has_control [] = False"
| "has_control (c # cs) =
     (byte c < 0x20 \<or> byte c = 0x7F \<or> byte c = 0xC2 \<and> cs \<noteq> [] \<and> 0x80 \<le> byte (hd cs) \<and> byte (hd cs) \<le> 0x9F
      \<or> has_control cs)"

function without_white :: "string \<Rightarrow> string" where
  "without_white [] = []"
| "without_white (c # cs) =
     (if ws_len (c # cs) > 0 then without_white (drop (ws_len (c # cs) - 1) cs) else c # without_white cs)"
  by pat_completeness auto
termination by (relation "measure length") auto

definition pad2 :: "nat \<Rightarrow> string" where
  "pad2 n = (if n < 10 then ''0'' @ show_nat n else show_nat n)"

definition all_digits :: "string \<Rightarrow> bool" where
  "all_digits s = list_all is_ascii_digit s"

definition trim_zeros_start :: "string \<Rightarrow> string" where
  "trim_zeros_start s = dropWhile (\<lambda>c. c = CHR ''0'') s"

definition trim_zeros_end :: "string \<Rightarrow> string" where
  "trim_zeros_end s = rev (dropWhile (\<lambda>c. c = CHR ''0'') (rev s))"

definition split_once_or :: "char \<Rightarrow> string \<Rightarrow> string \<times> string" where
  "split_once_or d s = (case split_once d s of Some p \<Rightarrow> p | None \<Rightarrow> (s, []))"

subsection \<open>JSON and floating point\<close>

datatype 'f json = JNull | JBool bool | JInt int | JFloat 'f | JString string | JArray "'f json list"
  | JObject "(string \<times> 'f json) list"

definition json_get :: "'f json \<Rightarrow> string \<Rightarrow> 'f json option" where
  "json_get v k = (case v of JObject members \<Rightarrow> map_of members k | _ \<Rightarrow> None)"

definition as_str :: "'f json \<Rightarrow> string option" where
  "as_str v = (case v of JString s \<Rightarrow> Some s | _ \<Rightarrow> None)"

definition as_array :: "'f json \<Rightarrow> 'f json list option" where
  "as_array v = (case v of JArray vs \<Rightarrow> Some vs | _ \<Rightarrow> None)"

record 'f f64_ops =
  f64_of_int :: "int \<Rightarrow> 'f"
  f64_div :: "'f \<Rightarrow> 'f \<Rightarrow> 'f"
  f64_ge :: "'f \<Rightarrow> 'f \<Rightarrow> bool"
  f64_fixed :: "nat \<Rightarrow> 'f \<Rightarrow> string"
  f64_parse :: "string \<Rightarrow> 'f option"
  f64_show :: "'f \<Rightarrow> string"
  f64_is_finite :: "'f \<Rightarrow> bool"
  f64_is_whole :: "'f \<Rightarrow> bool"
  f64_to_i64 :: "'f \<Rightarrow> int"

subsection \<open>Keys\<close>

definition SUPPORTED_VPS_RULE_KEYS :: "string list" where
  "SUPPORTED_VPS_RULE_KEYS =
     [''billing.price'', ''billing.cycle'', ''network.port_speed'', ''network.interfaces'', ''network.rate.interfaces'',
      ''product.name'', ''traffic.reset_day'', ''traffic.quota.total'', ''traffic.quota.rx'', ''traffic.quota.tx'',
      ''traffic.selectors'']"

definition MAX_VPS_RULE_VALUE_BYTES :: nat where "MAX_VPS_RULE_VALUE_BYTES = 4096"
definition MAX_PRODUCT_NAME_BYTES :: nat where "MAX_PRODUCT_NAME_BYTES = 160"
definition MAX_TRAFFIC_SELECTOR_ITEMS :: nat where "MAX_TRAFFIC_SELECTOR_ITEMS = 16"
definition MAX_TRAFFIC_INTERFACE_BYTES :: nat where "MAX_TRAFFIC_INTERFACE_BYTES = 128"
definition MAX_BILLING_PRICE_WHOLE_DIGITS :: nat where "MAX_BILLING_PRICE_WHOLE_DIGITS = 9"

record 'f parsed_vps_rule_value =
  pv_raw :: string
  pv_json :: "'f json"
  pv_display :: string

definition normalize_vps_rule_key :: "string \<Rightarrow> string + string" where
  "normalize_vps_rule_key key =
     (let key = trim key in
      if key \<in> set SUPPORTED_VPS_RULE_KEYS then Inr key else Inl ''vps_rules_key_unsupported'')"

subsection \<open>Numbers\<close>

definition u128_max :: nat where "u128_max = 2 ^ 128 - 1"

definition checked_u128 :: "'e \<Rightarrow> nat \<Rightarrow> 'e + nat" where
  "checked_u128 e n = (if n \<le> u128_max then Inr n else Inl e)"

text \<open>One round of the multiplication of the fraction, from its last digit to its first.\<close>

definition fraction_digit :: "nat \<Rightarrow> nat \<times> nat \<Rightarrow> char \<Rightarrow> string + nat \<times> nat" where
  "fraction_digit multiplier s digit =
     and_then (checked_u128 ''byte_size_too_large'' (digit_value digit * multiplier)) (\<lambda>v.
     and_then (checked_u128 ''byte_size_too_large'' (v + fst s)) (\<lambda>product.
       Inr (product div 10, product mod 10)))"

definition checked_decimal_times_multiplier :: "string \<Rightarrow> string \<Rightarrow> nat \<Rightarrow> string + int" where
  "checked_decimal_times_multiplier whole fraction multiplier =
     (let normalized_whole = trim_zeros_start whole in
      and_then (if normalized_whole = [] then Inr 0
                else ok_or ''byte_size_too_large'' (parse_unsigned u128_max normalized_whole)) (\<lambda>whole_value.
      and_then (checked_u128 ''byte_size_too_large'' (whole_value * multiplier)) (\<lambda>whole_scaled.
      and_then (try_fold (fraction_digit multiplier) (0, 0) (rev fraction)) (\<lambda>(carry, remainder_tenths).
      and_then (if remainder_tenths \<ge> 5 then checked_u128 ''byte_size_too_large'' (carry + 1) else Inr carry) (\<lambda>fractional_scaled.
      and_then (checked_u128 ''byte_size_too_large'' (whole_scaled + fractional_scaled)) (\<lambda>scaled.
      if scaled \<le> 2 ^ 63 - 1 then Inr (int scaled) else Inl ''byte_size_too_large''))))))"

definition normalize_decimal_text :: "string \<Rightarrow> string \<Rightarrow> string" where
  "normalize_decimal_text whole fraction =
     (let whole = trim_zeros_start whole; whole = (if whole = [] then ''0'' else whole);
          fraction = trim_zeros_end fraction
      in if fraction = [] then whole else whole @ ''.'' @ fraction)"

definition byte_units :: "(string \<times> string \<times> nat) list" where
  "byte_units =
     [('''', '''', 1), (''b'', ''B'', 1), (''kb'', ''KB'', 1000), (''mb'', ''MB'', 1000000), (''gb'', ''GB'', 1000000000),
      (''tb'', ''TB'', 1000000000000), (''kib'', ''KiB'', 1024), (''mib'', ''MiB'', 1048576), (''gib'', ''GiB'', 1073741824),
      (''tib'', ''TiB'', 1099511627776)]"

definition parse_byte_size :: "string \<Rightarrow> string + int \<times> string" where
  "parse_byte_size raw =
     (let v = trim raw in
      and_then (ensure (v \<noteq> []) ''byte_size_empty'') (\<lambda>_.
      let number_raw = takeWhile (\<lambda>c. is_ascii_digit c \<or> c = CHR ''.'') v;
          suffix = to_ascii_lowercase (trim (dropWhile (\<lambda>c. is_ascii_digit c \<or> c = CHR ''.'') v)) in
      and_then (ok_or ''byte_size_unit_invalid'' (map_of byte_units suffix)) (\<lambda>(unit, multiplier).
      case split_once_or (CHR ''.'') number_raw of (whole, fraction) \<Rightarrow>
      and_then (ensure (whole \<noteq> [] \<and> all_digits whole \<and> all_digits fraction \<and> count_list number_raw (CHR ''.'') \<le> 1)
        ''byte_size_number_invalid'') (\<lambda>_.
      and_then (ensure (list_ex (\<lambda>c. c \<noteq> CHR ''0'') (whole @ fraction)) ''byte_size_number_invalid'') (\<lambda>_.
      and_then (checked_decimal_times_multiplier whole fraction multiplier) (\<lambda>bytes.
      Inr (bytes, normalize_decimal_text whole fraction @ unit)))))))"

fun display_units :: "'f f64_ops \<Rightarrow> int \<Rightarrow> (string \<times> int) list \<Rightarrow> string" where
  "display_units f bytes [] = show_int bytes @ '' B''"
| "display_units f bytes ((unit, factor) # units) =
     (if f64_ge f (f64_of_int f bytes) (f64_of_int f factor) \<or> unit = ''B'' then
        let v = f64_div f (f64_of_int f bytes) (f64_of_int f factor) in
        if unit = ''B'' then show_int bytes @ '' B''
        else if f64_ge f v (f64_of_int f 10) then f64_fixed f 0 v @ '' '' @ unit
        else f64_fixed f 1 v @ '' '' @ unit
      else display_units f bytes units)"

definition display_bytes :: "'f f64_ops \<Rightarrow> int \<Rightarrow> string" where
  "display_bytes f bytes =
     display_units f bytes [(''TB'', 1000000000000), (''GB'', 1000000000), (''MB'', 1000000), (''KB'', 1000), (''B'', 1)]"

subsection \<open>Traffic and billing\<close>

definition reset_hour :: "string \<Rightarrow> string + int" where
  "reset_hour time =
     (let parts = split_on (CHR '':'') time; e = ''traffic_reset_day_invalid'' in
      and_then (ensure (length parts = 2) e) (\<lambda>_.
      and_then (ensure (length (parts ! 0) = 2 \<and> length (parts ! 1) = 2 \<and> list_all all_digits parts) e) (\<lambda>_.
      and_then (ok_or e (parse_signed (- (2 ^ 31)) (2 ^ 31 - 1) (parts ! 0))) (\<lambda>hour.
      and_then (ok_or e (parse_signed (- (2 ^ 31)) (2 ^ 31 - 1) (parts ! 1))) (\<lambda>minute.
      and_then (ensure (0 \<le> hour \<and> hour \<le> 23 \<and> 0 \<le> minute \<and> minute \<le> 59) e) (\<lambda>_.
      Inr hour))))))"

definition parse_traffic_reset_day :: "string \<Rightarrow> string + 'f parsed_vps_rule_value" where
  "parse_traffic_reset_day raw =
     (let parts = split_whitespace raw; e = ''traffic_reset_day_invalid'' in
      and_then (ensure (1 \<le> length parts \<and> length parts \<le> 2) e) (\<lambda>_.
      and_then (ok_or e (parse_signed (- (2 ^ 31)) (2 ^ 31 - 1) (parts ! 0))) (\<lambda>day.
      and_then (ensure (day = -1 \<or> 1 \<le> day \<and> day \<le> 31) e) (\<lambda>_.
      if day = -1 then
        and_then (ensure (length parts = 1) e) (\<lambda>_.
        Inr \<lparr>pv_raw = ''-1'', pv_json = JObject [(''day'', JInt (-1)), (''hour'', JInt 0)], pv_display = ''-''\<rparr>)
      else
        and_then (if length parts > 1 then reset_hour (parts ! 1) else Inr 0) (\<lambda>hour.
        let canonical = show_int day @ '' '' @ pad2 (nat hour) @ '':00'' in
        Inr \<lparr>pv_raw = canonical, pv_json = JObject [(''day'', JInt day), (''hour'', JInt hour)],
             pv_display = canonical @ '' UTC''\<rparr>)))))"

definition parse_product_name :: "string \<Rightarrow> string + 'f parsed_vps_rule_value" where
  "parse_product_name raw =
     (let canonical = join_with '' '' (split_whitespace raw) in
      and_then (ensure (canonical \<noteq> []) ''product_name_empty'') (\<lambda>_.
      and_then (ensure (length canonical \<le> MAX_PRODUCT_NAME_BYTES) ''product_name_too_long'') (\<lambda>_.
      and_then (ensure (\<not> has_control canonical) ''product_name_control_character_invalid'') (\<lambda>_.
      Inr \<lparr>pv_raw = canonical, pv_json = JObject [(''name'', JString canonical), (''display'', JString canonical)],
           pv_display = canonical\<rparr>))))"

definition parse_traffic_quota :: "'f f64_ops \<Rightarrow> string \<Rightarrow> string + 'f parsed_vps_rule_value" where
  "parse_traffic_quota f raw =
     (if raw = ''-1'' then
        Inr \<lparr>pv_raw = ''-1'',
             pv_json = JObject [(''bytes'', JInt (-1)), (''unlimited'', JBool True), (''display'', JString ''Unlimited'')],
             pv_display = ''Unlimited''\<rparr>
      else and_then (parse_byte_size raw) (\<lambda>(bytes, canonical).
        Inr \<lparr>pv_raw = canonical, pv_json = JObject [(''bytes'', JInt bytes), (''display'', JString (display_bytes f bytes))],
             pv_display = show_int bytes @ '' bytes''\<rparr>))"

definition normalize_billing_price :: "string \<Rightarrow> string + string" where
  "normalize_billing_price input =
     (case split_once_or (CHR ''.'') input of (whole, fraction) \<Rightarrow>
      and_then (ensure (whole \<noteq> [] \<and> length whole \<le> MAX_BILLING_PRICE_WHOLE_DIGITS \<and> all_digits whole
          \<and> length fraction \<le> 2 \<and> all_digits fraction \<and> count_list input (CHR ''.'') \<le> 1)
        ''billing_plan_price_invalid'') (\<lambda>_.
      let whole = trim_zeros_start whole; whole = (if whole = [] then ''0'' else whole);
          fraction = (if length fraction = 0 then ''00'' else if length fraction = 1 then fraction @ ''0'' else fraction)
      in Inr (whole @ ''.'' @ fraction)))"

text \<open>The currency signs, in UTF-8: yuan (two forms), euro and pound.\<close>

definition yen_sign :: string where "yen_sign = [CHR 0xC2, CHR 0xA5]"
definition fullwidth_yen_sign :: string where "fullwidth_yen_sign = [CHR 0xEF, CHR 0xBF, CHR 0xA5]"
definition euro_sign :: string where "euro_sign = [CHR 0xE2, CHR 0x82, CHR 0xAC]"
definition pound_sign :: string where "pound_sign = [CHR 0xC2, CHR 0xA3]"

definition normalize_billing_currency :: "string \<Rightarrow> string + string \<times> string" where
  "normalize_billing_currency input =
     (let upper = to_ascii_uppercase input in
      if input = ''$'' then Inr (''USD'', ''$'')
      else if input = yen_sign \<or> input = fullwidth_yen_sign then Inr (''CNY'', yen_sign)
      else if input = euro_sign then Inr (''EUR'', euro_sign)
      else if input = pound_sign then Inr (''GBP'', pound_sign)
      else if length upper = 3 \<and> list_all is_ascii_alphabetic upper then Inr (upper, upper)
      else Inl ''billing_plan_currency_invalid'')"

text \<open>The end of the amount: the first character that is not a digit, a point or white space.\<close>

function amount_len :: "string \<Rightarrow> nat" where
  "amount_len [] = 0"
| "amount_len (c # cs) =
     (if is_ascii_digit c \<or> c = CHR ''.'' then Suc (amount_len cs)
      else if ws_len (c # cs) > 0 then ws_len (c # cs) + amount_len (drop (ws_len (c # cs) - 1) cs)
      else 0)"
  by pat_completeness auto
termination by (relation "measure length") auto

definition billing_periods :: "(string \<times> string \<times> string) list" where
  "billing_periods = [(''m'', ''m'', ''month''), (''q'', ''q'', ''quarter''), (''h'', ''hy'', ''half_year''),
     (''hy'', ''hy'', ''half_year''), (''y'', ''y'', ''year'')]"

definition parse_billing_price :: "string \<Rightarrow> string + 'f parsed_vps_rule_value" where
  "parse_billing_price raw =
     (if without_white raw = ''-1'' then
        Inr \<lparr>pv_raw = ''-1'', pv_json = JObject [(''disabled'', JBool True), (''display'', JString ''-'')], pv_display = ''-''\<rparr>
      else
        and_then (ok_or ''billing_plan_period_required'' (split_once (CHR ''/'') raw)) (\<lambda>(amount_and_currency, period_input).
        and_then (ensure (CHR ''/'' \<notin> set period_input \<and> \<not> has_white (trim period_input)) ''billing_plan_period_invalid'') (\<lambda>_.
        let amount_and_currency = trim amount_and_currency; currency_start = amount_len amount_and_currency in
        and_then (ensure (currency_start < length amount_and_currency) ''billing_plan_currency_required'') (\<lambda>_.
        let amount = trim_end (take currency_start amount_and_currency);
            currency_input = trim (drop currency_start amount_and_currency) in
        and_then (ensure (\<not> has_white amount \<and> \<not> has_white currency_input) ''billing_plan_price_invalid'') (\<lambda>_.
        and_then (normalize_billing_price amount) (\<lambda>price.
        and_then (normalize_billing_currency currency_input) (\<lambda>(currency, currency_display).
        and_then (ok_or ''billing_plan_period_invalid'' (map_of billing_periods (to_ascii_lowercase (trim period_input))))
          (\<lambda>(period_code, period).
        let display = price @ '' '' @ currency_display @ ''/'' @ period_code in
        Inr \<lparr>pv_raw = display,
             pv_json = JObject [(''disabled'', JBool False), (''price'', JString price), (''currency'', JString currency),
               (''currency_display'', JString currency_display), (''period'', JString period),
               (''period_code'', JString period_code), (''display'', JString display)],
             pv_display = display\<rparr>))))))))"

definition parse_billing_day :: "string \<Rightarrow> string + nat" where
  "parse_billing_day input =
     and_then (ok_or ''billing_cycle_day_invalid'' (parse_unsigned 255 (trim input))) (\<lambda>day.
     and_then (ensure (1 \<le> day \<and> day \<le> 31) ''billing_cycle_day_invalid'') (\<lambda>_. Inr day))"

definition parse_billing_month :: "string \<Rightarrow> string + nat" where
  "parse_billing_month input =
     and_then (ok_or ''billing_cycle_month_invalid'' (parse_unsigned 255 (trim input))) (\<lambda>month.
     and_then (ensure (1 \<le> month \<and> month \<le> 12) ''billing_cycle_month_invalid'') (\<lambda>_. Inr month))"

definition maximum_day :: "nat \<Rightarrow> nat" where
  "maximum_day month = (if month = 2 then 29 else if month \<in> {4, 6, 9, 11} then 30 else 31)"

definition parse_billing_cycle :: "string \<Rightarrow> string + 'f parsed_vps_rule_value" where
  "parse_billing_cycle raw =
     and_then (case split_once (CHR ''-'') raw of
         Some (month, day) \<Rightarrow>
           and_then (parse_billing_day day) (\<lambda>day. and_then (parse_billing_month month) (\<lambda>month. Inr (day, Some month)))
       | None \<Rightarrow> and_then (parse_billing_day raw) (\<lambda>day. Inr (day, None))) (\<lambda>(day, month).
     and_then (case month of Some month \<Rightarrow> ensure (day \<le> maximum_day month) ''billing_cycle_day_invalid'' | None \<Rightarrow> Inr ()) (\<lambda>_.
     let display = (case month of None \<Rightarrow> show_nat day | Some month \<Rightarrow> pad2 month @ ''-'' @ pad2 day) in
     Inr \<lparr>pv_raw = display,
          pv_json = JObject [(''day'', JInt (int day)),
            (''month'', case month of None \<Rightarrow> JNull | Some month \<Rightarrow> JInt (int month)), (''display'', JString display)],
          pv_display = display\<rparr>))"

definition speed_units :: "(string \<times> string \<times> nat) list" where
  "speed_units = [(''bps'', ''bps'', 1), (''kbps'', ''Kbps'', 1000), (''mbps'', ''Mbps'', 1000000),
     (''gbps'', ''Gbps'', 1000000000), (''tbps'', ''Tbps'', 1000000000000)]"

definition parse_port_speed :: "string \<Rightarrow> string + 'f parsed_vps_rule_value" where
  "parse_port_speed raw =
     (let raw = trim raw; amount_text = takeWhile (\<lambda>c. \<not> is_ascii_alphabetic c) raw;
          unit_text = dropWhile (\<lambda>c. \<not> is_ascii_alphabetic c) raw;
          e = ''port_speed_value_invalid''; too_large = ''port_speed_value_too_large'' in
      and_then (ensure (unit_text \<noteq> []) ''port_speed_unit_required'') (\<lambda>_.
      let amount = trim_end amount_text; unit_input = trim unit_text in
      and_then (ensure (\<not> has_white amount \<and> \<not> has_white unit_input) e) (\<lambda>_.
      and_then (ok_or ''port_speed_unit_invalid'' (map_of speed_units (to_ascii_lowercase unit_input))) (\<lambda>(unit, multiplier).
      case split_once_or (CHR ''.'') amount of (whole, fraction) \<Rightarrow>
      and_then (ensure (whole \<noteq> [] \<and> all_digits whole \<and> length fraction \<le> 3 \<and> all_digits fraction
          \<and> count_list amount (CHR ''.'') \<le> 1) e) (\<lambda>_.
      and_then (checked_u128 too_large (10 ^ length fraction)) (\<lambda>scale.
      and_then (ok_or e (parse_unsigned u128_max whole)) (\<lambda>whole_value.
      and_then (if fraction = [] then Inr 0 else ok_or e (parse_unsigned u128_max fraction)) (\<lambda>fraction_value.
      and_then (and_then (checked_u128 too_large (whole_value * scale)) (\<lambda>v. checked_u128 too_large (v + fraction_value))) (\<lambda>scaled.
      and_then (checked_u128 too_large (scaled * multiplier)) (\<lambda>product.
      let bps = product div scale in
      and_then (ensure (bps > 0 \<and> bps \<le> 2 ^ 63 - 1) e) (\<lambda>_.
      let display = normalize_decimal_text whole fraction @ '' '' @ unit in
      Inr \<lparr>pv_raw = display, pv_json = JObject [(''bps'', JInt (int bps)), (''display'', JString display)],
           pv_display = display\<rparr>)))))))))))"

subsection \<open>Interfaces\<close>

record traffic_selector =
  ts_source :: string
  ts_interface :: string
  ts_direction :: string
  ts_canonical :: string

definition interface_text_ok :: "string \<Rightarrow> bool" where
  "interface_text_ok s \<longleftrightarrow> length s \<le> MAX_TRAFFIC_INTERFACE_BYTES
     \<and> CHR '','' \<notin> set s \<and> CHR ''+'' \<notin> set s \<and> CHR '':'' \<notin> set s \<and> \<not> has_white s \<and> \<not> has_control s"

definition canonical_selector :: "string \<Rightarrow> string \<Rightarrow> string \<Rightarrow> string" where
  "canonical_selector source interface direction =
     (if source = ''host'' then (if direction = ''total'' then interface else interface @ ''+'' @ direction)
      else if direction = ''total'' then source @ '':'' @ interface
      else source @ '':'' @ interface @ ''+'' @ direction)"

definition selector_directions :: "(string \<times> string) list" where
  "selector_directions = [(''rx'', ''rx''), (''tx'', ''tx''), (''total'', ''total''), (''rx+tx'', ''total''), (''tx+rx'', ''total''),
     (''tx/rx'', ''tx/rx''), (''rx/tx'', ''tx/rx'')]"

definition parse_traffic_selector :: "string \<Rightarrow> string + traffic_selector" where
  "parse_traffic_selector item =
     (let item = trim item in
      and_then (ensure (item \<noteq> []) ''traffic_selector_empty_item'') (\<lambda>_.
      and_then (case split_once (CHR '':'') item of
          Some (source, rest) \<Rightarrow>
            let source = to_ascii_lowercase (trim source) in
            and_then (ensure (source = ''host'' \<or> source = ''tunnel'') ''traffic_selector_source_invalid'') (\<lambda>_.
            Inr (source, rest))
        | None \<Rightarrow> Inr (''host'', item)) (\<lambda>(source, rest).
      case (case split_once (CHR ''+'') rest of
          Some (interface, direction) \<Rightarrow> (trim interface, to_ascii_lowercase (trim direction))
        | None \<Rightarrow> (trim rest, ''total'')) of (interface, direction) \<Rightarrow>
      and_then (ensure (interface \<noteq> []) ''traffic_selector_interface_required'') (\<lambda>_.
      and_then (ensure (interface_text_ok interface \<and> CHR ''*'' \<notin> set interface) ''traffic_selector_interface_invalid'') (\<lambda>_.
      and_then (ok_or ''traffic_selector_direction_invalid'' (map_of selector_directions direction)) (\<lambda>direction.
      Inr \<lparr>ts_source = source, ts_interface = interface, ts_direction = direction,
           ts_canonical = canonical_selector source interface direction\<rparr>))))))"

definition traffic_selector_direction_mask :: "traffic_selector \<Rightarrow> u8" where
  "traffic_selector_direction_mask selector =
     (if ts_direction selector = ''rx'' then 1 else if ts_direction selector = ''tx'' then 2 else 3)"

text \<open>The loop over the items: the selectors so far, the canonical texts seen and the directions taken of each interface.\<close>

record selector_scan =
  sc_selectors :: "traffic_selector list"
  sc_seen :: "string set"
  sc_directions :: "string \<times> string \<Rightarrow> u8"

unbundle bit_operations_syntax

definition scan_selector :: "selector_scan \<Rightarrow> string \<Rightarrow> string + selector_scan" where
  "scan_selector s item =
     and_then (parse_traffic_selector item) (\<lambda>selector.
     and_then (ensure (ts_canonical selector \<notin> sc_seen s) ''traffic_selector_duplicate'') (\<lambda>_.
     let requested = traffic_selector_direction_mask selector; key = (ts_source selector, ts_interface selector);
         selected = sc_directions s key in
     and_then (ensure (selected AND requested = 0) ''traffic_selector_direction_overlap'') (\<lambda>_.
     Inr \<lparr>sc_selectors = sc_selectors s @ [selector], sc_seen = insert (ts_canonical selector) (sc_seen s),
          sc_directions = (sc_directions s)(key := selected OR requested)\<rparr>)))"

definition parse_traffic_selector_list :: "string \<Rightarrow> string + traffic_selector list" where
  "parse_traffic_selector_list input =
     (let raw = trim input in
      and_then (ensure (raw \<noteq> []) ''traffic_selector_empty'') (\<lambda>_.
      and_then (try_fold scan_selector \<lparr>sc_selectors = [], sc_seen = {}, sc_directions = (\<lambda>_. 0)\<rparr> (split_on (CHR '','') raw)) (\<lambda>s.
      and_then (ensure (length (sc_selectors s) \<le> MAX_TRAFFIC_SELECTOR_ITEMS) ''traffic_selector_too_many_items'') (\<lambda>_.
      Inr (sc_selectors s)))))"

definition traffic_selector_json :: "traffic_selector \<Rightarrow> 'f json" where
  "traffic_selector_json selector = JObject [(''source'', JString (ts_source selector)),
     (''interface'', JString (ts_interface selector)), (''direction'', JString (ts_direction selector)),
     (''canonical'', JString (ts_canonical selector))]"

definition canonical_selector_list :: "traffic_selector list \<Rightarrow> string" where
  "canonical_selector_list selectors = join_with '','' (map ts_canonical selectors)"

definition exact_selectors :: "string \<Rightarrow> traffic_selector list \<Rightarrow> 'f parsed_vps_rule_value" where
  "exact_selectors what selectors =
     \<lparr>pv_raw = canonical_selector_list selectors,
      pv_json = JObject [(''mode'', JString ''exact''), (''selectors'', JArray (map traffic_selector_json selectors))],
      pv_display = show_nat (length selectors) @ what\<rparr>"

definition parse_traffic_selectors :: "string \<Rightarrow> string + 'f parsed_vps_rule_value" where
  "parse_traffic_selectors raw =
     (if raw = ''*'' then
        Inr \<lparr>pv_raw = ''*'', pv_json = JObject [(''mode'', JString ''all'')], pv_display = ''All eligible interfaces''\<rparr>
      else and_then (parse_traffic_selector_list raw) (\<lambda>selectors. Inr (exact_selectors '' selectors'' selectors)))"

definition validate_network_interface_pattern :: "string \<Rightarrow> string + unit" where
  "validate_network_interface_pattern pattern =
     ensure (pattern \<noteq> [] \<and> interface_text_ok pattern
       \<and> (let stars = count_list pattern (CHR ''*'') in
          if stars = 0 then True else if stars = 1 then last pattern = CHR ''*'' else False))
       ''network_interfaces_pattern_invalid''"

definition scan_pattern :: "string list \<Rightarrow> string \<Rightarrow> string + string list" where
  "scan_pattern patterns item =
     (let pattern = trim item in
      and_then (validate_network_interface_pattern pattern) (\<lambda>_.
      and_then (ensure (pattern \<noteq> ''*'') ''network_interfaces_all_must_stand_alone'') (\<lambda>_.
      and_then (ensure (pattern \<notin> set patterns) ''network_interfaces_pattern_duplicate'') (\<lambda>_.
      Inr (patterns @ [pattern])))))"

definition parse_network_interface_patterns :: "string \<Rightarrow> string + string list" where
  "parse_network_interface_patterns input =
     and_then (try_fold scan_pattern [] (split_on (CHR '','') input)) (\<lambda>patterns.
     and_then (ensure (patterns \<noteq> [] \<and> length patterns \<le> MAX_TRAFFIC_SELECTOR_ITEMS) ''network_interfaces_too_many_patterns'') (\<lambda>_.
     Inr patterns))"

definition parse_network_interfaces :: "string \<Rightarrow> string + 'f parsed_vps_rule_value" where
  "parse_network_interfaces raw =
     (if raw = ''*'' then
        Inr \<lparr>pv_raw = ''*'', pv_json = JObject [(''mode'', JString ''all'')], pv_display = ''All reported interfaces''\<rparr>
      else and_then (parse_network_interface_patterns raw) (\<lambda>patterns.
        Inr \<lparr>pv_raw = join_with '','' patterns,
             pv_json = JObject [(''mode'', JString ''patterns''), (''patterns'', JArray (map JString patterns))],
             pv_display = show_nat (length patterns) @ '' interface patterns''\<rparr>))"

definition parse_network_rate_interfaces :: "string \<Rightarrow> string + 'f parsed_vps_rule_value" where
  "parse_network_rate_interfaces raw =
     (if raw = ''[traffic.selectors]'' then
        Inr \<lparr>pv_raw = ''[traffic.selectors]'',
             pv_json = JObject [(''mode'', JString ''reference''), (''reference'', JObject [(''rule'', JString ''traffic.selectors'')])],
             pv_display = ''Traffic selectors (referenced)''\<rparr>
      else if raw = ''*'' then
        Inr \<lparr>pv_raw = ''*'', pv_json = JObject [(''mode'', JString ''all'')], pv_display = ''All eligible interfaces''\<rparr>
      else if raw = ''[]'' then
        Inr \<lparr>pv_raw = ''[]'', pv_json = JObject [(''mode'', JString ''exact''), (''selectors'', JArray [])],
             pv_display = ''No live-rate interfaces''\<rparr>
      else and_then (parse_traffic_selector_list raw) (\<lambda>selectors.
        and_then (ensure (list_all (\<lambda>s. ts_source s = ''host'') selectors) ''network_rate_selector_source_invalid'') (\<lambda>_.
        Inr (exact_selectors '' live-rate selectors'' selectors))))"

definition parse_vps_rule_value :: "'f f64_ops \<Rightarrow> string \<Rightarrow> string \<Rightarrow> string + 'f parsed_vps_rule_value" where
  "parse_vps_rule_value f key v =
     and_then (normalize_vps_rule_key key) (\<lambda>key.
     and_then (ensure (length v \<le> MAX_VPS_RULE_VALUE_BYTES) ''vps_rules_value_too_long'') (\<lambda>_.
     let raw = trim v in
     and_then (ensure (raw \<noteq> []) ''vps_rules_empty_value_invalid'') (\<lambda>_.
     if key = ''traffic.reset_day'' then parse_traffic_reset_day raw
     else if key = ''traffic.quota.total'' \<or> key = ''traffic.quota.rx'' \<or> key = ''traffic.quota.tx'' then parse_traffic_quota f raw
     else if key = ''traffic.selectors'' then parse_traffic_selectors raw
     else if key = ''network.interfaces'' then parse_network_interfaces raw
     else if key = ''network.rate.interfaces'' then parse_network_rate_interfaces raw
     else if key = ''billing.price'' then parse_billing_price raw
     else if key = ''billing.cycle'' then parse_billing_cycle raw
     else if key = ''network.port_speed'' then parse_port_speed raw
     else parse_product_name raw)))"

subsection \<open>The interface policy read back from the JSON form\<close>

datatype network_interface_source = SourceHost | SourceTunnel

datatype network_interface_policy = DefaultPhysical | PolicyAll | Patterns "string list"

definition policy_pattern :: "string list \<Rightarrow> 'f json \<Rightarrow> string + string list" where
  "policy_pattern parsed v =
     and_then (ok_or ''network_interfaces_pattern_invalid'' (as_str v)) (\<lambda>pattern.
     and_then (validate_network_interface_pattern pattern) (\<lambda>_.
     and_then (ensure (pattern \<noteq> ''*'' \<and> pattern \<notin> set parsed) ''network_interfaces_pattern_invalid'') (\<lambda>_.
     Inr (parsed @ [pattern]))))"

definition from_rule_json :: "'f json option \<Rightarrow> string + network_interface_policy" where
  "from_rule_json v =
     (case v of
        None \<Rightarrow> Inr DefaultPhysical
      | Some v \<Rightarrow>
          let mode = Option.bind (json_get v ''mode'') as_str in
          if mode = Some ''all'' then Inr PolicyAll
          else if mode = Some ''patterns'' then
            and_then (ok_or ''network_interfaces_patterns_invalid'' (Option.bind (json_get v ''patterns'') as_array)) (\<lambda>patterns.
            and_then (ensure (patterns \<noteq> [] \<and> length patterns \<le> MAX_TRAFFIC_SELECTOR_ITEMS) ''network_interfaces_patterns_invalid'') (\<lambda>_.
            and_then (try_fold policy_pattern [] patterns) (\<lambda>parsed. Inr (Patterns parsed))))
          else Inl ''network_interfaces_mode_invalid'')"

definition network_interface_pattern_matches :: "string \<Rightarrow> string \<Rightarrow> bool" where
  "network_interface_pattern_matches pattern interface \<longleftrightarrow>
     pattern = ''*'' \<or> (case strip_suffix pattern ''*'' of
       None \<Rightarrow> interface = pattern | Some p \<Rightarrow> starts_with interface p)"

definition policy_matches :: "network_interface_policy \<Rightarrow> network_interface_source \<Rightarrow> string \<Rightarrow> bool" where
  "policy_matches policy source interface =
     (case policy of
        DefaultPhysical \<Rightarrow> source = SourceHost \<and> (starts_with interface ''e'' \<or> starts_with interface ''w'')
      | PolicyAll \<Rightarrow> True
      | Patterns patterns \<Rightarrow> list_ex (\<lambda>pattern. network_interface_pattern_matches pattern interface) patterns)"

end
