(* ===== verification/Vps_Rules_Safety.thy ===== *)
theory Vps_Rules_Safety
  imports Vps_Rules
begin

section \<open>Properties of the rules\<close>

text \<open>
  Sizes are computed exactly, rounded half up; no direction of an interface is counted twice; and
  the interface policy is what the stored JSON form says.
\<close>

subsection \<open>Exact sizes\<close>

lemma push_digits_split: "push_digits a ds = a * 10 ^ length ds + number_of ds"
proof (induction ds arbitrary: a)
  case (Cons c ds)
  show ?case
    using Cons.IH [of "10 * a + digit_value c"] Cons.IH [of "digit_value c"] by (simp add: algebra_simps)
qed simp

lemma number_of_append: "number_of (xs @ ys) = number_of xs * 10 ^ length ys + number_of ys"
  using push_digits_split [of "number_of xs" ys] by (simp add: push_digits_def)

lemma number_of_trim_zeros: "number_of (trim_zeros_start ds) = number_of ds"
  by (induction ds) (auto simp: trim_zeros_start_def digit_value_def)

lemma number_of_bound: "all_digits ds \<Longrightarrow> number_of ds < 10 ^ length ds"
  using push_digits_bounds [of ds 0] by (simp add: all_digits_def)

lemma parse_digits:
  assumes "all_digits s" and "s \<noteq> []"
  shows "parse_unsigned bound s = (if number_of s \<le> bound then Some (number_of s) else None)"
proof -
  have "digits_value 0 s = Some (number_of s)" using assms(1) by (simp add: digits_value_number all_digits_def)
  moreover have "\<not> starts_with s ''+''" using assms by (cases s) (auto simp: all_digits_def is_ascii_digit_def)
  ultimately show ?thesis using assms(2) by (simp add: parse_unsigned_def)
qed

lemma fraction_below: "all_digits ds \<Longrightarrow> number_of ds * m div 10 ^ length ds \<le> m"
proof -
  assume "all_digits ds"
  then have "number_of ds * m \<le> m * 10 ^ length ds" using number_of_bound by (simp add: mult.commute less_imp_le)
  then have "number_of ds * m div 10 ^ length ds \<le> m * 10 ^ length ds div 10 ^ length ds" by (rule div_le_mono)
  then show ?thesis by simp
qed

lemma fraction_product:
  assumes "all_digits ds" and "0 < m" and "digit \<le> 9"
  shows "digit * m + number_of ds * m div 10 ^ length ds = (digit * 10 ^ length ds + number_of ds) * m div 10 ^ length ds"
    and "digit * m + number_of ds * m div 10 ^ length ds \<le> 10 * m"
proof -
  show "digit * m + number_of ds * m div 10 ^ length ds = (digit * 10 ^ length ds + number_of ds) * m div 10 ^ length ds"
  proof -
    have "(digit * 10 ^ length ds + number_of ds) * m = number_of ds * m + digit * m * 10 ^ length ds" by (simp add: algebra_simps)
    then show ?thesis by simp
  qed
  have "number_of ds * m div 10 ^ length ds \<le> m" by (rule fraction_below [OF assms(1)])
  moreover have "digit * m \<le> 9 * m" using assms(3) by simp
  ultimately show "digit * m + number_of ds * m div 10 ^ length ds \<le> 10 * m" by linarith
qed

lemma fraction_loop:
  assumes "all_digits ds" and "0 < m" and "10 * m \<le> u128_max"
  shows "\<exists>tenths. try_fold (fraction_digit m) (0, 0) (rev ds) = Inr (number_of ds * m div 10 ^ length ds, tenths)
    \<and> tenths = (if ds = [] then 0 else number_of ds * m div 10 ^ (length ds - 1) mod 10)"
  using assms(1)
proof (induction ds)
  case (Cons c ds)
  then obtain t where loop: "try_fold (fraction_digit m) (0, 0) (rev ds) = Inr (number_of ds * m div 10 ^ length ds, t)"
    by (auto simp: all_digits_def)
  have c: "digit_value c \<le> 9" using Cons.prems digit_value_bound [of c] by (simp add: all_digits_def)
  have ds: "all_digits ds" using Cons.prems by (simp add: all_digits_def)
  have n: "number_of (c # ds) = digit_value c * 10 ^ length ds + number_of ds" by (simp add: push_digits_split [of "digit_value c"])
  note product = fraction_product [OF ds assms(2) c]
  have "digit_value c * m \<le> u128_max" "digit_value c * m + number_of ds * m div 10 ^ length ds \<le> u128_max"
    using product(2) assms(3) by linarith+
  then have "try_fold (fraction_digit m) (0, 0) (rev (c # ds)) =
      Inr (number_of (c # ds) * m div 10 ^ length ds div 10, number_of (c # ds) * m div 10 ^ length ds mod 10)"
    using loop product(1) by (simp add: try_fold_append fraction_digit_def checked_u128_def push_digits_split [of "digit_value c"])
  moreover have "x div 10 ^ length ds div 10 = x div 10 ^ length (c # ds)" for x :: nat
    using div_mult2_eq [of x "10 ^ length ds" 10] by (simp add: mult.commute)
  ultimately show ?case by simp
qed simp

text \<open>Rounding half up: the tenths digit decides.\<close>

definition round_half_up :: "nat \<Rightarrow> nat \<Rightarrow> nat" where
  "round_half_up x n = (2 * x + 10 ^ n) div (2 * 10 ^ n)"

lemma round_half_up_0 [simp]: "round_half_up x 0 = x"
  by (simp add: round_half_up_def)

lemma round_half_up_Suc: "round_half_up x (Suc n) = x div 10 ^ Suc n + of_bool (5 \<le> x div 10 ^ n mod 10)"
proof -
  define t q r where "t = (10 :: nat) ^ n" and "q = x div (10 * t)" and "r = x mod (10 * t)"
  have t: "0 < t" by (simp add: t_def)
  then have r: "r < 10 * t" by (simp add: r_def)
  have x: "x = q * (10 * t) + r" unfolding q_def r_def by (rule div_mult_mod_eq [symmetric])
  have "x div t mod 10 = r div t" using r t by (simp add: x div_add1_eq less_mult_imp_div_less)
  then have five: "5 \<le> x div t mod 10 \<longleftrightarrow> 5 * t \<le> r" using t by (simp add: less_eq_div_iff_mult_less_eq)
  have "(2 * x + 10 * t) div (2 * (10 * t)) = q + (2 * r + 10 * t) div (20 * t)"
  proof -
    have "2 * x + 10 * t = (2 * r + 10 * t) + q * (20 * t)" unfolding x by (simp add: algebra_simps)
    moreover have "2 * (10 * t) = 20 * t" by simp
    ultimately show ?thesis using t by (simp only: div_mult_self1)
  qed
  also have "(2 * r + 10 * t) div (20 * t) = of_bool (5 * t \<le> r)"
    using r t by (auto simp: div_nat_eqI)
  finally show ?thesis using five by (simp add: round_half_up_def t_def q_def)
qed

lemma round_half_up_add: "round_half_up (w * 10 ^ n + x) n = w + round_half_up x n"
proof -
  have "2 * (w * 10 ^ n + x) + 10 ^ n = (2 * x + 10 ^ n) + w * (2 * 10 ^ n)" by (simp add: algebra_simps)
  then show ?thesis unfolding round_half_up_def by (simp only: div_mult_self1) simp
qed

lemma rounded_fraction:
  assumes "all_digits ds" and "0 < m" and "10 * m \<le> u128_max"
  obtains carry tenths where "try_fold (fraction_digit m) (0, 0) (rev ds) = Inr (carry, tenths)" and "carry \<le> m"
    and "round_half_up (number_of ds * m) (length ds) = carry + of_bool (5 \<le> tenths)"
proof -
  obtain tenths where loop: "try_fold (fraction_digit m) (0, 0) (rev ds) = Inr (number_of ds * m div 10 ^ length ds, tenths)"
    and t: "tenths = (if ds = [] then 0 else number_of ds * m div 10 ^ (length ds - 1) mod 10)"
    using fraction_loop [OF assms] by blast
  have "number_of ds * m div 10 ^ length ds \<le> m" by (rule fraction_below [OF assms(1)])
  moreover have "round_half_up (number_of ds * m) (length ds) = number_of ds * m div 10 ^ length ds + of_bool (5 \<le> tenths)"
    using t round_half_up_Suc [of "number_of ds * m" "length ds - 1"] by (cases ds) simp_all
  ultimately show ?thesis using that loop by blast
qed

lemma whole_value:
  assumes "all_digits whole"
  shows "(if trim_zeros_start whole = [] then Inr 0
      else ok_or e (parse_unsigned u128_max (trim_zeros_start whole))) = checked_u128 e (number_of whole)"
proof (cases "trim_zeros_start whole = []")
  case True
  then show ?thesis using number_of_trim_zeros [of whole] by (simp add: checked_u128_def)
next
  case False
  have "all_digits (trim_zeros_start whole)"
    using assms by (induction whole) (auto simp: all_digits_def trim_zeros_start_def)
  then show ?thesis using False parse_digits [of "trim_zeros_start whole"] by (simp add: number_of_trim_zeros checked_u128_def)
qed



subsection \<open>Selectors count nothing twice\<close>

unbundle bit_operations_syntax

definition selector_key :: "traffic_selector \<Rightarrow> string \<times> string" where
  "selector_key s = (ts_source s, ts_interface s)"

definition counted_once :: "traffic_selector list \<Rightarrow> bool" where
  "counted_once = sorted_wrt (\<lambda>a b. selector_key a = selector_key b
     \<longrightarrow> traffic_selector_direction_mask a AND traffic_selector_direction_mask b = 0)"

definition scan_ok :: "selector_scan \<Rightarrow> bool" where
  "scan_ok s \<longleftrightarrow> counted_once (sc_selectors s)
     \<and> (\<forall>a\<in>set (sc_selectors s). \<forall>m. sc_directions s (selector_key a) AND m = 0 \<longrightarrow> traffic_selector_direction_mask a AND m = 0)"

lemma or_and_zero: "(a OR b) AND m = 0 \<longleftrightarrow> a AND m = 0 \<and> b AND m = (0 :: u8)"
  by (simp add: bit.conj_disj_distrib2 or_eq_0_iff)

lemma scan_selector_ok:
  assumes "scan_ok s" and "scan_selector s item = Inr s'"
  shows "scan_ok s'"
proof -
  obtain t where t: "sc_directions s (selector_key t) AND traffic_selector_direction_mask t = 0"
    and s': "sc_selectors s' = sc_selectors s @ [t]"
      "sc_directions s' = (sc_directions s)(selector_key t := sc_directions s (selector_key t) OR traffic_selector_direction_mask t)"
    using assms(2) by (auto simp: scan_selector_def and_then_eq_Inr ensure_eq Let_def selector_key_def)
  have "counted_once (sc_selectors s')"
    using assms(1) t by (auto simp: s' scan_ok_def counted_once_def sorted_wrt_append)
  then show ?thesis using assms(1) by (auto simp: scan_ok_def s' or_and_zero)
qed

lemma parsed_selectors_ok:
  assumes "parse_traffic_selector_list input = Inr selectors"
  shows "counted_once selectors \<and> length selectors \<le> MAX_TRAFFIC_SELECTOR_ITEMS"
proof -
  obtain s where fold: "try_fold scan_selector \<lparr>sc_selectors = [], sc_seen = {}, sc_directions = (\<lambda>_. 0)\<rparr>
      (split_on (CHR '','') (trim input)) = Inr s" and s: "selectors = sc_selectors s" "length selectors \<le> MAX_TRAFFIC_SELECTOR_ITEMS"
    using assms by (auto simp: parse_traffic_selector_list_def and_then_eq_Inr ensure_eq Let_def)
  have "scan_ok s" by (rule try_fold_invariant [OF fold]) (auto intro: scan_selector_ok, simp add: scan_ok_def counted_once_def)
  then show ?thesis using s by (simp add: scan_ok_def)
qed

text \<open>
  In an accepted list of traffic selectors no direction of an interface is selected by two items, so no byte is counted
  twice, and the list is bounded.
\<close>

theorem traffic_counted_once:
  assumes "parse_traffic_selector_list input = Inr selectors"
  shows "length selectors \<le> MAX_TRAFFIC_SELECTOR_ITEMS \<and>
    (\<forall>i j. i < j \<and> j < length selectors \<and> selector_key (selectors ! i) = selector_key (selectors ! j) \<longrightarrow>
       traffic_selector_direction_mask (selectors ! i) AND traffic_selector_direction_mask (selectors ! j) = 0)"
  using parsed_selectors_ok [OF assms] by (auto simp: counted_once_def sorted_wrt_iff_nth_less)

lemma sample_selectors:
  "map_sum id (map ts_canonical) (parse_traffic_selector_list ''eth0+RX,eth0+tx'') = Inr [''eth0+rx'', ''eth0+tx'']"
  by code_simp

theorem traffic_counted_once_witness:
  "\<exists>selectors. parse_traffic_selector_list ''eth0+RX,eth0+tx'' = Inr selectors \<and> length selectors = 2
     \<and> length selectors \<le> MAX_TRAFFIC_SELECTOR_ITEMS"
proof (cases "parse_traffic_selector_list ''eth0+RX,eth0+tx''")
  case (Inl e)
  then show ?thesis using sample_selectors by simp
next
  case (Inr selectors)
  then have "length (map ts_canonical selectors) = 2" using sample_selectors by simp
  then show ?thesis using Inr traffic_counted_once [OF Inr] by simp
qed

subsection \<open>The policy that was stored\<close>

lemma scan_patterns:
  assumes "try_fold scan_pattern ps items = Inr patterns"
  shows "\<exists>new. patterns = ps @ new \<and> (distinct ps \<longrightarrow> distinct patterns)
    \<and> (\<forall>p\<in>set new. validate_network_interface_pattern p = Inr () \<and> p \<noteq> ''*'')"
  using assms
proof (induction items arbitrary: ps)
  case (Cons item items)
  then obtain ps' where step: "scan_pattern ps item = Inr ps'" and rest: "try_fold scan_pattern ps' items = Inr patterns"
    by (auto simp: and_then_eq_Inr)
  obtain p where p: "ps' = ps @ [p]" "validate_network_interface_pattern p = Inr ()" "p \<noteq> ''*''" "p \<notin> set ps"
    using step by (auto simp: scan_pattern_def and_then_eq_Inr ensure_eq Let_def)
  from Cons.IH [OF rest] p show ?case by auto
qed simp

lemma policy_patterns:
  assumes "distinct (ps @ new)" and "\<forall>p\<in>set new. validate_network_interface_pattern p = Inr () \<and> p \<noteq> ''*''"
  shows "try_fold policy_pattern ps (map JString new) = Inr (ps @ new)"
  using assms by (induction new arbitrary: ps) (auto simp: policy_pattern_def as_str_def)

text \<open>
  The policy that is read back from the stored form of an interface rule is the rule that was accepted:
  all interfaces for a star, otherwise exactly the accepted patterns, without repetition.
\<close>

theorem interface_policy_roundtrip:
  assumes "parse_network_interfaces raw = Inr p"
  shows "from_rule_json (Some (pv_json p)) =
    (if raw = ''*'' then Inr PolicyAll else Inr (Patterns (split_on (CHR '','') (pv_raw p))))"
proof (cases "raw = ''*''")
  case True
  then show ?thesis using assms by (auto simp: parse_network_interfaces_def from_rule_json_def json_get_def as_str_def)
next
  case False
  then obtain patterns where fold: "try_fold scan_pattern [] (split_on (CHR '','') raw) = Inr patterns"
    and len: "patterns \<noteq> []" "length patterns \<le> MAX_TRAFFIC_SELECTOR_ITEMS"
    and p: "pv_raw p = join_with '','' patterns"
      "pv_json p = JObject [(''mode'', JString ''patterns''), (''patterns'', JArray (map JString patterns))]"
    using assms by (auto simp: parse_network_interfaces_def parse_network_interface_patterns_def and_then_eq_Inr ensure_eq)
  have ok: "distinct patterns" "\<forall>p\<in>set patterns. validate_network_interface_pattern p = Inr () \<and> p \<noteq> ''*''"
    using scan_patterns [OF fold] by auto
  then have "\<forall>p\<in>set patterns. CHR '','' \<notin> set p"
    by (auto simp: validate_network_interface_pattern_def interface_text_ok_def ensure_eq)
  then have "split_on (CHR '','') (pv_raw p) = patterns" using len(1) p(1) by (simp add: split_on_join)
  then show ?thesis
    using False len p(2) ok
    by (simp add: policy_patterns from_rule_json_def json_get_def as_str_def as_array_def)
qed

lemma sample_interfaces:
  "map_sum id pv_raw (parse_network_interfaces ''eth*, wg0'' :: string + unit parsed_vps_rule_value) = Inr ''eth*,wg0''"
  by code_simp

theorem interface_policy_roundtrip_witness:
  "\<exists>p :: unit parsed_vps_rule_value. parse_network_interfaces ''eth*, wg0'' = Inr p
     \<and> from_rule_json (Some (pv_json p)) = Inr (Patterns [''eth*'', ''wg0''])"
proof (cases "parse_network_interfaces ''eth*, wg0'' :: string + unit parsed_vps_rule_value")
  case (Inl e)
  then show ?thesis using sample_interfaces by simp
next
  case (Inr p)
  then have "pv_raw p = ''eth*,wg0''" using sample_interfaces by simp
  then show ?thesis using Inr interface_policy_roundtrip [OF Inr] by simp
qed

end
