(* ===== verification/Glob.thy ===== *)
theory Glob
  imports Rust_Str
begin

section \<open>Glob patterns of selectors\<close>

text \<open>
  \<open>glob_matches\<close> and \<open>literal_matches\<close> of \<open>common/src/selection/expression.rs\<close>: one pass over the value
  that remembers the last star and goes back to it on a mismatch. The four cursors of the code are
  the suffixes they point to. The loop ends on every state, and it agrees with the
  textbook meaning of a pattern on every value that does not itself contain a star.
\<close>

subsection \<open>The code\<close>

text \<open>The cursors of a state that the loop itself reaches are suffixes of the remembered ones.\<close>

definition behind_star :: "string \<Rightarrow> string \<Rightarrow> (string \<times> string) option \<Rightarrow> bool" where
  "behind_star value pattern star \<longleftrightarrow>
     (case star of None \<Rightarrow> True | Some (p, v) \<Rightarrow> length pattern \<le> length p \<and> length value \<le> length v)"

text \<open>The loop ends: going back happens once for each byte of the value and star of the pattern.\<close>

function glob_loop :: "string \<Rightarrow> string \<Rightarrow> (string \<times> string) option \<Rightarrow> bool" where
  "glob_loop value pattern star =
     (if value = [] then list_all (\<lambda>c. c = CHR ''*'') pattern
      else if pattern \<noteq> [] \<and> (hd pattern = CHR ''?'' \<or> hd pattern = hd value)
        then glob_loop (tl value) (tl pattern) star
      else if pattern \<noteq> [] \<and> hd pattern = CHR ''*''
        then glob_loop value (tl pattern) (Some (tl pattern, value))
      else (case star of
          Some (star_pattern, star_value) \<Rightarrow>
            glob_loop (tl star_value) star_pattern (Some (star_pattern, tl star_value))
        | None \<Rightarrow> False))"
  by pat_completeness auto

termination
proof (relation "measures
    [\<lambda>(v, p, s). of_bool (\<not> behind_star v p s),
     \<lambda>(v, p, s). case s of None \<Rightarrow> Suc (length p) | Some (sp, _) \<Rightarrow> length sp,
     \<lambda>(v, p, s). case s of None \<Rightarrow> 0 | Some (_, sv) \<Rightarrow> length sv,
     \<lambda>(v, p, s). length v + length p]", goal_cases)
  case 1
  show ?case by simp
next
  case (2 v p s)
  then show ?case by (cases v; cases p; cases s) (auto simp: behind_star_def)
next
  case (3 v p s)
  then show ?case by (cases v; cases p; cases s) (auto simp: behind_star_def)
next
  case (4 v p s x sp sv)
  then show ?case by (cases v; cases sv) (auto simp: behind_star_def)
qed

declare glob_loop.simps [simp del]

lemma glob_loop_steps:
  "glob_loop [] pattern star \<longleftrightarrow> list_all (\<lambda>c. c = CHR ''*'') pattern"
  "p = CHR ''?'' \<or> p = v \<Longrightarrow> glob_loop (v # vs) (p # ps) star = glob_loop vs ps star"
  "v \<noteq> CHR ''*'' \<Longrightarrow> glob_loop (v # vs) (CHR ''*'' # ps) star = glob_loop (v # vs) ps (Some (ps, v # vs))"
  "pattern = [] \<or> hd pattern \<noteq> CHR ''?'' \<and> hd pattern \<noteq> v \<and> hd pattern \<noteq> CHR ''*'' \<Longrightarrow>
     glob_loop (v # vs) pattern star =
       (case star of Some (sp, sv) \<Rightarrow> glob_loop (tl sv) sp (Some (sp, tl sv)) | None \<Rightarrow> False)"
  using glob_loop.simps [of "[]" pattern star] glob_loop.simps [of "v # vs" "p # ps" star]
    glob_loop.simps [of "v # vs" "CHR ''*'' # ps" star] glob_loop.simps [of "v # vs" pattern star]
  by auto

definition glob_matches :: "string \<Rightarrow> string \<Rightarrow> bool" where
  "glob_matches value pattern = glob_loop value pattern None"

definition literal_matches :: "string \<Rightarrow> string \<Rightarrow> bool \<Rightarrow> bool" where
  "literal_matches value pattern allow_contains =
     (let value = to_ascii_lowercase value; pattern = to_ascii_lowercase pattern in
      if CHR ''*'' \<in> set pattern \<or> CHR ''?'' \<in> set pattern then glob_matches value pattern
      else if allow_contains then contains_str value pattern
      else value = pattern)"

subsection \<open>The meaning of a pattern\<close>

text \<open>A star stands for any bytes, a question mark for one byte, any other byte for itself.\<close>

fun glob_spec :: "string \<Rightarrow> string \<Rightarrow> bool" where
  "glob_spec [] value \<longleftrightarrow> value = []"
| "glob_spec (p # pattern) value \<longleftrightarrow>
     (if p = CHR ''*'' then (\<exists>k\<le>length value. glob_spec pattern (drop k value))
      else value \<noteq> [] \<and> (p = CHR ''?'' \<or> p = hd value) \<and> glob_spec pattern (tl value))"

lemma glob_spec_Nil: "glob_spec pattern [] \<longleftrightarrow> list_all (\<lambda>c. c = CHR ''*'') pattern"
  by (induction pattern) auto

text \<open>A pattern that starts with bytes other than a star consumes as many bytes of the value.\<close>

lemma glob_spec_plain:
  assumes "CHR ''*'' \<notin> set w" and "glob_spec (w @ pattern) value"
  shows "length w \<le> length value \<and> glob_spec pattern (drop (length w) value)"
  using assms
proof (induction w arbitrary: "value")
  case (Cons c w)
  then show ?case by (cases "value") auto
qed simp

lemma glob_spec_star_drop: "glob_spec (CHR ''*'' # pattern) (drop k value) \<Longrightarrow> glob_spec (CHR ''*'' # pattern) value"
proof -
  assume "glob_spec (CHR ''*'' # pattern) (drop k value)"
  then obtain j where "j \<le> length value - k" "glob_spec pattern (drop (k + j) value)" by (auto simp: add.commute)
  then show ?thesis
    by (cases "k \<le> length value") (auto intro: exI [of _ "k + j"] exI [of _ "length value"])
qed

text \<open>What the remembered star can still contribute: a match that starts later than the current one.\<close>

definition later_match :: "(string \<times> string) option \<Rightarrow> bool" where
  "later_match star \<longleftrightarrow>
     (case star of None \<Rightarrow> False | Some (sp, sv) \<Rightarrow> \<exists>k. 1 \<le> k \<and> k \<le> length sv \<and> glob_spec sp (drop k sv))"

text \<open>Since the last star as many bytes of the value as of the pattern were consumed, and none was a star.\<close>

definition in_step :: "string \<Rightarrow> string \<Rightarrow> (string \<times> string) option \<Rightarrow> bool" where
  "in_step value pattern star \<longleftrightarrow>
     (case star of None \<Rightarrow> True | Some (sp, sv) \<Rightarrow>
        \<exists>w u. sp = w @ pattern \<and> sv = u @ value \<and> length w = length u \<and> CHR ''*'' \<notin> set w)"

lemma later_match_plain:
  assumes "in_step value pattern star" and "later_match star"
  shows "\<exists>k. 1 \<le> k \<and> k \<le> length value \<and> glob_spec pattern (drop k value)"
proof -
  obtain w u k where star: "star = Some (w @ pattern, u @ value)" "length w = length u" "CHR ''*'' \<notin> set w"
    and k: "1 \<le> k" "glob_spec (w @ pattern) (drop k (u @ value))" "k \<le> length u + length value"
    using assms by (auto simp: in_step_def later_match_def split: option.splits)
  have "length w \<le> length (drop k (u @ value)) \<and> glob_spec pattern (drop (length w) (drop k (u @ value)))"
    by (rule glob_spec_plain [OF star(3) k(2)])
  moreover have "drop (length w) (drop k (u @ value)) = drop k value" 
    unfolding drop_drop using star(2) by simp
  moreover have "k \<le> length value" using calculation(1) star(2) k(3) unfolding length_drop length_append by arith
  ultimately show ?thesis using k(1) by auto
qed

lemma later_match_Some:
  "later_match (Some (sp, sv)) \<longleftrightarrow> sv \<noteq> [] \<and> (glob_spec sp (tl sv) \<or> later_match (Some (sp, tl sv)))"
proof (cases sv)
  case (Cons c cs)
  have "(\<exists>k. 1 \<le> k \<and> k \<le> Suc (length cs) \<and> glob_spec sp (drop k (c # cs))) \<longleftrightarrow> (\<exists>k\<le>length cs. glob_spec sp (drop k cs))"
    by (metis Suc_le_mono One_nat_def Suc_le_D drop_Suc_Cons le_add1 plus_1_eq_Suc)
  also have "\<dots> \<longleftrightarrow> glob_spec sp cs \<or> (\<exists>k. 1 \<le> k \<and> k \<le> length cs \<and> glob_spec sp (drop k cs))"
    by (metis One_nat_def Suc_le_eq drop0 le0 not_gr_zero)
  finally show ?thesis using Cons by (simp add: later_match_def)
qed (simp add: later_match_def)

lemma glob_star_iff: "glob_spec (CHR ''*'' # pattern) value \<longleftrightarrow> glob_spec pattern value \<or> later_match (Some (pattern, value))"
  unfolding later_match_def by (simp, metis One_nat_def Suc_le_eq drop0 le0 not_gr_zero)

lemma glob_loop_spec:
  assumes "in_step value pattern star" and "CHR ''*'' \<notin> set value" and "\<And>sp sv. star = Some (sp, sv) \<Longrightarrow> CHR ''*'' \<notin> set sv"
  shows "glob_loop value pattern star \<longleftrightarrow> glob_spec pattern value \<or> later_match star"
  using assms
proof (induction "value" pattern star rule: glob_loop.induct)
  case (1 "value" pattern star)
  note prems = "1.prems"
  consider (ended) "value = []"
    | (step) v vs p ps where "value = v # vs" "pattern = p # ps" "p = CHR ''?'' \<or> p = v"
    | (star) v vs ps where "value = v # vs" "pattern = CHR ''*'' # ps" "v \<noteq> CHR ''*''"
    | (retry) v vs where "value = v # vs" "pattern = [] \<or> hd pattern \<noteq> CHR ''?'' \<and> hd pattern \<noteq> v \<and> hd pattern \<noteq> CHR ''*''"
    by (cases "value"; cases pattern) auto
  then show ?case
  proof cases
    case ended
    then show ?thesis using later_match_plain [OF prems(1)] by (auto simp: glob_loop_steps glob_spec_Nil)
  next
    case (step v vs p ps)
    have "in_step vs ps star"
    proof (cases star)
      case (Some q)
      obtain w u where "q = (w @ pattern, u @ value)" "length w = length u" "CHR ''*'' \<notin> set w"
        using prems(1) Some by (auto simp: in_step_def)
      then show ?thesis
        using Some step prems(2) by (auto simp: in_step_def intro!: exI [of _ "w @ [p]"] exI [of _ "u @ [v]"])
    qed (simp add: in_step_def)
    then have "glob_loop vs ps star \<longleftrightarrow> glob_spec ps vs \<or> later_match star"
      using "1.IH"(1) step prems(2,3) by simp
    moreover have "glob_spec pattern value \<longleftrightarrow> glob_spec ps vs" using step prems(2) by auto
    ultimately show ?thesis using step glob_loop_steps(2) by simp
  next
    case (star v vs ps)
    have "glob_loop value ps (Some (ps, value)) \<longleftrightarrow> glob_spec ps value \<or> later_match (Some (ps, value))"
      using "1.IH"(2) star prems(2) by (simp add: in_step_def)
    then have "glob_loop value pattern star \<longleftrightarrow> glob_spec pattern value"
      using star by (simp add: glob_loop_steps glob_star_iff del: glob_spec.simps)
    moreover have "glob_spec pattern value" if "later_match star"
      using later_match_plain [OF prems(1) that] star(2) glob_spec_star_drop by blast
    ultimately show ?thesis by blast
  next
    case (retry v vs)
    have none: "\<not> glob_spec pattern value" using retry by (cases pattern) auto
    show ?thesis
    proof (cases star)
      case None
      then show ?thesis using retry none by (simp add: glob_loop_steps(4) later_match_def)
    next
      case (Some q)
      obtain sp sv where q: "q = (sp, sv)" by (cases q)
      have tl: "CHR ''*'' \<notin> set (tl sv)" using prems(3) [of sp sv] Some q by (cases sv) auto
      have "sv \<noteq> []" using prems(1) Some q retry by (auto simp: in_step_def)
      moreover have "glob_loop (tl sv) sp (Some (sp, tl sv)) \<longleftrightarrow> glob_spec sp (tl sv) \<or> later_match (Some (sp, tl sv))"
        using "1.IH"(3) [OF _ _ _ Some q [symmetric]] retry tl by (auto simp: in_step_def)
      ultimately show ?thesis
        using retry none Some q by (simp add: glob_loop_steps(4) later_match_Some [of sp sv])
    qed
  qed
qed

text \<open>
  (C34) The matcher implements the meaning of patterns: for every pattern and every value without
  a star, going back only to the last star finds a match exactly when there is one.
\<close>

theorem glob_matches_spec:
  assumes "CHR ''*'' \<notin> set value"
  shows "glob_matches value pattern \<longleftrightarrow> glob_spec pattern value"
  unfolding glob_matches_def using glob_loop_spec [of "value" pattern None] assms
  by (simp add: in_step_def later_match_def)

theorem glob_matches_spec_witness: "glob_matches ''web-01.eu'' ''w*0?.*u'' \<and> glob_spec ''w*0?.*u'' ''web-01.eu''"
proof -
  have "glob_matches ''web-01.eu'' ''w*0?.*u''" by (simp add: glob_matches_def glob_loop.simps)
  then show ?thesis using glob_matches_spec [of "''web-01.eu''" "''w*0?.*u''"] by simp
qed

text \<open>
  On a value with a star the code takes the star of the pattern for this very byte and does not
  come back to it: a lone star, which stands for everything, does not match.
\<close>

lemma glob_star_value: "\<not> glob_matches ''*a'' ''*'' \<and> glob_spec ''*'' ''*a''"
  by (auto simp: glob_matches_def glob_loop.simps intro: exI [of _ 2])

end
