(* ===== verification/Expression.thy ===== *)
theory Expression
  imports Vps_Rules Glob "HOL-Library.AList"
begin

section \<open>Selector and event expressions\<close>

text \<open>
  \<open>common/src/selection/expression.rs\<close>: the tokenizer, the recursive-descent parser, the validation and the two
  evaluations, boolean for selectors and three-valued for policy evidence. A cursor into the input or the
  tokens is the suffix it points to, and a position in an error message is computed from its length. The
  parser takes fuel: \<open>None\<close> means that it ran out of it, which \<open>Expression_Safety\<close> shows impossible with
  the fuel it is given. Parameters: the \<open>regex\<close> crate, the parser for RFC 3339 dates of \<open>chrono\<close>,
  and floating point (\<open>f64_ops\<close>).
\<close>

subsection \<open>Data\<close>

datatype comparison_operator = OpEq | OpNotEq | OpLt | OpLte | OpGt | OpGte

datatype scalar_value = ScalarLiteral string

datatype list_value = ListLiteral string | ListRegex string

datatype predicate =
    Bare string
  | Comparison string comparison_operator scalar_value
  | Membership string bool "list_value list"
  | Event string
  | Untagged

datatype expression = EPredicate predicate | ENot expression | EAnd expression expression | EOr expression expression

datatype expression_truth = TruthTrue | TruthFalse | TruthUnknown

fun truth_not :: "expression_truth \<Rightarrow> expression_truth" where
  "truth_not TruthTrue = TruthFalse"
| "truth_not TruthFalse = TruthTrue"
| "truth_not TruthUnknown = TruthUnknown"

definition truth_and :: "expression_truth \<Rightarrow> expression_truth \<Rightarrow> expression_truth" where
  "truth_and a b =
     (if a = TruthFalse \<or> b = TruthFalse then TruthFalse
      else if a = TruthTrue \<and> b = TruthTrue then TruthTrue else TruthUnknown)"

definition truth_or :: "expression_truth \<Rightarrow> expression_truth \<Rightarrow> expression_truth" where
  "truth_or a b =
     (if a = TruthTrue \<or> b = TruthTrue then TruthTrue
      else if a = TruthFalse \<and> b = TruthFalse then TruthFalse else TruthUnknown)"

record 'r regex_lib =
  regex_new :: "string \<Rightarrow> string + 'r"
  regex_is_match :: "'r \<Rightarrow> string \<Rightarrow> bool"

record 'f vps_rule_value =
  vr_value_raw :: string
  vr_value_json :: "'f json"

record 'f vps_metadata =
  vm_id :: string
  vm_display_name :: string
  vm_status :: string
  vm_tags :: "string list"
  vm_registration_ip :: "string option"
  vm_last_ip :: "string option"
  vm_last_seen_at :: "string option"
  vm_internal_build_number :: "u64 option"
  vm_stale_since :: "string option"
  vm_stale_reason :: "string option"
  vm_extra :: "'f json option"

type_synonym 'f vps_rule_context = "(string \<times> 'f vps_rule_value) list"

record 'f expression_context =
  cx_vps :: "'f vps_metadata option"
  cx_vps_rules :: "'f vps_rule_context option"
  cx_rule :: "'f json option"
  cx_event :: "'f json option"
  cx_query :: "'f json option"
  cx_server :: "'f json option"
  cx_job :: "'f json option"
  cx_schedule :: "'f json option"
  cx_alert :: "'f json option"
  cx_policy_rule :: "'f json option"
  cx_telemetry :: "'f json option"
  cx_objects :: "(string \<times> 'f json) list"
  cx_event_predicates :: "string set"

definition default_context :: "'f expression_context" where
  "default_context = \<lparr>cx_vps = None, cx_vps_rules = None, cx_rule = None, cx_event = None, cx_query = None, cx_server = None,
     cx_job = None, cx_schedule = None, cx_alert = None, cx_policy_rule = None, cx_telemetry = None, cx_objects = [],
     cx_event_predicates = {}\<rparr>"

definition for_vps :: "'f vps_metadata \<Rightarrow> 'f expression_context" where
  "for_vps vps = default_context\<lparr>cx_vps := Some vps\<rparr>"

definition with_event_predicate :: "string \<Rightarrow> 'f expression_context \<Rightarrow> 'f expression_context" where
  "with_event_predicate predicate cx =
     cx\<lparr>cx_event_predicates := insert (to_ascii_lowercase predicate) (cx_event_predicates cx)\<rparr>"

definition with_vps_rules :: "'f vps_rule_context \<Rightarrow> 'f expression_context \<Rightarrow> 'f expression_context" where
  "with_vps_rules rules cx = cx\<lparr>cx_vps_rules := Some rules\<rparr>"

definition with_json_root :: "string \<Rightarrow> 'f json \<Rightarrow> 'f expression_context \<Rightarrow> 'f expression_context" where
  "with_json_root root v cx =
     (let root = to_ascii_lowercase root in
      if root = ''rule'' then cx\<lparr>cx_rule := Some v\<rparr>
      else if root = ''event'' then cx\<lparr>cx_event := Some v\<rparr>
      else if root = ''query'' then cx\<lparr>cx_query := Some v\<rparr>
      else if root = ''server'' then cx\<lparr>cx_server := Some v\<rparr>
      else if root = ''job'' then cx\<lparr>cx_job := Some v\<rparr>
      else if root = ''schedule'' then cx\<lparr>cx_schedule := Some v\<rparr>
      else if root = ''alert'' then cx\<lparr>cx_alert := Some v\<rparr>
      else if root = ''policy_rule'' then cx\<lparr>cx_policy_rule := Some v\<rparr>
      else if root = ''telemetry'' then cx\<lparr>cx_telemetry := Some v\<rparr>
      else cx\<lparr>cx_objects := (root, v) # cx_objects cx\<rparr>)"

definition insert_rule :: "string \<Rightarrow> 'f vps_rule_value \<Rightarrow> 'f vps_rule_context \<Rightarrow> 'f vps_rule_context" where
  "insert_rule key v rules = AList.update (to_ascii_lowercase (trim key)) v rules"

definition rules_from_values :: "(string \<times> 'f vps_rule_value) list \<Rightarrow> 'f vps_rule_context" where
  "rules_from_values values = fold (\<lambda>(key, v). insert_rule key v) values []"

subsection \<open>The tokenizer\<close>

datatype token_kind =
    TAnd | TColon | TComma | TEq | TGt | TGte | TIn | TLeftBracket | TLeftParen | TLt | TLte | TNot | TNotEq | TOr
  | TRegex string | TRightBracket | TRightParen | TString string | TWord string

definition unterminated :: "string \<Rightarrow> nat \<Rightarrow> string" where
  "unterminated what start = ''unterminated '' @ what @ '' starting at byte '' @ show_nat start"

text \<open>Where a word ends: white space, a comment, or a byte of the operators and brackets.\<close>

definition word_break :: "string \<Rightarrow> bool" where
  "word_break s \<longleftrightarrow> s \<noteq> [] \<and> (ws_len s > 0 \<or> hd s = CHR ''#'' \<or> starts_with s ''/*'' \<or> hd s \<in> set ''()[],=!<>&|~'')"

definition quote_char :: "char \<Rightarrow> bool" where
  "quote_char c \<longleftrightarrow> c = CHR 0x22 \<or> c = CHR 0x27"

fun read_word :: "nat \<Rightarrow> string \<Rightarrow> (char \<times> nat) option \<Rightarrow> bool \<Rightarrow> string \<Rightarrow> string + string \<times> string" where
  "read_word n v quote escaped [] =
     (case quote of Some (_, start) \<Rightarrow> Inl (unterminated ''quoted value'' start) | None \<Rightarrow> Inr (v, []))"
| "read_word n v quote escaped (c # cs) =
     (case quote of
        Some (q, start) \<Rightarrow>
          if escaped then read_word n (v @ [c]) quote False cs
          else if c = CHR 0x5C then read_word n v quote True cs
          else if c = q then read_word n v None escaped cs
          else read_word n (v @ [c]) quote escaped cs
      | None \<Rightarrow>
          if word_break (c # cs) then Inr (v, c # cs)
          else if quote_char c then read_word n v (Some (c, n - length (c # cs))) escaped cs
          else read_word n (v @ [c]) None escaped cs)"

fun read_quoted :: "char \<Rightarrow> nat \<Rightarrow> string \<Rightarrow> bool \<Rightarrow> string \<Rightarrow> string + string \<times> string" where
  "read_quoted quote start v escaped [] = Inl (unterminated ''quoted value'' start)"
| "read_quoted quote start v escaped (c # cs) =
     (if escaped then read_quoted quote start (v @ [c]) False cs
      else if c = CHR 0x5C then read_quoted quote start v True cs
      else if c = quote then Inr (v, cs)
      else read_quoted quote start (v @ [c]) False cs)"

fun read_regex :: "nat \<Rightarrow> string \<Rightarrow> bool \<Rightarrow> string \<Rightarrow> string + string \<times> string" where
  "read_regex start pattern escaped [] = Inl (unterminated ''regex value'' start)"
| "read_regex start pattern escaped (c # cs) =
     (if escaped then read_regex start (pattern @ [CHR 0x5C, c]) False cs
      else if c = CHR 0x5C then read_regex start pattern True cs
      else if c = CHR ''/'' then
        if cs \<noteq> [] \<and> is_ascii_alphabetic (hd cs) then Inl ''regex flags are not supported'' else Inr (pattern, cs)
      else read_regex start (pattern @ [c]) False cs)"

fun skip_block_comment :: "string \<Rightarrow> string option" where
  "skip_block_comment [] = None"
| "skip_block_comment (c # cs) = (if starts_with (c # cs) ''*/'' then Some (drop 1 cs) else skip_block_comment cs)"

definition word_token :: "string \<Rightarrow> token_kind" where
  "word_token raw =
     (let lower = to_ascii_lowercase raw in
      if lower = ''and'' then TAnd else if lower = ''or'' then TOr else if lower = ''not'' then TNot
      else if lower = ''in'' then TIn else TWord raw)"

definition single_tokens :: "(char \<times> token_kind) list" where
  "single_tokens = [(CHR ''('', TLeftParen), (CHR '')'', TRightParen), (CHR ''['', TLeftBracket), (CHR '']'', TRightBracket),
     (CHR '','', TComma), (CHR '':'', TColon), (CHR ''~'', TNot), (CHR ''='', TEq)]"

text \<open>A byte that is followed by another one makes a longer operator.\<close>

definition paired :: "char \<Rightarrow> token_kind \<Rightarrow> string + token_kind \<Rightarrow> string \<Rightarrow> string + token_kind option \<times> string" where
  "paired second long short cs =
     (if cs \<noteq> [] \<and> hd cs = second then Inr (Some long, tl cs) else and_then short (\<lambda>t. Inr (Some t, cs)))"

text \<open>One round of the tokenizer: a token, or nothing for white space and comments, and what follows.\<close>

definition next_token :: "nat \<Rightarrow> char \<Rightarrow> string \<Rightarrow> string + token_kind option \<times> string" where
  "next_token n c cs =
     (let s = c # cs; start = n - length s; boolean = Inl ''use && or || for boolean operators'' in
      if ws_len s > 0 then Inr (None, drop (ws_len s) s)
      else if c = CHR ''#'' then Inr (None, dropWhile (\<lambda>b. b \<noteq> CHR 0x0D \<and> b \<noteq> CHR 0x0A) s)
      else if starts_with s ''/*'' then
        (case skip_block_comment (drop 2 s) of
           None \<Rightarrow> Inl (unterminated ''block comment'' start) | Some rest \<Rightarrow> Inr (None, rest))
      else (case map_of single_tokens c of Some t \<Rightarrow> Inr (Some t, cs) | None \<Rightarrow>
        if c = CHR ''!'' then paired (CHR ''='') TNotEq (Inr TNot) cs
        else if c = CHR ''<'' then paired (CHR ''='') TLte (Inr TLt) cs
        else if c = CHR ''>'' then paired (CHR ''='') TGte (Inr TGt) cs
        else if c = CHR ''&'' then paired (CHR ''&'') TAnd boolean cs
        else if c = CHR ''|'' then paired (CHR ''|'') TOr boolean cs
        else if quote_char c then and_then (read_quoted c start [] False cs) (\<lambda>(v, rest). Inr (Some (TString v), rest))
        else if c = CHR ''/'' then and_then (read_regex start [] False cs) (\<lambda>(v, rest). Inr (Some (TRegex v), rest))
        else and_then (read_word n [] None False s) (\<lambda>(word, rest).
          let raw = trim word in Inr (if raw = [] then None else Some (word_token raw), rest))))"

lemma read_word_shrinks: "read_word n v q e s = Inr (w, rest) \<Longrightarrow> length rest \<le> length s"
proof (induction s arbitrary: v q e)
  case (Cons c cs)
  then show ?case by (auto split: option.splits if_splits dest!: Cons.IH)
qed (auto split: option.splits)

lemma read_quoted_shrinks: "read_quoted q st v e s = Inr (w, rest) \<Longrightarrow> length rest \<le> length s"
  by (induction q st v e s rule: read_quoted.induct) (auto split: if_splits)

lemma read_regex_shrinks: "read_regex st v e s = Inr (w, rest) \<Longrightarrow> length rest \<le> length s"
  by (induction st v e s rule: read_regex.induct) (auto split: if_splits)

lemma skip_block_comment_shrinks: "skip_block_comment s = Some rest \<Longrightarrow> length rest \<le> length s"
  by (induction s) (auto split: if_splits)

text \<open>No byte makes the tokenizer stand still: what ends a word is a token or a separator of its own.\<close>

lemma next_token_shrinks:
  assumes "next_token n c cs = Inr (t, rest)"
  shows "length rest < length (c # cs)"
proof -
  have br: "\<not> word_break (c # cs)"
    if "ws_len (c # cs) = 0" "c \<noteq> CHR ''#''" "\<not> starts_with (c # cs) ''/*''" "map_of single_tokens c = None"
      "c \<notin> set ''!<>&|''"
    using that by (auto simp: word_break_def single_tokens_def split: if_splits)
  have hash: "length (dropWhile (\<lambda>b. b \<noteq> CHR 0x0D \<and> b \<noteq> CHR 0x0A) (c # cs)) < length (c # cs)" if "c = CHR ''#''"
    using that by (simp add: le_imp_less_Suc length_dropWhile_le)
  have block: "length rest < length (c # cs)" if "skip_block_comment (drop 2 (c # cs)) = Some rest"
    using skip_block_comment_shrinks [OF that] by simp
  show ?thesis
    using assms br hash block
    unfolding next_token_def Let_def paired_def
    by (auto simp: and_then_eq_Inr le_imp_less_Suc split: if_splits option.splits prod.splits
        dest!: read_quoted_shrinks read_regex_shrinks read_word_shrinks)
qed

function tokenize_from :: "nat \<Rightarrow> string \<Rightarrow> string + token_kind list" where
  "tokenize_from n [] = Inr []"
| "tokenize_from n (c # cs) =
     and_then (next_token n c cs) (\<lambda>(t, rest).
     and_then (tokenize_from n rest) (\<lambda>ts. Inr (case t of None \<Rightarrow> ts | Some t \<Rightarrow> t # ts)))"
  by pat_completeness auto
termination by (relation "measure (length \<circ> snd)") (auto dest: next_token_shrinks)

definition tokenize :: "string \<Rightarrow> string + token_kind list" where
  "tokenize input = tokenize_from (length input) input"

subsection \<open>The parser\<close>

definition canonical_field :: "string \<Rightarrow> string" where
  "canonical_field field =
     (let lower = to_ascii_lowercase field in
      if lower \<in> {''id'', ''client_id'', ''vps.id'', ''vps.client_id''} then ''vps.id''
      else if lower \<in> {''name'', ''display_name'', ''vps.name'', ''vps.display_name''} then ''vps.display_name''
      else if lower \<in> {''status'', ''vps.status''} then ''vps.status''
      else if lower \<in> {''tag'', ''tags'', ''vps.tag'', ''vps.tags''} then ''vps.tag''
      else if lower \<in> {''last_seen'', ''last_seen_at'', ''vps.last_seen'', ''vps.last_seen_at''} then ''vps.last_seen_at''
      else if lower \<in> {''region'', ''vps.region''} then ''vps.region''
      else lower)"

definition is_event_field_alias :: "string \<Rightarrow> bool" where
  "is_event_field_alias namespace =
     list_ex (starts_with namespace) [''job.'', ''schedule.'', ''alert.'', ''telemetry.'']"

definition is_event_predicate :: "string \<Rightarrow> bool" where
  "is_event_predicate raw =
     (let lower = to_ascii_lowercase raw in
      list_ex (starts_with lower)
        [''interval.'', ''vps.status.'', ''vps.tag_event:'', ''vps.tag_event.added:'', ''vps.tag_event.removed:'', ''job.status:'',
         ''job.status.become_'', ''job.type:'', ''job.target.status:'', ''schedule.id:'', ''schedule.name:'', ''alert.severity:'',
         ''alert.category:'']
      \<or> lower \<in> {''server.on_start'', ''schedule.due'', ''schedule.job_finished'', ''schedule.failed'', ''vps.tag_changed'',
          ''job.created'', ''alert.triggered'', ''alert.resolved'', ''telemetry.rollup'', ''telemetry.network_rate'',
          ''telemetry.tunnel''})"

definition tag_membership :: "string \<Rightarrow> predicate" where
  "tag_membership tag = Membership ''vps.tag'' False [ListLiteral tag]"

definition shorthand_predicate :: "string \<Rightarrow> string \<Rightarrow> predicate" where
  "shorthand_predicate namespace v =
     (let lower = to_ascii_lowercase namespace;
          with_field = (\<lambda>field. if field \<in> {''vps.tag'', ''vps.tags''} then tag_membership v
            else Comparison field OpEq (ScalarLiteral v)) in
      if lower = ''id'' then with_field ''vps.id''
      else if lower = ''name'' then with_field ''vps.display_name''
      else if lower = ''status'' then with_field ''vps.status''
      else if lower \<in> {''tag'', ''tags'', ''vps.tag'', ''vps.tags''} then with_field ''vps.tag''
      else if lower = ''provider'' then tag_membership (''provider:'' @ v)
      else if lower = ''country'' then tag_membership (''country:'' @ v)
      else if lower = ''region'' then tag_membership (''region:'' @ v)
      else if starts_with lower ''vps.'' then with_field (canonical_field namespace)
      else if is_event_field_alias lower then with_field (canonical_field namespace)
      else tag_membership (namespace @ '':'' @ v))"

fun comparison_of :: "token_kind \<Rightarrow> comparison_operator option" where
  "comparison_of TEq = Some OpEq"
| "comparison_of TNotEq = Some OpNotEq"
| "comparison_of TLt = Some OpLt"
| "comparison_of TLte = Some OpLte"
| "comparison_of TGt = Some OpGt"
| "comparison_of TGte = Some OpGte"
| "comparison_of _ = None"

definition parse_scalar_value :: "token_kind list \<Rightarrow> string + scalar_value \<times> token_kind list" where
  "parse_scalar_value ts =
     (case ts of
        TWord v # rest \<Rightarrow> Inr (ScalarLiteral v, rest)
      | TString v # rest \<Rightarrow> Inr (ScalarLiteral v, rest)
      | TRegex _ # rest \<Rightarrow> Inl ''regex scalar values are only supported in lists''
      | _ \<Rightarrow> Inl ''comparison is missing a scalar value'')"

definition list_item :: "'r regex_lib \<Rightarrow> list_value list \<Rightarrow> token_kind \<Rightarrow> string + list_value list" where
  "list_item lib values t =
     (case t of
        TWord v \<Rightarrow> Inr (values @ [ListLiteral v])
      | TString v \<Rightarrow> Inr (values @ [ListLiteral v])
      | TRegex pattern \<Rightarrow>
          and_then (map_err (\<lambda>error. ''invalid regex list value: '' @ error) (regex_new lib pattern)) (\<lambda>_.
          Inr (values @ [ListRegex pattern]))
      | TRightBracket \<Rightarrow>
          if values = [] then Inl ''membership list must not be empty'' else Inl ''membership list contains an invalid value''
      | _ \<Rightarrow> Inl ''membership list contains an invalid value'')"

function list_loop :: "'r regex_lib \<Rightarrow> list_value list \<Rightarrow> token_kind list \<Rightarrow> string + list_value list \<times> token_kind list" where
  "list_loop lib values [] = Inl ''membership list is missing ]''"
| "list_loop lib values (t # ts) =
     and_then (list_item lib values t) (\<lambda>values.
       case ts of
         [] \<Rightarrow> Inl ''membership list is missing ]''
       | u # rest \<Rightarrow>
           if u = TComma then list_loop lib values rest
           else if u = TRightBracket then Inr (values, rest)
           else Inl ''membership list values must be comma-separated'')"
  by pat_completeness auto
termination by (relation "measure (\<lambda>(lib, values, ts). length ts)") auto

definition parse_list_values :: "'r regex_lib \<Rightarrow> token_kind list \<Rightarrow> string + list_value list \<times> token_kind list" where
  "parse_list_values lib ts =
     (if ts \<noteq> [] \<and> hd ts = TLeftBracket then list_loop lib [] (tl ts) else Inl ''membership comparison is missing ['')"

definition field_name :: "bool \<Rightarrow> string \<Rightarrow> string" where
  "field_name field_aliases raw = (if field_aliases then canonical_field raw else to_ascii_lowercase raw)"

text \<open>A word without an operator after it.\<close>

definition plain_predicate :: "bool \<Rightarrow> string \<Rightarrow> string + predicate" where
  "plain_predicate field_aliases raw =
     (if \<not> field_aliases then
        (case split_once (CHR '':'') raw of
           Some (field, v) \<Rightarrow>
             if field = [] \<or> v = [] then Inl ''field:value requires both a field and a value''
             else Inr (Comparison (to_ascii_lowercase field) OpEq (ScalarLiteral v))
         | None \<Rightarrow> Inr (Bare raw))
      else if eq_ignore_ascii_case raw ''untagged'' then Inr Untagged
      else if is_event_predicate raw then Inr (Event (to_ascii_lowercase raw))
      else (case split_once (CHR '':'') raw of
          Some (namespace, v) \<Rightarrow>
            if namespace = [] then Inl ''selector namespace is empty''
            else if v = [] then Inl ''selector value is empty''
            else Inr (shorthand_predicate namespace v)
        | None \<Rightarrow> Inr (Bare raw)))"

definition parse_predicate :: "'r regex_lib \<Rightarrow> bool \<Rightarrow> string \<Rightarrow> token_kind list \<Rightarrow> string + predicate \<times> token_kind list" where
  "parse_predicate lib field_aliases raw ts =
     (case (if ts = [] then None else comparison_of (hd ts)) of
        Some operator \<Rightarrow>
          and_then (parse_scalar_value (tl ts)) (\<lambda>(v, rest). Inr (Comparison (field_name field_aliases raw) operator v, rest))
      | None \<Rightarrow>
          if ts \<noteq> [] \<and> hd ts = TIn then
            and_then (parse_list_values lib (tl ts)) (\<lambda>(values, rest).
            Inr (Membership (field_name field_aliases raw) False values, rest))
          else if length ts \<ge> 2 \<and> hd ts = TNot \<and> hd (tl ts) = TIn then
            and_then (parse_list_values lib (drop 2 ts)) (\<lambda>(values, rest).
            Inr (Membership (field_name field_aliases raw) True values, rest))
          else and_then (plain_predicate field_aliases raw) (\<lambda>p. Inr (p, ts)))"

definition next_starts_primary :: "token_kind list \<Rightarrow> bool" where
  "next_starts_primary ts = (case ts of TWord _ # _ \<Rightarrow> True | TLeftParen # _ \<Rightarrow> True | TNot # _ \<Rightarrow> True | _ \<Rightarrow> False)"

text \<open>A result of the parser, \<open>None\<close> without fuel, and the continuation with a parsed expression.\<close>

type_synonym parsed = "(string + expression \<times> token_kind list) option"

definition parsed_then :: "parsed \<Rightarrow> (expression \<Rightarrow> token_kind list \<Rightarrow> parsed) \<Rightarrow> parsed" where
  "parsed_then r k = (case r of Some (Inr (e, ts)) \<Rightarrow> k e ts | Some (Inl e) \<Rightarrow> Some (Inl e) | None \<Rightarrow> None)"

text \<open>
  The functions of the parser call each other: each takes the calls it makes as an argument, and
  \<open>parse_call\<close> ties the knot with one unit of fuel for each call. \<open>or_loop\<close> and \<open>and_loop\<close> are the
  loops of \<open>parse_or\<close> and \<open>parse_and\<close>.
\<close>

datatype parser_call = ParseOr | OrLoop expression | ParseAnd | AndLoop expression | ParseNot | ParsePrimary

type_synonym parser_calls = "parser_call \<Rightarrow> nat \<Rightarrow> token_kind list \<Rightarrow> parsed"

definition parse_or :: "parser_calls \<Rightarrow> nat \<Rightarrow> token_kind list \<Rightarrow> parsed" where
  "parse_or self depth ts = parsed_then (self ParseAnd depth ts) (\<lambda>e. self (OrLoop e) depth)"

definition or_loop :: "parser_calls \<Rightarrow> expression \<Rightarrow> nat \<Rightarrow> token_kind list \<Rightarrow> parsed" where
  "or_loop self e depth ts =
     (if ts \<noteq> [] \<and> hd ts = TOr then parsed_then (self ParseAnd depth (tl ts)) (\<lambda>right. self (OrLoop (EOr e right)) depth)
      else Some (Inr (e, ts)))"

definition parse_and :: "parser_calls \<Rightarrow> nat \<Rightarrow> token_kind list \<Rightarrow> parsed" where
  "parse_and self depth ts = parsed_then (self ParseNot depth ts) (\<lambda>e. self (AndLoop e) depth)"

definition and_loop :: "parser_calls \<Rightarrow> expression \<Rightarrow> nat \<Rightarrow> token_kind list \<Rightarrow> parsed" where
  "and_loop self e depth ts =
     (if ts \<noteq> [] \<and> hd ts = TAnd then parsed_then (self ParseNot depth (tl ts)) (\<lambda>right. self (AndLoop (EAnd e right)) depth)
      else if next_starts_primary ts then
        parsed_then (self ParseNot depth ts) (\<lambda>right. self (AndLoop (EAnd e right)) depth)
      else Some (Inr (e, ts)))"

definition parse_not :: "parser_calls \<Rightarrow> bool \<Rightarrow> nat \<Rightarrow> token_kind list \<Rightarrow> parsed" where
  "parse_not self field_aliases depth ts =
     (if \<not> field_aliases \<and> depth \<ge> 64 then Some (Inl ''Search nesting exceeds 64 levels.'')
      else if ts \<noteq> [] \<and> hd ts = TNot then
        parsed_then (self ParseNot (Suc depth) (tl ts)) (\<lambda>inner rest. Some (Inr (ENot inner, rest)))
      else self ParsePrimary (Suc depth) ts)"

definition parse_primary :: "parser_calls \<Rightarrow> 'r regex_lib \<Rightarrow> bool \<Rightarrow> nat \<Rightarrow> token_kind list \<Rightarrow> parsed" where
  "parse_primary self lib field_aliases depth ts =
     (case ts of
        [] \<Rightarrow> Some (Inl ''expression is incomplete'')
      | t # rest \<Rightarrow>
          (case t of
             TWord raw \<Rightarrow> Some (and_then (parse_predicate lib field_aliases raw rest) (\<lambda>(p, rest). Inr (EPredicate p, rest)))
           | TLeftParen \<Rightarrow>
               parsed_then (self ParseOr depth rest) (\<lambda>e rest.
                 if rest \<noteq> [] \<and> hd rest = TRightParen then Some (Inr (e, tl rest))
                 else Some (Inl ''missing closing parenthesis''))
           | TString raw \<Rightarrow>
               if \<not> field_aliases then Some (Inr (EPredicate (Bare raw), rest))
               else Some (Inl ''predicate must start with a field or shorthand term'')
           | TAnd \<Rightarrow> Some (Inl ''operator is missing a left operand'')
           | TOr \<Rightarrow> Some (Inl ''operator is missing a left operand'')
           | TIn \<Rightarrow> Some (Inl ''operator is missing a left operand'')
           | TNot \<Rightarrow> Some (Inl ''parse_not consumes unary not'')
           | TRightParen \<Rightarrow> Some (Inl ''unexpected closing parenthesis'')
           | _ \<Rightarrow> Some (Inl ''predicate must start with a field or shorthand term'')))"

primrec parse_call :: "'r regex_lib \<Rightarrow> bool \<Rightarrow> nat \<Rightarrow> parser_calls" where
  "parse_call lib fa 0 = (\<lambda>call depth ts. None)"
| "parse_call lib fa (Suc n) = (\<lambda>call depth ts.
     let self = parse_call lib fa n in
     case call of
       ParseOr \<Rightarrow> parse_or self depth ts
     | OrLoop e \<Rightarrow> or_loop self e depth ts
     | ParseAnd \<Rightarrow> parse_and self depth ts
     | AndLoop e \<Rightarrow> and_loop self e depth ts
     | ParseNot \<Rightarrow> parse_not self fa depth ts
     | ParsePrimary \<Rightarrow> parse_primary self lib fa depth ts)"

end
