(* ===== verification/Expression_Eval.thy ===== *)
theory Expression_Eval
  imports Expression
begin

section \<open>Validation and evaluation of expressions\<close>

text \<open>
  The second half of \<open>common/src/selection/expression.rs\<close>: what a parsed expression may say about the rules of
  a machine, and what it means in a context, together with the validation of schedule expressions of
  \<open>common/src/selection/alert_event_expression.rs\<close>. A branch that the code marks unreachable is \<open>False\<close> or
  an error here and is not reached: comparisons by order are only made with an ordering operator.
\<close>

subsection \<open>Validation\<close>

fun is_order_operator :: "comparison_operator \<Rightarrow> bool" where
  "is_order_operator OpLt = True"
| "is_order_operator OpLte = True"
| "is_order_operator OpGt = True"
| "is_order_operator OpGte = True"
| "is_order_operator _ = False"

definition has_glob :: "string \<Rightarrow> bool" where
  "has_glob s \<longleftrightarrow> CHR ''*'' \<in> set s \<or> CHR ''?'' \<in> set s"

definition is_vps_rule_field :: "string \<Rightarrow> bool" where
  "is_vps_rule_field field =
     (let field = to_ascii_lowercase field in
      field = ''vps.rules'' \<or> starts_with field ''vps.rules:'' \<or> starts_with field ''vps.rules.'')"

definition validate_vps_rule_bare :: "string \<Rightarrow> string + unit" where
  "validate_vps_rule_bare raw =
     (let raw = to_ascii_lowercase raw in
      ensure (\<not> (raw = ''vps.rules'' \<or> starts_with raw ''vps.rules.''))
        ''choose a VPS rule; use vps.rules:<key>, for example vps.rules:traffic.reset_day'')"

definition validate_vps_rule_key :: "string \<Rightarrow> string + unit" where
  "validate_vps_rule_key key =
     ensure (key \<in> set SUPPORTED_VPS_RULE_KEYS) (''unsupported VPS rule key `'' @ key @ ''`'')"

definition validate_vps_rule_key_pattern :: "string \<Rightarrow> string + unit" where
  "validate_vps_rule_key_pattern pattern =
     (if has_glob pattern then Inr () else validate_vps_rule_key (to_ascii_lowercase pattern))"

definition in_i64 :: "int \<Rightarrow> bool" where
  "in_i64 i \<longleftrightarrow> - (2 ^ 63) \<le> i \<and> i \<le> 2 ^ 63 - 1"

definition parse_i128 :: "string \<Rightarrow> int option" where
  "parse_i128 s = parse_signed (- (2 ^ 127)) (2 ^ 127 - 1) s"

text \<open>\<open>as_i64\<close>, then \<open>as_u64\<close>, then the parsed text: an integer of \<open>serde_json\<close> is always one of the first two.\<close>

definition vps_rule_json_integer :: "'f json \<Rightarrow> string \<Rightarrow> int option" where
  "vps_rule_json_integer v field =
     (case json_get v field of
        Some (JInt i) \<Rightarrow> if in_i64 i \<or> 0 \<le> i \<and> i < 2 ^ 64 then Some i else None
      | Some (JString s) \<Rightarrow> parse_i128 s
      | _ \<Rightarrow> None)"

definition expected_vps_rule_json_integer :: "'f f64_ops \<Rightarrow> string \<Rightarrow> string \<Rightarrow> string \<Rightarrow> int option" where
  "expected_vps_rule_json_integer f key v field =
     Option.bind (result_ok (parse_vps_rule_value f key v)) (\<lambda>parsed. vps_rule_json_integer (pv_json parsed) field)"

record billing_price_order_value =
  bp_amount_minor :: int
  bp_currency :: string
  bp_period :: string

definition parse_billing_amount_minor :: "string \<Rightarrow> int option" where
  "parse_billing_amount_minor v =
     Option.bind (split_once (CHR ''.'') v) (\<lambda>(whole, fraction).
       if whole = [] \<or> \<not> all_digits whole \<or> length fraction \<noteq> 2 \<or> \<not> all_digits fraction then None
       else Option.bind (parse_i128 whole) (\<lambda>w. Option.bind (if w * 100 \<le> 2 ^ 127 - 1 then Some (w * 100) else None) (\<lambda>w.
            Option.bind (parse_i128 fraction) (\<lambda>fr. if w + fr \<le> 2 ^ 127 - 1 then Some (w + fr) else None))))"

definition billing_price_from_json :: "'f json \<Rightarrow> bool \<Rightarrow> billing_price_order_value option" where
  "billing_price_from_json v allow_zero =
     (if json_get v ''disabled'' = Some (JBool True) then None
      else Option.bind (Option.bind (Option.bind (json_get v ''price'') as_str) parse_billing_amount_minor) (\<lambda>amount_minor.
        if \<not> allow_zero \<and> amount_minor = 0 then None
        else Option.bind (Option.bind (json_get v ''currency'') as_str) (\<lambda>currency.
          map_option (\<lambda>period. \<lparr>bp_amount_minor = amount_minor, bp_currency = to_ascii_uppercase currency,
              bp_period = to_ascii_lowercase period\<rparr>)
            (Option.bind (json_get v ''period_code'') as_str))))"

definition parse_billing_price_order_value :: "'f f64_ops \<Rightarrow> string \<Rightarrow> billing_price_order_value option" where
  "parse_billing_price_order_value f v =
     Option.bind (result_ok (parse_vps_rule_value f ''billing.price'' v)) (\<lambda>parsed. billing_price_from_json (pv_json parsed) False)"

definition quota_key :: "string \<Rightarrow> bool" where
  "quota_key key \<longleftrightarrow> key = ''traffic.quota.total'' \<or> key = ''traffic.quota.rx'' \<or> key = ''traffic.quota.tx''"

definition order_requirement :: "string \<Rightarrow> string" where
  "order_requirement key =
     (if key = ''traffic.reset_day'' then ''a day from 1 to 31''
      else if quota_key key then ''a positive byte size using B, KB, MB, GB, TB, KiB, MiB, GiB, or TiB''
      else if key = ''network.port_speed'' then ''a positive speed using bps, Kbps, Mbps, Gbps, or Tbps''
      else ''a positive amount with currency and period, such as 50 USD/m'')"

definition validate_vps_rule_order_rhs :: "'f f64_ops \<Rightarrow> string \<Rightarrow> string \<Rightarrow> string + unit" where
  "validate_vps_rule_order_rhs f key expected =
     and_then
       (if key = ''traffic.reset_day'' then
          Inr (case expected_vps_rule_json_integer f key expected ''day'' of None \<Rightarrow> False | Some v \<Rightarrow> 1 \<le> v \<and> v \<le> 31)
        else if quota_key key then
          Inr (case expected_vps_rule_json_integer f key expected ''bytes'' of None \<Rightarrow> False | Some v \<Rightarrow> v \<ge> 0)
        else if key = ''network.port_speed'' then
          Inr (case expected_vps_rule_json_integer f key expected ''bps'' of None \<Rightarrow> False | Some v \<Rightarrow> v > 0)
        else if key = ''billing.price'' then Inr (parse_billing_price_order_value f expected \<noteq> None)
        else Inl (''VPS rule `'' @ key @ ''` does not support ordered comparisons'')) (\<lambda>valid.
     ensure valid (''VPS rule `'' @ key @ ''` ordered comparison requires '' @ order_requirement key))"

definition rule_value_ok :: "'f f64_ops \<Rightarrow> string \<Rightarrow> string \<Rightarrow> string + unit" where
  "rule_value_ok f key v =
     and_then (map_err (\<lambda>error. ''invalid value for VPS rule `'' @ key @ ''`: '' @ error) (parse_vps_rule_value f key v)) (\<lambda>_. Inr ())"

definition rule_field_hint :: string where
  "rule_field_hint = ''VPS rule values use vps.rules:<key>, for example vps.rules:traffic.reset_day''"

definition validate_vps_rule_comparison :: "'f f64_ops \<Rightarrow> string \<Rightarrow> comparison_operator \<Rightarrow> string \<Rightarrow> string + unit" where
  "validate_vps_rule_comparison f field operator expected =
     (let field = to_ascii_lowercase field in
      if field = ''vps.rules'' then
        (if operator = OpEq then validate_vps_rule_key_pattern expected
         else if operator = OpNotEq then Inl ''vps.rules key absence uses !(vps.rules:<key>), not !=''
         else Inl ''vps.rules key presence does not support ordered comparisons'')
      else case strip_prefix field ''vps.rules:'' of
          None \<Rightarrow> ensure (\<not> starts_with field ''vps.rules.'') rule_field_hint
        | Some key \<Rightarrow>
            and_then (validate_vps_rule_key key) (\<lambda>_.
            and_then (if (operator = OpEq \<or> operator = OpNotEq) \<and> \<not> has_glob expected then rule_value_ok f key expected else Inr ()) (\<lambda>_.
            if \<not> is_order_operator operator then Inr () else validate_vps_rule_order_rhs f key expected)))"

definition literal_of :: "list_value \<Rightarrow> string option" where
  "literal_of v = (case v of ListLiteral s \<Rightarrow> Some s | ListRegex _ \<Rightarrow> None)"

definition validate_vps_rule_membership :: "'f f64_ops \<Rightarrow> string \<Rightarrow> bool \<Rightarrow> list_value list \<Rightarrow> string + unit" where
  "validate_vps_rule_membership f field negated values =
     (let field = to_ascii_lowercase field in
      if field = ''vps.rules'' then
        (if negated then Inl ''vps.rules key absence uses unary ! around a presence expression, not `not in`''
         else try_fold (\<lambda>_ v. case literal_of v of Some s \<Rightarrow> validate_vps_rule_key_pattern s | None \<Rightarrow> Inr ()) () values)
      else case strip_prefix field ''vps.rules:'' of
          Some key \<Rightarrow>
            and_then (validate_vps_rule_key key) (\<lambda>_.
            try_fold (\<lambda>_ v. case literal_of v of
                Some s \<Rightarrow> if \<not> has_glob s then rule_value_ok f key s else Inr ()
              | None \<Rightarrow> Inr ()) () values)
        | None \<Rightarrow> ensure (\<not> starts_with field ''vps.rules.'') rule_field_hint)"

definition validate_predicate :: "'f f64_ops \<Rightarrow> predicate \<Rightarrow> string + unit" where
  "validate_predicate f p =
     (case p of
        Comparison field operator (ScalarLiteral expected) \<Rightarrow> validate_vps_rule_comparison f field operator expected
      | Membership field negated values \<Rightarrow> validate_vps_rule_membership f field negated values
      | Bare raw \<Rightarrow> validate_vps_rule_bare raw
      | Event _ \<Rightarrow> Inr ()
      | Untagged \<Rightarrow> Inr ())"

fun validate_expression :: "'f f64_ops \<Rightarrow> expression \<Rightarrow> string + unit" where
  "validate_expression f (EPredicate p) = validate_predicate f p"
| "validate_expression f (ENot e) = validate_expression f e"
| "validate_expression f (EAnd l r) = and_then (validate_expression f l) (\<lambda>_. validate_expression f r)"
| "validate_expression f (EOr l r) = and_then (validate_expression f l) (\<lambda>_. validate_expression f r)"

text \<open>Parsing an expression. The fuel is enough for every call the parser makes on these tokens.\<close>

definition parser_fuel :: "token_kind list \<Rightarrow> nat" where
  "parser_fuel ts = 6 * length ts + 6"

definition parse_expression_with_aliases ::
    "'f f64_ops \<Rightarrow> 'r regex_lib \<Rightarrow> string \<Rightarrow> bool \<Rightarrow> (string + expression option) option" where
  "parse_expression_with_aliases f lib input field_aliases =
     (case tokenize input of
        Inl e \<Rightarrow> Some (Inl e)
      | Inr tokens \<Rightarrow>
          if \<not> field_aliases \<and> length tokens > 1024 then Some (Inl ''Search expression is too large (maximum 1,024 tokens).'')
          else if tokens = [] then
            if trim input \<noteq> [] then Some (Inl ''expression is empty'') else Some (Inr None)
          else (case parse_call lib field_aliases (parser_fuel tokens) ParseOr 0 tokens of
              None \<Rightarrow> None
            | Some (Inl e) \<Rightarrow> Some (Inl e)
            | Some (Inr (e, rest)) \<Rightarrow>
                if rest \<noteq> [] then Some (Inl ''unexpected token after expression'')
                else Some (and_then (validate_expression f e) (\<lambda>_. Inr (Some e)))))"

definition parse_expression :: "'f f64_ops \<Rightarrow> 'r regex_lib \<Rightarrow> string \<Rightarrow> (string + expression option) option" where
  "parse_expression f lib input = parse_expression_with_aliases f lib input True"

definition parse_field_expression :: "'f f64_ops \<Rightarrow> 'r regex_lib \<Rightarrow> string \<Rightarrow> (string + expression option) option" where
  "parse_field_expression f lib input = parse_expression_with_aliases f lib input False"

subsection \<open>Fields\<close>

datatype field_value = FString string | FNumber int | FDecimal string

fun json_value_to_field_values :: "'f f64_ops \<Rightarrow> 'f json \<Rightarrow> field_value list option" where
  "json_value_to_field_values f (JString v) = Some [FString v]"
| "json_value_to_field_values f (JInt i) = Some [FNumber i]"
| "json_value_to_field_values f (JFloat x) = (if f64_is_finite f x then Some [FDecimal (f64_show f x)] else None)"
| "json_value_to_field_values f (JBool b) = Some [FString (if b then ''true'' else ''false'')]"
| "json_value_to_field_values f (JArray vs) =
     Some (concat (map (\<lambda>v. case json_value_to_field_values f v of None \<Rightarrow> [] | Some xs \<Rightarrow> xs) vs))"
| "json_value_to_field_values f JNull = None"
| "json_value_to_field_values f (JObject members) = None"

fun json_path :: "'f json \<Rightarrow> string list \<Rightarrow> 'f json option" where
  "json_path v [] = Some v"
| "json_path v (segment # segments) =
     (if segment = [] then None else Option.bind (json_get v segment) (\<lambda>v. json_path v segments))"

definition json_path_values :: "'f f64_ops \<Rightarrow> 'f json \<Rightarrow> string \<Rightarrow> field_value list option" where
  "json_path_values f v path = Option.bind (json_path v (split_on (CHR ''.'') path)) (json_value_to_field_values f)"

definition tag_alias_values :: "string list \<Rightarrow> string \<Rightarrow> field_value list" where
  "tag_alias_values tags prefix =
     map (\<lambda>tag. FString (drop (length prefix) tag))
       (filter (\<lambda>tag. starts_with (to_ascii_lowercase tag) (to_ascii_lowercase prefix)) tags)"

definition option_string_value :: "string option \<Rightarrow> field_value list option" where
  "option_string_value v = map_option (\<lambda>s. [FString s]) v"

text \<open>\<open>trim_start_matches("vps.")\<close>: every leading repetition is removed.\<close>

function trim_vps_prefix :: "string \<Rightarrow> string" where
  "trim_vps_prefix s = (if starts_with s ''vps.'' then trim_vps_prefix (drop 4 s) else s)"
  by pat_completeness auto
termination by (relation "measure length") (auto simp: starts_with_iff)

declare trim_vps_prefix.simps [simp del]

definition vps_field_values :: "'f f64_ops \<Rightarrow> 'f vps_metadata option \<Rightarrow> string \<Rightarrow> field_value list option" where
  "vps_field_values f vps field =
     Option.bind vps (\<lambda>vps.
       if field = ''vps.id'' then Some [FString (vm_id vps)]
       else if field = ''vps.display_name'' then Some [FString (vm_display_name vps)]
       else if field = ''vps.status'' then Some [FString (vm_status vps)]
       else if field = ''vps.tag'' then Some (map FString (vm_tags vps))
       else if field = ''vps.provider'' then Some (tag_alias_values (vm_tags vps) ''provider:'')
       else if field = ''vps.country'' then Some (tag_alias_values (vm_tags vps) ''country:'')
       else if field = ''vps.region'' then Some (tag_alias_values (vm_tags vps) ''region:'')
       else if field = ''vps.registration_ip'' then option_string_value (vm_registration_ip vps)
       else if field = ''vps.last_ip'' then option_string_value (vm_last_ip vps)
       else if field = ''vps.last_seen_at'' then option_string_value (vm_last_seen_at vps)
       else if field = ''vps.internal_build_number'' then map_option (\<lambda>n. [FNumber (uint n)]) (vm_internal_build_number vps)
       else if field = ''vps.stale_since'' then option_string_value (vm_stale_since vps)
       else if field = ''vps.stale_reason'' then option_string_value (vm_stale_reason vps)
       else if starts_with field ''vps.'' then
         Option.bind (vm_extra vps) (\<lambda>extra. json_path_values f extra (trim_vps_prefix field))
       else None)"

definition vps_rule_field_values :: "'f vps_rule_context option \<Rightarrow> string \<Rightarrow> field_value list option" where
  "vps_rule_field_values rules field =
     (if field = ''vps.rules'' then map_option (\<lambda>rules. map (FString \<circ> fst) rules) rules
      else Option.bind (strip_prefix field ''vps.rules:'') (\<lambda>key.
        Option.bind rules (\<lambda>rules. map_option (\<lambda>rule. [FString (vr_value_raw rule)]) (map_of rules key))))"

definition json_root :: "'f expression_context \<Rightarrow> string \<Rightarrow> 'f json option" where
  "json_root cx root =
     (if root = ''rule'' then cx_rule cx else if root = ''event'' then cx_event cx
      else if root = ''query'' then cx_query cx else if root = ''server'' then cx_server cx
      else if root = ''job'' then cx_job cx else if root = ''schedule'' then cx_schedule cx
      else if root = ''alert'' then cx_alert cx else if root = ''policy_rule'' then cx_policy_rule cx
      else if root = ''telemetry'' then cx_telemetry cx else map_of (cx_objects cx) root)"

definition field_values :: "'f f64_ops \<Rightarrow> 'f expression_context \<Rightarrow> string \<Rightarrow> field_value list option" where
  "field_values f cx field =
     (let field = canonical_field field in
      case vps_rule_field_values (cx_vps_rules cx) field of Some values \<Rightarrow> Some values | None \<Rightarrow>
      case vps_field_values f (cx_vps cx) field of Some values \<Rightarrow> Some values | None \<Rightarrow>
      Option.bind (split_once (CHR ''.'') field) (\<lambda>(root, path).
      Option.bind (json_root cx root) (\<lambda>v. json_path_values f v path)))"

subsection \<open>Comparisons\<close>

record ('f, 'r) expr_env =
  env_f64 :: "'f f64_ops"
  env_regex :: "'r regex_lib"
  env_rfc3339 :: "string \<Rightarrow> int option"

fun compare_order :: "int \<Rightarrow> int \<Rightarrow> comparison_operator \<Rightarrow> bool" where
  "compare_order a b OpLt = (a < b)"
| "compare_order a b OpLte = (a \<le> b)"
| "compare_order a b OpGt = (a > b)"
| "compare_order a b OpGte = (a \<ge> b)"
| "compare_order a b _ = False"

text \<open>Floating-point comparison of finite numbers, by the one relation the parameter has.\<close>

fun compare_f64 :: "'f f64_ops \<Rightarrow> 'f \<Rightarrow> 'f \<Rightarrow> comparison_operator \<Rightarrow> bool" where
  "compare_f64 f a b OpLt = (\<not> f64_ge f a b)"
| "compare_f64 f a b OpLte = f64_ge f b a"
| "compare_f64 f a b OpGt = (\<not> f64_ge f b a)"
| "compare_f64 f a b OpGte = f64_ge f a b"
| "compare_f64 f a b _ = (f64_ge f a b \<and> f64_ge f b a)"

definition finite_f64 :: "'f f64_ops \<Rightarrow> string \<Rightarrow> 'f option" where
  "finite_f64 f s = (case f64_parse f s of Some x \<Rightarrow> if f64_is_finite f x then Some x else None | None \<Rightarrow> None)"

definition parse_timestamp :: "('f, 'r) expr_env \<Rightarrow> string \<Rightarrow> int option" where
  "parse_timestamp env v =
     (case parse_signed (- (2 ^ 63)) (2 ^ 63 - 1) v of Some seconds \<Rightarrow> Some seconds | None \<Rightarrow> env_rfc3339 env v)"

definition field_value_timestamp :: "('f, 'r) expr_env \<Rightarrow> field_value \<Rightarrow> int option" where
  "field_value_timestamp env v =
     (let f = env_f64 env in
      case v of
        FString s \<Rightarrow> parse_timestamp env s
      | FNumber i \<Rightarrow> if in_i64 i then Some i else None
      | FDecimal s \<Rightarrow>
          Option.bind (finite_f64 f s) (\<lambda>x.
            if f64_is_whole f x \<and> f64_ge f x (f64_of_int f (- (2 ^ 63))) \<and> f64_ge f (f64_of_int f (2 ^ 63 - 1)) x
            then Some (f64_to_i64 f x) else None))"

definition order_field_value :: "('f, 'r) expr_env \<Rightarrow> field_value \<Rightarrow> comparison_operator \<Rightarrow> string \<Rightarrow> bool" where
  "order_field_value env actual operator expected =
     (let f = env_f64 env;
          timestamps = (case (field_value_timestamp env actual, parse_timestamp env expected) of
            (Some a, Some b) \<Rightarrow> compare_order a b operator | _ \<Rightarrow> False) in
      case actual of
        FNumber a \<Rightarrow> (case parse_i128 expected of Some b \<Rightarrow> compare_order a b operator | None \<Rightarrow> timestamps)
      | FDecimal a \<Rightarrow>
          (case (finite_f64 f a, finite_f64 f expected) of (Some a, Some b) \<Rightarrow> compare_f64 f a b operator | _ \<Rightarrow> timestamps)
      | FString _ \<Rightarrow> timestamps)"

definition field_value_literal_matches :: "'f f64_ops \<Rightarrow> field_value \<Rightarrow> string \<Rightarrow> bool" where
  "field_value_literal_matches f actual expected =
     (case actual of
        FString a \<Rightarrow> literal_matches a expected False
      | FNumber a \<Rightarrow> parse_i128 expected = Some a
      | FDecimal a \<Rightarrow>
          (case (finite_f64 f a, finite_f64 f expected) of (Some a, Some b) \<Rightarrow> compare_f64 f a b OpEq | _ \<Rightarrow> False))"

definition compare_field_value :: "('f, 'r) expr_env \<Rightarrow> field_value \<Rightarrow> comparison_operator \<Rightarrow> string \<Rightarrow> bool" where
  "compare_field_value env actual operator expected =
     (if operator = OpEq then field_value_literal_matches (env_f64 env) actual expected
      else if operator = OpNotEq then \<not> field_value_literal_matches (env_f64 env) actual expected
      else order_field_value env actual operator expected)"

definition list_value_matches :: "'r regex_lib \<Rightarrow> string \<Rightarrow> list_value \<Rightarrow> bool" where
  "list_value_matches lib actual v =
     (case v of
        ListLiteral expected \<Rightarrow> literal_matches actual expected False
      | ListRegex pattern \<Rightarrow> (case regex_new lib pattern of Inr r \<Rightarrow> regex_is_match lib r actual | Inl _ \<Rightarrow> False))"

definition list_values_match :: "'r regex_lib \<Rightarrow> string \<Rightarrow> list_value list \<Rightarrow> bool" where
  "list_values_match lib actual expected = list_ex (list_value_matches lib actual) expected"

subsection \<open>Rules of a machine\<close>

definition rule_of :: "'f vps_rule_context option \<Rightarrow> string \<Rightarrow> (string \<times> 'f vps_rule_value) option" where
  "rule_of rules field =
     Option.bind (strip_prefix (to_ascii_lowercase field) ''vps.rules:'') (\<lambda>key.
     Option.bind rules (\<lambda>rules. map_option (\<lambda>rule. (key, rule)) (map_of rules key)))"

definition normalized_rule_values :: "'f f64_ops \<Rightarrow> string \<Rightarrow> 'f vps_rule_value \<Rightarrow> string \<Rightarrow> (string \<times> string) option" where
  "normalized_rule_values f key actual expected =
     Option.bind (result_ok (parse_vps_rule_value f key (vr_value_raw actual))) (\<lambda>a.
     map_option (\<lambda>e. (pv_raw a, pv_raw e)) (result_ok (parse_vps_rule_value f key expected)))"

definition normalized_rule_equal :: "'f f64_ops \<Rightarrow> string \<Rightarrow> 'f vps_rule_value \<Rightarrow> string \<Rightarrow> bool option" where
  "normalized_rule_equal f key actual expected =
     map_option (\<lambda>(a, e). eq_ignore_ascii_case a e) (normalized_rule_values f key actual expected)"

definition vps_rule_exact_comparison_matches ::
    "'f f64_ops \<Rightarrow> 'f vps_rule_context option \<Rightarrow> string \<Rightarrow> comparison_operator \<Rightarrow> string \<Rightarrow> bool" where
  "vps_rule_exact_comparison_matches f rules field operator expected =
     (case rule_of rules field of
        None \<Rightarrow> False
      | Some (key, rule) \<Rightarrow>
          (case normalized_rule_equal f key rule expected of
             None \<Rightarrow> False
           | Some matched \<Rightarrow> if operator = OpEq then matched else if operator = OpNotEq then \<not> matched else False))"

definition vps_rule_membership_matches ::
    "('f, 'r) expr_env \<Rightarrow> 'f vps_rule_context option \<Rightarrow> string \<Rightarrow> bool \<Rightarrow> list_value list \<Rightarrow> bool" where
  "vps_rule_membership_matches env rules field negated values =
     (case rule_of rules field of
        None \<Rightarrow> False
      | Some (key, rule) \<Rightarrow>
          let matched = list_ex (\<lambda>expected. case expected of
              ListRegex pattern \<Rightarrow> list_value_matches (env_regex env) (vr_value_raw rule) expected
            | ListLiteral pattern \<Rightarrow>
                if has_glob pattern then literal_matches (vr_value_raw rule) pattern False
                else normalized_rule_equal (env_f64 env) key rule pattern = Some True) values
          in if negated then \<not> matched else matched)"

definition bounded :: "(int \<Rightarrow> bool) \<Rightarrow> int option \<Rightarrow> int option" where
  "bounded ok v = (case v of Some i \<Rightarrow> if ok i then Some i else None | None \<Rightarrow> None)"

definition order_integers :: "'f f64_ops \<Rightarrow> string \<Rightarrow> string \<Rightarrow> (int \<Rightarrow> bool) \<Rightarrow> 'f vps_rule_value \<Rightarrow> comparison_operator \<Rightarrow> string \<Rightarrow> bool" where
  "order_integers f key field ok rule operator expected =
     (case (bounded ok (expected_vps_rule_json_integer f key (vr_value_raw rule) field),
            bounded ok (expected_vps_rule_json_integer f key expected field)) of
        (Some a, Some b) \<Rightarrow> compare_order a b operator | _ \<Rightarrow> False)"

definition billing_price_from_rule :: "'f f64_ops \<Rightarrow> 'f vps_rule_value \<Rightarrow> billing_price_order_value option" where
  "billing_price_from_rule f rule =
     Option.bind (result_ok (parse_vps_rule_value f ''billing.price'' (vr_value_raw rule))) (\<lambda>parsed.
     billing_price_from_json (pv_json parsed) True)"

definition vps_rule_order_matches ::
    "'f f64_ops \<Rightarrow> 'f vps_rule_context option \<Rightarrow> string \<Rightarrow> comparison_operator \<Rightarrow> string \<Rightarrow> bool" where
  "vps_rule_order_matches f rules field operator expected =
     (case rule_of rules field of
        None \<Rightarrow> False
      | Some (key, rule) \<Rightarrow>
          if key = ''traffic.reset_day'' then order_integers f key ''day'' (\<lambda>v. 1 \<le> v \<and> v \<le> 31) rule operator expected
          else if quota_key key then order_integers f key ''bytes'' (\<lambda>v. v \<ge> 0) rule operator expected
          else if key = ''network.port_speed'' then order_integers f key ''bps'' (\<lambda>v. v > 0) rule operator expected
          else if key = ''billing.price'' then
            (case (billing_price_from_rule f rule, parse_billing_price_order_value f expected) of
               (Some a, Some b) \<Rightarrow> bp_currency a = bp_currency b \<and> bp_period a = bp_period b
                 \<and> compare_order (bp_amount_minor a) (bp_amount_minor b) operator
             | _ \<Rightarrow> False)
          else False)"

subsection \<open>Evaluation\<close>

definition bare_matches :: "'f expression_context \<Rightarrow> string \<Rightarrow> bool" where
  "bare_matches cx raw =
     (case cx_vps cx of
        None \<Rightarrow> False
      | Some vps \<Rightarrow> literal_matches (vm_id vps) raw True \<or> literal_matches (vm_display_name vps) raw True)"

definition comparison_matches :: "('f, 'r) expr_env \<Rightarrow> 'f expression_context \<Rightarrow> string \<Rightarrow> comparison_operator \<Rightarrow> scalar_value \<Rightarrow> bool" where
  "comparison_matches env cx field operator v =
     (case v of ScalarLiteral expected \<Rightarrow>
        if (operator = OpEq \<or> operator = OpNotEq) \<and> \<not> has_glob expected \<and> starts_with (to_ascii_lowercase field) ''vps.rules:''
        then vps_rule_exact_comparison_matches (env_f64 env) (cx_vps_rules cx) field operator expected
        else if is_order_operator operator \<and> starts_with (to_ascii_lowercase field) ''vps.rules:''
        then vps_rule_order_matches (env_f64 env) (cx_vps_rules cx) field operator expected
        else case field_values (env_f64 env) cx field of
            None \<Rightarrow> False
          | Some values \<Rightarrow> list_ex (\<lambda>actual. compare_field_value env actual operator expected) values)"

definition field_value_text :: "field_value \<Rightarrow> string" where
  "field_value_text v = (case v of FString s \<Rightarrow> s | FNumber i \<Rightarrow> show_int i | FDecimal s \<Rightarrow> s)"

definition membership_matches :: "('f, 'r) expr_env \<Rightarrow> 'f expression_context \<Rightarrow> string \<Rightarrow> bool \<Rightarrow> list_value list \<Rightarrow> bool" where
  "membership_matches env cx field negated values =
     (if starts_with (to_ascii_lowercase field) ''vps.rules:''
      then vps_rule_membership_matches env (cx_vps_rules cx) field negated values
      else case field_values (env_f64 env) cx field of
          None \<Rightarrow> False
        | Some actual_values \<Rightarrow>
            let matched = list_ex (\<lambda>actual. list_values_match (env_regex env) (field_value_text actual) values) actual_values
            in if negated then \<not> matched else matched)"

definition predicate_matches :: "('f, 'r) expr_env \<Rightarrow> 'f expression_context \<Rightarrow> predicate \<Rightarrow> bool" where
  "predicate_matches env cx p =
     (case p of
        Bare raw \<Rightarrow> bare_matches cx raw
      | Comparison field operator v \<Rightarrow> comparison_matches env cx field operator v
      | Membership field negated values \<Rightarrow> membership_matches env cx field negated values
      | Event name \<Rightarrow> name \<in> cx_event_predicates cx
      | Untagged \<Rightarrow> (case cx_vps cx of None \<Rightarrow> False | Some vps \<Rightarrow> vm_tags vps = []))"

definition truth_of :: "bool \<Rightarrow> expression_truth" where
  "truth_of b = (if b then TruthTrue else TruthFalse)"

definition predicate_truth :: "('f, 'r) expr_env \<Rightarrow> 'f expression_context \<Rightarrow> predicate \<Rightarrow> expression_truth" where
  "predicate_truth env cx p =
     (case p of
        Bare raw \<Rightarrow> if cx_vps cx = None then TruthUnknown else truth_of (bare_matches cx raw)
      | Comparison field operator v \<Rightarrow>
          if field_values (env_f64 env) cx field = None then TruthUnknown else truth_of (comparison_matches env cx field operator v)
      | Membership field negated values \<Rightarrow>
          if field_values (env_f64 env) cx field = None then TruthUnknown else truth_of (membership_matches env cx field negated values)
      | Event name \<Rightarrow> truth_of (name \<in> cx_event_predicates cx)
      | Untagged \<Rightarrow> (case cx_vps cx of None \<Rightarrow> TruthUnknown | Some vps \<Rightarrow> truth_of (vm_tags vps = [])))"

fun expression_matches :: "('f, 'r) expr_env \<Rightarrow> 'f expression_context \<Rightarrow> expression \<Rightarrow> bool" where
  "expression_matches env cx (EPredicate p) = predicate_matches env cx p"
| "expression_matches env cx (ENot e) = (\<not> expression_matches env cx e)"
| "expression_matches env cx (EAnd l r) = (expression_matches env cx l \<and> expression_matches env cx r)"
| "expression_matches env cx (EOr l r) = (expression_matches env cx l \<or> expression_matches env cx r)"

fun expression_truth :: "('f, 'r) expr_env \<Rightarrow> 'f expression_context \<Rightarrow> expression \<Rightarrow> expression_truth" where
  "expression_truth env cx (EPredicate p) = predicate_truth env cx p"
| "expression_truth env cx (ENot e) = truth_not (expression_truth env cx e)"
| "expression_truth env cx (EAnd l r) = truth_and (expression_truth env cx l) (expression_truth env cx r)"
| "expression_truth env cx (EOr l r) = truth_or (expression_truth env cx l) (expression_truth env cx r)"

definition parse_and_match_expression ::
    "('f, 'r) expr_env \<Rightarrow> string \<Rightarrow> 'f expression_context \<Rightarrow> (string + bool) option" where
  "parse_and_match_expression env input cx =
     map_option (\<lambda>r. and_then r (\<lambda>e. Inr (case e of None \<Rightarrow> True | Some e \<Rightarrow> expression_matches env cx e)))
       (parse_expression (env_f64 env) (env_regex env) input)"

definition id_selector_expression :: "string \<Rightarrow> string" where
  "id_selector_expression client_id = ''id:'' @ trim client_id"

subsection \<open>What an expression refers to\<close>

definition predicate_roots :: "predicate \<Rightarrow> string set" where
  "predicate_roots p =
     (case p of
        Comparison field _ _ \<Rightarrow> (case split_once (CHR ''.'') field of Some (root, _) \<Rightarrow> {root} | None \<Rightarrow> {})
      | Membership field _ _ \<Rightarrow> (case split_once (CHR ''.'') field of Some (root, _) \<Rightarrow> {root} | None \<Rightarrow> {})
      | _ \<Rightarrow> {})"

fun expression_referenced_roots :: "expression \<Rightarrow> string set" where
  "expression_referenced_roots (EPredicate p) = predicate_roots p"
| "expression_referenced_roots (ENot e) = expression_referenced_roots e"
| "expression_referenced_roots (EAnd l r) = expression_referenced_roots l \<union> expression_referenced_roots r"
| "expression_referenced_roots (EOr l r) = expression_referenced_roots l \<union> expression_referenced_roots r"

fun expression_referenced_events :: "expression \<Rightarrow> string set" where
  "expression_referenced_events (EPredicate p) = (case p of Event name \<Rightarrow> {name} | _ \<Rightarrow> {})"
| "expression_referenced_events (ENot e) = expression_referenced_events e"
| "expression_referenced_events (EAnd l r) = expression_referenced_events l \<union> expression_referenced_events r"
| "expression_referenced_events (EOr l r) = expression_referenced_events l \<union> expression_referenced_events r"

fun expression_references_vps_rules :: "expression \<Rightarrow> bool" where
  "expression_references_vps_rules (EPredicate p) =
     (case p of
        Comparison field _ _ \<Rightarrow> is_vps_rule_field field
      | Membership field _ _ \<Rightarrow> is_vps_rule_field field
      | Bare raw \<Rightarrow> is_vps_rule_field raw
      | _ \<Rightarrow> False)"
| "expression_references_vps_rules (ENot e) = expression_references_vps_rules e"
| "expression_references_vps_rules (EAnd l r) = (expression_references_vps_rules l \<or> expression_references_vps_rules r)"
| "expression_references_vps_rules (EOr l r) = (expression_references_vps_rules l \<or> expression_references_vps_rules r)"

subsection \<open>Schedule expressions on alert events\<close>

definition ALERT_EVENT_IMMUTABLE_FIELDS :: "string list" where
  "ALERT_EVENT_IMMUTABLE_FIELDS =
     [''event.id'', ''event.kind'', ''event.occurred_at'', ''event.recorded_at'', ''alert.id'', ''alert.public_id'',
      ''alert.episode_id'', ''alert.record_kind'', ''alert.category'', ''alert.severity'', ''alert.lifecycle_state'',
      ''alert.trigger_generation'', ''alert.source_status'', ''alert.resolution_reason'', ''alert.title'', ''alert.detail'',
      ''alert.client_id'', ''alert.target_kind'', ''alert.target_id'', ''policy.id'', ''policy.name'', ''policy_rule.id'',
      ''policy_rule.name'', ''policy_rule.rule_version'', ''policy_rule.rule_kind'', ''policy_rule.evidence_source'',
      ''policy_rule.system_seed_key'', ''policy_rule.trigger_meta_condition.kind'',
      ''policy_rule.trigger_meta_condition.window_seconds'', ''policy_rule.resolve_meta_condition.kind'',
      ''policy_rule.resolve_meta_condition.window_seconds'']"

definition ALERT_EVENT_CATEGORIES :: "string list" where
  "ALERT_EVENT_CATEGORIES = [''agent_status'', ''network'', ''backup'', ''agent_update'', ''job'', ''capability_degraded'',
     ''traffic'', ''resource'']"

definition ALERT_EVENT_SEVERITIES :: "string list" where
  "ALERT_EVENT_SEVERITIES = [''info'', ''warning'', ''critical'']"

definition has_allowed_value :: "string \<Rightarrow> string \<Rightarrow> string list \<Rightarrow> bool" where
  "has_allowed_value event prefix allowed = (case strip_prefix event prefix of None \<Rightarrow> False | Some v \<Rightarrow> v \<in> set allowed)"

definition unsupported_alert_predicate :: "predicate \<Rightarrow> bool" where
  "unsupported_alert_predicate p =
     (case p of
        Bare _ \<Rightarrow> True
      | Untagged \<Rightarrow> True
      | Event event \<Rightarrow>
          let event = to_ascii_lowercase event in
          \<not> (event = ''alert.triggered'' \<or> event = ''alert.resolved''
             \<or> has_allowed_value event ''alert.category:'' ALERT_EVENT_CATEGORIES
             \<or> has_allowed_value event ''alert.severity:'' ALERT_EVENT_SEVERITIES)
      | Comparison field _ _ \<Rightarrow> \<not> list_ex (eq_ignore_ascii_case field) ALERT_EVENT_IMMUTABLE_FIELDS
      | Membership field _ _ \<Rightarrow> \<not> list_ex (eq_ignore_ascii_case field) ALERT_EVENT_IMMUTABLE_FIELDS)"

fun contains_unsupported_alert_predicate :: "expression \<Rightarrow> bool" where
  "contains_unsupported_alert_predicate (EPredicate p) = unsupported_alert_predicate p"
| "contains_unsupported_alert_predicate (ENot e) = contains_unsupported_alert_predicate e"
| "contains_unsupported_alert_predicate (EAnd l r) = (contains_unsupported_alert_predicate l \<or> contains_unsupported_alert_predicate r)"
| "contains_unsupported_alert_predicate (EOr l r) = (contains_unsupported_alert_predicate l \<or> contains_unsupported_alert_predicate r)"

fun every_or_branch_has_lifecycle_anchor :: "expression \<Rightarrow> bool" where
  "every_or_branch_has_lifecycle_anchor (EPredicate p) =
     (case p of Event event \<Rightarrow> event = ''alert.triggered'' \<or> event = ''alert.resolved'' | _ \<Rightarrow> False)"
| "every_or_branch_has_lifecycle_anchor (ENot e) = False"
| "every_or_branch_has_lifecycle_anchor (EAnd l r) = (every_or_branch_has_lifecycle_anchor l \<or> every_or_branch_has_lifecycle_anchor r)"
| "every_or_branch_has_lifecycle_anchor (EOr l r) = (every_or_branch_has_lifecycle_anchor l \<and> every_or_branch_has_lifecycle_anchor r)"

definition validate_alert_event_expression :: "expression \<Rightarrow> string + unit" where
  "validate_alert_event_expression e =
     (if contains_unsupported_alert_predicate e then Inl ''event_expression_not_alert_only''
      else if \<not> every_or_branch_has_lifecycle_anchor e then Inl ''event_expression_missing_lifecycle_anchor''
      else Inr ())"

definition parse_and_validate_alert_event_expression :: "'f f64_ops \<Rightarrow> 'r regex_lib \<Rightarrow> string \<Rightarrow> (string + expression) option" where
  "parse_and_validate_alert_event_expression f lib input =
     map_option (\<lambda>r. and_then r (\<lambda>e. and_then (ok_or ''event expression is empty'' e) (\<lambda>e.
       and_then (validate_alert_event_expression e) (\<lambda>_. Inr e)))) (parse_expression f lib input)"

fun alert_event_expression_anchor_kinds :: "expression \<Rightarrow> bool \<times> bool" where
  "alert_event_expression_anchor_kinds (EPredicate p) =
     (case p of Event event \<Rightarrow> (event = ''alert.triggered'', event = ''alert.resolved'') | _ \<Rightarrow> (False, False))"
| "alert_event_expression_anchor_kinds (ENot e) = (False, False)"
| "alert_event_expression_anchor_kinds (EAnd l r) =
     (fst (alert_event_expression_anchor_kinds l) \<or> fst (alert_event_expression_anchor_kinds r),
      snd (alert_event_expression_anchor_kinds l) \<or> snd (alert_event_expression_anchor_kinds r))"
| "alert_event_expression_anchor_kinds (EOr l r) =
     (fst (alert_event_expression_anchor_kinds l) \<or> fst (alert_event_expression_anchor_kinds r),
      snd (alert_event_expression_anchor_kinds l) \<or> snd (alert_event_expression_anchor_kinds r))"

end
