(* ===== verification/Expression_Safety.thy ===== *)
theory Expression_Safety
  imports Expression_Eval
begin

section \<open>Properties of expressions\<close>

text \<open>
  The parser ends on every input; the three-valued evaluation never contradicts the boolean one and keeps its verdict
  when evidence is added; a schedule expression that passed validation fires on lifecycle events only; and
  an evaluation depends on nothing but what the expression refers to.
\<close>

subsection \<open>The parser ends\<close>

text \<open>A run that ends, and leaves tokens with the property when it succeeds.\<close>

definition ends :: "(token_kind list \<Rightarrow> bool) \<Rightarrow> parsed \<Rightarrow> bool" where
  "ends P r \<longleftrightarrow> (case r of None \<Rightarrow> False | Some (Inl _) \<Rightarrow> True | Some (Inr (_, rest)) \<Rightarrow> P rest)"

lemma ends_simps [simp]: "ends P (Some (Inl e))" "ends P (Some (Inr (x, rest))) \<longleftrightarrow> P rest" "\<not> ends P None"
  by (simp_all add: ends_def)

lemma ends_Some: "ends P r \<Longrightarrow> \<exists>v. r = Some v"
  by (cases r) simp_all

lemma ends_then:
  assumes "ends P r" and "\<And>e rest. P rest \<Longrightarrow> ends Q (k e rest)"
  shows "ends Q (parsed_then r k)"
proof (cases r)
  case (Some v)
  then show ?thesis using assms by (cases v) (auto simp: parsed_then_def)
qed (use assms in simp)

lemma ends_mono: "ends P r \<Longrightarrow> (\<And>rest. P rest \<Longrightarrow> Q rest) \<Longrightarrow> ends Q r"
  by (auto simp: ends_def split: option.splits sum.splits)

lemma list_loop_shrinks: "list_loop lib values ts = Inr (vs, rest) \<Longrightarrow> length rest \<le> length ts"
proof (induction lib "values" ts rule: list_loop.induct)
  case (2 lib "values" t ts)
  then obtain vs' where "list_item lib values t = Inr vs'" by (auto simp: and_then_eq_Inr)
  with 2 show ?case by (cases ts) (auto split: if_splits intro: le_SucI)
qed simp

lemma parse_list_values_shrinks: "parse_list_values lib ts = Inr (vs, rest) \<Longrightarrow> length rest \<le> length ts"
  by (cases ts) (auto simp: parse_list_values_def split: if_splits dest: list_loop_shrinks)

lemma parse_scalar_value_shrinks: "parse_scalar_value ts = Inr (v, rest) \<Longrightarrow> length rest \<le> length ts"
  by (cases ts) (auto simp: parse_scalar_value_def split: token_kind.splits)

lemma parse_predicate_shrinks:
  assumes "parse_predicate lib fa raw ts = Inr (p, rest)"
  shows "length rest \<le> length ts"
  using assms unfolding parse_predicate_def
  by (cases ts) (auto simp: and_then_eq_Inr split: option.splits if_splits
      dest!: parse_scalar_value_shrinks parse_list_values_shrinks)

text \<open>
  The fuel of a call: six calls can be made before a token is consumed. All but the loops consume a token.
\<close>

fun call_rank :: "parser_call \<Rightarrow> nat" where
  "call_rank ParsePrimary = 1"
| "call_rank ParseNot = 2"
| "call_rank (AndLoop e) = 3"
| "call_rank ParseAnd = 4"
| "call_rank (OrLoop e) = 5"
| "call_rank ParseOr = 6"

definition consumed :: "parser_call \<Rightarrow> token_kind list \<Rightarrow> token_kind list \<Rightarrow> bool" where
  "consumed call ts rest \<longleftrightarrow> (case call of OrLoop _ \<Rightarrow> length rest \<le> length ts | AndLoop _ \<Rightarrow> length rest \<le> length ts
     | _ \<Rightarrow> length rest < length ts)"

lemma consumed_simps [simp]:
  "consumed ParseOr ts = (\<lambda>rest. length rest < length ts)" "consumed (OrLoop e) ts = (\<lambda>rest. length rest \<le> length ts)"
  "consumed ParseAnd ts = (\<lambda>rest. length rest < length ts)" "consumed (AndLoop e) ts = (\<lambda>rest. length rest \<le> length ts)"
  "consumed ParseNot ts = (\<lambda>rest. length rest < length ts)" "consumed ParsePrimary ts = (\<lambda>rest. length rest < length ts)"
  by (simp_all add: consumed_def fun_eq_iff)

lemma parse_primary_ends:
  assumes "\<And>rest. length rest < length ts \<Longrightarrow> ends (\<lambda>r. length r < length rest) (self ParseOr depth rest)"
  shows "ends (\<lambda>r. length r < length ts) (parse_primary self lib fa depth ts)"
proof (cases ts)
  case (Cons t rest)
  have "ends (\<lambda>r. length r < Suc (length rest)) (parsed_then (self ParseOr depth rest)
      (\<lambda>e rest. if rest \<noteq> [] \<and> hd rest = TRightParen then Some (Inr (e, tl rest)) else Some (Inl m)))" for m
    by (rule ends_then [OF assms]) (use Cons in auto)
  moreover have "ends (\<lambda>r. length r < Suc (length rest))
      (Some (and_then (parse_predicate lib fa raw rest) (\<lambda>(p, rest). Inr (EPredicate p, rest))))" for raw
    by (cases "parse_predicate lib fa raw rest") (auto simp: le_imp_less_Suc dest: parse_predicate_shrinks)
  ultimately show ?thesis using Cons by (simp add: parse_primary_def split: token_kind.split)
qed (simp add: parse_primary_def)

lemma parse_call_ends:
  "6 * length ts + call_rank call \<le> n \<Longrightarrow> ends (consumed call ts) (parse_call lib fa n call depth ts)"
proof (induction n arbitrary: call depth ts)
  case 0
  then show ?case by (cases call) simp_all
next
  case (Suc n)
  have IH: "ends (consumed c us) (parse_call lib fa n c d us)" if "6 * length us + call_rank c \<le> n" for c d us
    using that by (rule Suc.IH)
  note fuel = Suc.prems
  show ?case
  proof (cases call)
    case ParsePrimary
    have "ends (\<lambda>r. length r < length ts) (parse_primary (parse_call lib fa n) lib fa depth ts)"
      by (rule parse_primary_ends) (use IH [of _ ParseOr depth] fuel ParsePrimary in simp)
    then show ?thesis using ParsePrimary by simp
  next
    case ParseNot
    have "ends (\<lambda>r. length r < length ts) (parsed_then (parse_call lib fa n ParseNot (Suc depth) (tl ts))
        (\<lambda>inner rest. Some (Inr (ENot inner, rest))))" if "ts \<noteq> []"
      by (rule ends_then [OF IH]) (use that fuel ParseNot in \<open>auto simp: neq_Nil_conv\<close>)
    then show ?thesis using ParseNot IH [of ts ParsePrimary "Suc depth"] fuel by (auto simp: parse_not_def Let_def)
  next
    case (AndLoop e)
    have more: "ends (\<lambda>r. length r \<le> length ts) (parse_call lib fa n (AndLoop e') depth rest)" if "length rest < length ts" for e' rest
      by (rule ends_mono [OF IH]) (use that fuel AndLoop in auto)
    have "ends (\<lambda>r. length r \<le> length ts) (parsed_then (parse_call lib fa n ParseNot depth (tl ts))
        (\<lambda>right. parse_call lib fa n (AndLoop (EAnd e right)) depth))" if "ts \<noteq> []"
      by (rule ends_then [OF IH]) (use that fuel AndLoop more in \<open>auto simp: neq_Nil_conv\<close>)
    moreover have "ends (\<lambda>r. length r \<le> length ts) (parsed_then (parse_call lib fa n ParseNot depth ts)
        (\<lambda>right. parse_call lib fa n (AndLoop (EAnd e right)) depth))"
      by (rule ends_then [OF IH]) (use fuel AndLoop more in auto)
    ultimately show ?thesis using AndLoop by (auto simp: and_loop_def Let_def)
  next
    case ParseAnd
    have "ends (\<lambda>r. length r < length ts) (parse_and (parse_call lib fa n) depth ts)"
      unfolding parse_and_def by (rule ends_then [OF IH]) (use fuel ParseAnd in \<open>auto intro: ends_mono [OF IH]\<close>)
    then show ?thesis using ParseAnd by simp
  next
    case (OrLoop e)
    have more: "ends (\<lambda>r. length r \<le> length ts) (parse_call lib fa n (OrLoop e') depth rest)" if "length rest < length ts" for e' rest
      by (rule ends_mono [OF IH]) (use that fuel OrLoop in auto)
    have "ends (\<lambda>r. length r \<le> length ts) (parsed_then (parse_call lib fa n ParseAnd depth (tl ts))
        (\<lambda>right. parse_call lib fa n (OrLoop (EOr e right)) depth))" if "ts \<noteq> []"
      by (rule ends_then [OF IH]) (use that fuel OrLoop more in \<open>auto simp: neq_Nil_conv\<close>)
    then show ?thesis using OrLoop by (auto simp: or_loop_def Let_def)
  next
    case ParseOr
    have "ends (\<lambda>r. length r < length ts) (parse_or (parse_call lib fa n) depth ts)"
      unfolding parse_or_def by (rule ends_then [OF IH]) (use fuel ParseOr in \<open>auto intro: ends_mono [OF IH]\<close>)
    then show ?thesis using ParseOr by simp
  qed
qed

text \<open>More fuel gives the same result.\<close>

definition extends :: "parser_calls \<Rightarrow> parser_calls \<Rightarrow> bool" where
  "extends self self' \<longleftrightarrow> (\<forall>call depth ts v. self call depth ts = Some v \<longrightarrow> self' call depth ts = Some v)"

lemma parsed_then_extends:
  assumes "parsed_then r k = Some v" and "\<And>w. r = Some w \<Longrightarrow> r' = Some w" and "\<And>e rest w. k e rest = Some w \<Longrightarrow> k' e rest = Some w"
  shows "parsed_then r' k' = Some v"
  using assms by (auto simp: parsed_then_def split: option.splits sum.splits)

lemma extendsD: "extends self self' \<Longrightarrow> self call depth ts = Some v \<Longrightarrow> self' call depth ts = Some v"
  by (simp add: extends_def)

lemma loops_extend:
  assumes "extends self self'"
  shows "parse_or self depth ts = Some v \<Longrightarrow> parse_or self' depth ts = Some v"
    and "or_loop self e depth ts = Some v \<Longrightarrow> or_loop self' e depth ts = Some v"
    and "parse_and self depth ts = Some v \<Longrightarrow> parse_and self' depth ts = Some v"
    and "and_loop self e depth ts = Some v \<Longrightarrow> and_loop self' e depth ts = Some v"
  unfolding parse_or_def or_loop_def parse_and_def and_loop_def
  by (auto split: if_split_asm elim: parsed_then_extends extendsD [OF assms])

lemma parse_not_extends:
  assumes "extends self self'" and "parse_not self fa depth ts = Some v"
  shows "parse_not self' fa depth ts = Some v"
  using assms(2) unfolding parse_not_def
  by (auto split: if_split_asm elim: parsed_then_extends extendsD [OF assms(1)])

lemma parse_primary_extends:
  assumes "extends self self'" and "parse_primary self lib fa depth ts = Some v"
  shows "parse_primary self' lib fa depth ts = Some v"
proof (cases "ts \<noteq> [] \<and> hd ts = TLeftParen")
  case True
  then obtain rest where "ts = TLeftParen # rest" by (cases ts) auto
  then show ?thesis
    using assms(2) by (auto simp: parse_primary_def elim: parsed_then_extends extendsD [OF assms(1)])
next
  case False
  then have "parse_primary self' lib fa depth ts = parse_primary self lib fa depth ts"
    by (cases ts) (simp_all add: parse_primary_def split: token_kind.split)
  then show ?thesis using assms(2) by simp
qed

lemma parse_call_extends: "extends (parse_call lib fa n) (parse_call lib fa (n + k))"
proof (induction n)
  case 0
  show ?case by (simp add: extends_def)
next
  case (Suc n)
  show ?case
    unfolding extends_def using loops_extend [OF Suc] parse_not_extends [OF Suc] parse_primary_extends [OF Suc, of lib fa]
    by (simp add: Let_def split: parser_call.split)
qed

text \<open>
  (C5) The parser ends on every input: the fuel it is given is enough for every list of tokens,
  any more gives the same result, and so the parser answers every text with an expression or an error.
\<close>

theorem parser_terminates:
  "parse_call lib fa (parser_fuel ts) ParseOr depth ts \<noteq> None
     \<and> parse_call lib fa (parser_fuel ts + k) ParseOr depth ts = parse_call lib fa (parser_fuel ts) ParseOr depth ts
     \<and> parse_expression_with_aliases f lib input fa \<noteq> None"
proof -
  have some: "\<exists>v. parse_call lib fa (parser_fuel us) ParseOr d us = Some v" for us d
    by (rule ends_Some [OF parse_call_ends]) (simp add: parser_fuel_def)
  obtain v where v: "parse_call lib fa (parser_fuel ts) ParseOr depth ts = Some v" using some by blast
  have more: "parse_call lib fa (parser_fuel ts + k) ParseOr depth ts = Some v"
    by (rule extendsD [OF parse_call_extends v])
  have "parse_expression_with_aliases f lib input fa \<noteq> None"
  proof (cases "tokenize input")
    case (Inr tokens)
    obtain w where "parse_call lib fa (parser_fuel tokens) ParseOr 0 tokens = Some w" using some by blast
    then show ?thesis using Inr by (cases w) (auto simp: parse_expression_with_aliases_def)
  qed (simp add: parse_expression_with_aliases_def)
  then show ?thesis using v more by simp
qed

subsection \<open>A concrete environment\<close>

text \<open>Parameters for concrete evaluations: without floating-point numbers, and with patterns that match themselves.\<close>

definition plain_env :: "(unit, string) expr_env" where
  "plain_env = \<lparr>env_f64 = \<lparr>f64_of_int = \<lambda>_. (), f64_div = \<lambda>_ _. (), f64_ge = \<lambda>_ _. True, f64_fixed = \<lambda>_ _. ''0'',
     f64_parse = \<lambda>_. None, f64_show = \<lambda>_. ''0'', f64_is_finite = \<lambda>_. True, f64_is_whole = \<lambda>_. True, f64_to_i64 = \<lambda>_. 0\<rparr>,
     env_regex = \<lparr>regex_new = Inr, regex_is_match = (=)\<rparr>, env_rfc3339 = \<lambda>_. None\<rparr>"

text \<open>The parser evaluated call by call.\<close>

lemma parse_call_code [code]:
  "parse_call lib fa 0 call depth ts = None"
  "parse_call lib fa (Suc n) call depth ts =
     (case call of
        ParseOr \<Rightarrow> parse_or (parse_call lib fa n) depth ts
      | OrLoop e \<Rightarrow> or_loop (parse_call lib fa n) e depth ts
      | ParseAnd \<Rightarrow> parse_and (parse_call lib fa n) depth ts
      | AndLoop e \<Rightarrow> and_loop (parse_call lib fa n) e depth ts
      | ParseNot \<Rightarrow> parse_not (parse_call lib fa n) fa depth ts
      | ParsePrimary \<Rightarrow> parse_primary (parse_call lib fa n) lib fa depth ts)"
  by (simp_all add: Let_def)

subsection \<open>Evidence\<close>

text \<open>A verdict that may be unknown, but is never a wrong one.\<close>

definition hedges :: "expression_truth \<Rightarrow> expression_truth \<Rightarrow> bool" where
  "hedges a b \<longleftrightarrow> a = TruthUnknown \<or> a = b"

lemma hedges_connectives:
  "hedges a b \<Longrightarrow> hedges (truth_not a) (truth_not b)"
  "hedges a b \<Longrightarrow> hedges c d \<Longrightarrow> hedges (truth_and a c) (truth_and b d)"
  "hedges a b \<Longrightarrow> hedges c d \<Longrightarrow> hedges (truth_or a c) (truth_or b d)"
  by (cases a; cases b; cases c; cases d; simp add: hedges_def truth_and_def truth_or_def)+

lemma truth_of_connectives:
  "truth_of (\<not> a) = truth_not (truth_of a)" "truth_of (a \<and> b) = truth_and (truth_of a) (truth_of b)"
  "truth_of (a \<or> b) = truth_or (truth_of a) (truth_of b)"
  by (simp_all add: truth_of_def truth_and_def truth_or_def)

lemma truth_hedges_matches: "hedges (expression_truth env cx e) (truth_of (expression_matches env cx e))"
proof (induction e)
  case (EPredicate p)
  show ?case
    by (cases p) (auto simp: predicate_truth_def predicate_matches_def hedges_def split: option.split)
qed (simp_all add: truth_of_connectives hedges_connectives)

text \<open>More evidence: the same machine, rules and events, and at least the same documents.\<close>

definition knows_less :: "'f expression_context \<Rightarrow> 'f expression_context \<Rightarrow> bool" where
  "knows_less cx cx' \<longleftrightarrow> cx_vps cx = cx_vps cx' \<and> cx_vps_rules cx = cx_vps_rules cx'
     \<and> cx_event_predicates cx = cx_event_predicates cx'
     \<and> (\<forall>root v. json_root cx root = Some v \<longrightarrow> json_root cx' root = Some v)"

lemma field_values_more:
  assumes "knows_less cx cx'" and "field_values f cx field = Some values"
  shows "field_values f cx' field = Some values"
  using assms
  by (auto simp: field_values_def knows_less_def Let_def Option.bind_eq_Some_conv split: option.splits)

lemma matches_depend:
  assumes "cx_vps_rules cx = cx_vps_rules cx'" and "field_values (env_f64 env) cx field = field_values (env_f64 env) cx' field"
  shows "comparison_matches env cx field op v = comparison_matches env cx' field op v"
    and "membership_matches env cx field negated vs = membership_matches env cx' field negated vs"
  unfolding comparison_matches_def membership_matches_def assms by (rule refl)+

lemma predicate_truth_more:
  assumes "knows_less cx cx'"
  shows "hedges (predicate_truth env cx p) (predicate_truth env cx' p)"
proof -
  have known: "field_values f cx' field = field_values f cx field" if "field_values f cx field \<noteq> None" for f field
    using that field_values_more [OF assms] by fastforce
  have same: "cx_vps cx' = cx_vps cx" "cx_vps_rules cx' = cx_vps_rules cx" "cx_event_predicates cx' = cx_event_predicates cx"
    using assms by (simp_all add: knows_less_def)
  have matches: "comparison_matches env cx' field op v = comparison_matches env cx field op v"
      "membership_matches env cx' field negated vs = membership_matches env cx field negated vs"
    if "field_values (env_f64 env) cx field \<noteq> None" for field op v negated vs
    using matches_depend [OF same(2) known [OF that]] by blast+
  show ?thesis
  proof (cases p)
    case (Comparison field op v)
    then show ?thesis
      using known [of "env_f64 env" field] matches(1) [of field op v] by (auto simp: predicate_truth_def hedges_def)
  next
    case (Membership field negated vs)
    then show ?thesis
      using known [of "env_f64 env" field] matches(2) [of field negated vs] by (auto simp: predicate_truth_def hedges_def)
  qed (simp_all add: predicate_truth_def hedges_def same bare_matches_def)
qed

text \<open>
  (C33) The three-valued verdict is never wrong: it is unknown or what the boolean evaluation says, and a
  verdict that is reached stays the same when documents are added to the evidence.
\<close>

theorem verdict_never_wrong:
  assumes "knows_less cx cx'"
  shows "hedges (expression_truth env cx e) (truth_of (expression_matches env cx e))
    \<and> hedges (expression_truth env cx e) (expression_truth env cx' e)"
proof -
  have "hedges (expression_truth env cx e) (expression_truth env cx' e)"
    by (induction e) (simp_all add: predicate_truth_more [OF assms] hedges_connectives)
  then show ?thesis using truth_hedges_matches by blast
qed

theorem verdict_never_wrong_witness:
  "\<exists>(cx :: unit expression_context) cx' e. knows_less cx cx' \<and> expression_truth plain_env cx e = TruthUnknown
     \<and> expression_truth plain_env cx' e = TruthTrue
     \<and> hedges (expression_truth plain_env cx e) (truth_of (expression_matches plain_env cx e))
     \<and> hedges (expression_truth plain_env cx e) (expression_truth plain_env cx' e)"
proof -
  let ?cx = "default_context :: unit expression_context"
  let ?cx' = "with_json_root ''job'' (JObject [(''name'', JString ''backup'')]) ?cx"
  let ?e = "EPredicate (Comparison ''job.name'' OpEq (ScalarLiteral ''backup''))"
  have less: "knows_less ?cx ?cx'"
    by (auto simp: knows_less_def with_json_root_def default_context_def json_root_def to_ascii_lowercase_def Let_def)
  have "expression_truth plain_env ?cx ?e = TruthUnknown" "expression_truth plain_env ?cx' ?e = TruthTrue"
    by code_simp+
  then show ?thesis using less verdict_never_wrong [OF less, of plain_env ?e] by blast
qed

subsection \<open>Schedules fire on lifecycle events\<close>

lemma anchored_match:
  assumes "every_or_branch_has_lifecycle_anchor e" and "expression_matches env cx e"
  shows "''alert.triggered'' \<in> cx_event_predicates cx \<and> fst (alert_event_expression_anchor_kinds e)
    \<or> ''alert.resolved'' \<in> cx_event_predicates cx \<and> snd (alert_event_expression_anchor_kinds e)"
  using assms
proof (induction e)
  case (EPredicate p)
  then show ?case by (cases p) (auto simp: predicate_matches_def)
qed auto

text \<open>
  (C7) A schedule expression that passed validation matches only in a context of a lifecycle event, triggered or resolved, and
  this kind is among the kinds that are reported for the expression.
\<close>

theorem schedule_fires_on_lifecycle_event:
  assumes "parse_and_validate_alert_event_expression f lib input = Some (Inr e)" and "expression_matches env cx e"
  shows "''alert.triggered'' \<in> cx_event_predicates cx \<and> fst (alert_event_expression_anchor_kinds e)
    \<or> ''alert.resolved'' \<in> cx_event_predicates cx \<and> snd (alert_event_expression_anchor_kinds e)"
proof -
  have "every_or_branch_has_lifecycle_anchor e"
    using assms(1) by (auto simp: parse_and_validate_alert_event_expression_def validate_alert_event_expression_def
        and_then_eq_Inr split: if_splits)
  then show ?thesis using assms(2) by (rule anchored_match)
qed

definition sample_schedule :: expression where
  "sample_schedule = EAnd (EPredicate (Event ''alert.triggered'')) (EPredicate (Event ''alert.severity:critical''))"

lemma sample_schedule_parsed:
  "parse_and_validate_alert_event_expression (env_f64 plain_env) (env_regex plain_env)
     ''alert.triggered && alert.severity:critical'' = Some (Inr sample_schedule)"
  by code_simp

theorem schedule_fires_on_lifecycle_event_witness:
  "\<exists>cx :: unit expression_context.
     parse_and_validate_alert_event_expression (env_f64 plain_env) (env_regex plain_env)
       ''alert.triggered && alert.severity:critical'' = Some (Inr sample_schedule)
     \<and> expression_matches plain_env cx sample_schedule
     \<and> (''alert.triggered'' \<in> cx_event_predicates cx \<and> fst (alert_event_expression_anchor_kinds sample_schedule)
        \<or> ''alert.resolved'' \<in> cx_event_predicates cx \<and> snd (alert_event_expression_anchor_kinds sample_schedule))"
proof (intro exI conjI)
  let ?cx = "default_context\<lparr>cx_event_predicates := {''alert.triggered'', ''alert.severity:critical''}\<rparr> :: unit expression_context"
  show matches: "expression_matches plain_env ?cx sample_schedule" by (simp add: predicate_matches_def sample_schedule_def)
  show "''alert.triggered'' \<in> cx_event_predicates ?cx \<and> fst (alert_event_expression_anchor_kinds sample_schedule)
      \<or> ''alert.resolved'' \<in> cx_event_predicates ?cx \<and> snd (alert_event_expression_anchor_kinds sample_schedule)"
    by (rule schedule_fires_on_lifecycle_event [OF sample_schedule_parsed matches])
qed (rule sample_schedule_parsed)

subsection \<open>Evaluation looks at what is referred to\<close>

definition predicate_lowercase :: "predicate \<Rightarrow> bool" where
  "predicate_lowercase p = (case p of
     Comparison field _ _ \<Rightarrow> to_ascii_lowercase field = field | Membership field _ _ \<Rightarrow> to_ascii_lowercase field = field | _ \<Rightarrow> True)"

fun every_predicate :: "(predicate \<Rightarrow> bool) \<Rightarrow> expression \<Rightarrow> bool" where
  "every_predicate P (EPredicate p) = P p"
| "every_predicate P (ENot e) = every_predicate P e"
| "every_predicate P (EAnd l r) = (every_predicate P l \<and> every_predicate P r)"
| "every_predicate P (EOr l r) = (every_predicate P l \<and> every_predicate P r)"

lemma parsed_then_Inr:
  assumes "parsed_then r k = Some (Inr x)"
  obtains e ts where "r = Some (Inr (e, ts))" and "k e ts = Some (Inr x)"
  using assms by (auto simp: parsed_then_def split: option.splits sum.splits)

lemma parse_not_Inr:
  assumes "parse_not self fa depth ts = Some (Inr (e, rest))"
  obtains inner where "self ParseNot (Suc depth) (tl ts) = Some (Inr (inner, rest))" and "e = ENot inner"
  | "self ParsePrimary (Suc depth) ts = Some (Inr (e, rest))"
  using assms by (auto simp: parse_not_def split: if_splits elim!: parsed_then_Inr)

lemma and_loop_Inr:
  assumes "and_loop self a depth ts = Some (Inr (e, rest))"
  obtains "e = a" | us b vs where "self ParseNot depth us = Some (Inr (b, vs))"
    and "self (AndLoop (EAnd a b)) depth vs = Some (Inr (e, rest))"
  using assms by (auto simp: and_loop_def split: if_splits elim!: parsed_then_Inr)

lemma or_loop_Inr:
  assumes "or_loop self a depth ts = Some (Inr (e, rest))"
  obtains "e = a" | us b vs where "self ParseAnd depth us = Some (Inr (b, vs))"
    and "self (OrLoop (EOr a b)) depth vs = Some (Inr (e, rest))"
  using assms by (auto simp: or_loop_def split: if_splits elim!: parsed_then_Inr)

text \<open>What holds for every predicate that is read holds for all predicates of the parsed expression.\<close>

lemma parse_primary_predicates:
  assumes "\<And>raw ts p rest. parse_predicate lib fa raw ts = Inr (p, rest) \<Longrightarrow> P p" and "\<And>raw. P (Bare raw)"
    and "\<And>us e rest. self ParseOr depth us = Some (Inr (e, rest)) \<Longrightarrow> every_predicate P e"
    and "parse_primary self lib fa depth ts = Some (Inr (e, rest))"
  shows "every_predicate P e"
proof -
  obtain t us where ts: "ts = t # us" using assms(4) by (cases ts) (simp_all add: parse_primary_def)
  show ?thesis
  proof (cases t)
    case (TWord raw)
    then show ?thesis using assms(1,4) ts by (auto simp: parse_primary_def and_then_eq_Inr)
  next
    case (TString raw)
    then show ?thesis using assms(2,4) ts by (auto simp: parse_primary_def split: if_splits)
  next
    case TLeftParen
    then show ?thesis using assms(3,4) ts by (auto simp: parse_primary_def split: if_splits elim!: parsed_then_Inr)
  qed (use assms(4) ts in \<open>simp_all add: parse_primary_def\<close>)
qed

lemma parse_call_predicates:
  assumes "\<And>raw ts p rest. parse_predicate lib fa raw ts = Inr (p, rest) \<Longrightarrow> P p" and "\<And>raw. P (Bare raw)"
  shows "parse_call lib fa n call depth ts = Some (Inr (e, rest))
    \<Longrightarrow> (\<And>a. call = OrLoop a \<or> call = AndLoop a \<Longrightarrow> every_predicate P a) \<Longrightarrow> every_predicate P e"
proof (induction n arbitrary: call depth ts e rest)
  case (Suc n)
  show ?case
  proof (cases call)
    case ParsePrimary
    then have "parse_primary (parse_call lib fa n) lib fa depth ts = Some (Inr (e, rest))" using Suc.prems(1) by simp
    then show ?thesis
      by (rule parse_primary_predicates [where P = P, rotated 3]) (use assms in \<open>auto intro: Suc.IH\<close>)
  next
    case ParseNot
    then have "parse_not (parse_call lib fa n) fa depth ts = Some (Inr (e, rest))" using Suc.prems(1) by simp
    then show ?thesis by (rule parse_not_Inr) (auto intro: Suc.IH)
  next
    case ParseAnd
    then have "parse_and (parse_call lib fa n) depth ts = Some (Inr (e, rest))" using Suc.prems(1) by simp
    then obtain a us where "parse_call lib fa n ParseNot depth ts = Some (Inr (a, us))"
      and loop: "parse_call lib fa n (AndLoop a) depth us = Some (Inr (e, rest))"
      unfolding parse_and_def by (rule parsed_then_Inr)
    then have "every_predicate P a" using Suc.IH [of ParseNot] by blast
    then show ?thesis using Suc.IH [OF loop] by simp
  next
    case ParseOr
    then have "parse_or (parse_call lib fa n) depth ts = Some (Inr (e, rest))" using Suc.prems(1) by simp
    then obtain a us where "parse_call lib fa n ParseAnd depth ts = Some (Inr (a, us))"
      and loop: "parse_call lib fa n (OrLoop a) depth us = Some (Inr (e, rest))"
      unfolding parse_or_def by (rule parsed_then_Inr)
    then have "every_predicate P a" using Suc.IH [of ParseAnd] by blast
    then show ?thesis using Suc.IH [OF loop] by simp
  next
    case (AndLoop a)
    then have "and_loop (parse_call lib fa n) a depth ts = Some (Inr (e, rest))" "every_predicate P a"
      using Suc.prems by simp_all
    then show ?thesis
    proof (elim and_loop_Inr)
      fix us b vs
      assume loop: "parse_call lib fa n (AndLoop (EAnd a b)) depth vs = Some (Inr (e, rest))"
        and "parse_call lib fa n ParseNot depth us = Some (Inr (b, vs))" and "every_predicate P a"
      then have "every_predicate P (EAnd a b)" using Suc.IH [of ParseNot depth us b vs] by simp
      then show ?thesis using Suc.IH [OF loop] by simp
    qed simp
  next
    case (OrLoop a)
    then have "or_loop (parse_call lib fa n) a depth ts = Some (Inr (e, rest))" "every_predicate P a"
      using Suc.prems by simp_all
    then show ?thesis
    proof (elim or_loop_Inr)
      fix us b vs
      assume loop: "parse_call lib fa n (OrLoop (EOr a b)) depth vs = Some (Inr (e, rest))"
        and "parse_call lib fa n ParseAnd depth us = Some (Inr (b, vs))" and "every_predicate P a"
      then have "every_predicate P (EOr a b)" using Suc.IH [of ParseAnd depth us b vs] by simp
      then show ?thesis using Suc.IH [OF loop] by simp
    qed simp
  qed
qed simp

lemma lowercase_idem [simp]: "to_ascii_lowercase (to_ascii_lowercase s) = to_ascii_lowercase s"
proof -
  have "ascii_lower (ascii_lower c) = ascii_lower c" for c
    by (auto simp: ascii_lower_def)
  then show ?thesis by (simp add: to_ascii_lowercase_def)
qed

lemma either_branch: "a \<in> S \<Longrightarrow> y = d \<or> y \<in> S \<Longrightarrow> (if c then a else y) = d \<or> (if c then a else y) \<in> S"
  by simp

lemma canonical_lowercase: "to_ascii_lowercase (canonical_field field) = canonical_field field"
proof -
  define fixed where "fixed = [''vps.id'', ''vps.display_name'', ''vps.status'', ''vps.tag'', ''vps.last_seen_at'', ''vps.region'']"
  have "list_all (\<lambda>s. to_ascii_lowercase s = s) fixed" unfolding fixed_def by code_simp
  then have lower: "s \<in> set fixed \<Longrightarrow> to_ascii_lowercase s = s" for s by (simp only: list_all_iff)
  have "canonical_field field = to_ascii_lowercase field \<or> canonical_field field \<in> set fixed"
    unfolding canonical_field_def Let_def
    by (intro either_branch disjI1 [OF refl]) (simp_all only: fixed_def list.set insert_iff simp_thms)
  then show ?thesis
  proof
    assume "canonical_field field = to_ascii_lowercase field"
    then show ?thesis by simp
  qed (rule lower)
qed

lemma fixed_lowercase: "predicate_lowercase (tag_membership tag)"
    "to_ascii_lowercase ''vps.id'' = ''vps.id''" "to_ascii_lowercase ''vps.display_name'' = ''vps.display_name''"
    "to_ascii_lowercase ''vps.status'' = ''vps.status''"
proof -
  have "to_ascii_lowercase ''vps.tag'' = ''vps.tag''" by code_simp
  then show "predicate_lowercase (tag_membership tag)" by (simp add: predicate_lowercase_def tag_membership_def)
qed (code_simp+)

lemma shorthand_lowercase: "predicate_lowercase (shorthand_predicate namespace v)"
proof -
  have field: "to_ascii_lowercase field = field \<Longrightarrow>
      predicate_lowercase (if field \<in> {''vps.tag'', ''vps.tags''} then tag_membership v else Comparison field OpEq (ScalarLiteral v))" for field
    by (simp add: fixed_lowercase(1)) (simp add: predicate_lowercase_def)
  show ?thesis
    unfolding shorthand_predicate_def Let_def using field [OF canonical_lowercase [of namespace]] field [OF fixed_lowercase(2)]
      field [OF fixed_lowercase(3)] field [OF fixed_lowercase(4)] by (simp add: fixed_lowercase(1))
qed

lemma parse_predicate_lowercase: "parse_predicate lib fa raw ts = Inr (p, rest) \<Longrightarrow> predicate_lowercase p"
proof -
  have "predicate_lowercase p" if "plain_predicate fa raw = Inr p"
    using that shorthand_lowercase
    by (auto simp: plain_predicate_def predicate_lowercase_def split: if_splits option.splits prod.splits)
  moreover have "to_ascii_lowercase (field_name fa raw) = field_name fa raw"
    by (simp add: field_name_def canonical_lowercase)
  moreover assume "parse_predicate lib fa raw ts = Inr (p, rest)"
  ultimately show ?thesis
    by (auto simp: parse_predicate_def and_then_eq_Inr predicate_lowercase_def split: option.splits if_splits)
qed

lemma parsed_lowercase:
  assumes "parse_expression_with_aliases f lib input fa = Some (Inr (Some e))"
  shows "every_predicate predicate_lowercase e"
proof -
  obtain tokens rest where "parse_call lib fa (parser_fuel tokens) ParseOr 0 tokens = Some (Inr (e, rest))"
    using assms by (auto simp: parse_expression_with_aliases_def and_then_eq_Inr split: sum.splits if_splits option.splits)
  then show ?thesis
    by (rule parse_call_predicates [where P = predicate_lowercase, rotated 2])
      (auto simp: predicate_lowercase_def dest: parse_predicate_lowercase)
qed

lemma canonical_root:
  assumes "to_ascii_lowercase field = field" and "split_once (CHR ''.'') (canonical_field field) = Some (root, path)"
  shows "root = ''vps'' \<or> split_once (CHR ''.'') field = Some (root, path)"
  using assms by (auto simp: canonical_field_def Let_def split: if_splits)

definition same_evidence :: "expression \<Rightarrow> 'f expression_context \<Rightarrow> 'f expression_context \<Rightarrow> bool" where
  "same_evidence e cx cx' \<longleftrightarrow> cx_vps cx = cx_vps cx' \<and> cx_vps_rules cx = cx_vps_rules cx'
     \<and> (\<forall>event\<in>expression_referenced_events e. event \<in> cx_event_predicates cx \<longleftrightarrow> event \<in> cx_event_predicates cx')
     \<and> (\<forall>root\<in>insert ''vps'' (expression_referenced_roots e). json_root cx root = json_root cx' root)"

lemma field_values_same:
  assumes "to_ascii_lowercase field = field" and "cx_vps cx = cx_vps cx'" and "cx_vps_rules cx = cx_vps_rules cx'"
    and "\<And>root path. split_once (CHR ''.'') field = Some (root, path) \<Longrightarrow> json_root cx root = json_root cx' root"
    and "json_root cx ''vps'' = json_root cx' ''vps''"
  shows "field_values f cx field = field_values f cx' field"
proof (cases "split_once (CHR ''.'') (canonical_field field)")
  case None
  show ?thesis unfolding field_values_def Let_def assms(2,3) None bind.simps by (rule refl)
next
  case (Some q)
  obtain root path where q: "q = (root, path)" by (cases q)
  then have root: "json_root cx root = json_root cx' root" using canonical_root [OF assms(1)] Some assms(4,5) by blast
  show ?thesis unfolding field_values_def Let_def assms(2,3) Some q bind.simps prod.case root by (rule refl)
qed

lemma predicate_same:
  assumes "same_evidence (EPredicate p) cx cx'" and "predicate_lowercase p"
  shows "predicate_matches env cx p = predicate_matches env cx' p \<and> predicate_truth env cx p = predicate_truth env cx' p"
proof -
  have fields: "field_values f cx field = field_values f cx' field"
    if "p = Comparison field op v \<or> p = Membership field negated vs" for f field op v negated vs
    using assms that
    by (intro field_values_same) (auto simp: same_evidence_def predicate_lowercase_def predicate_roots_def)
  have same: "cx_vps cx = cx_vps cx'" "cx_vps_rules cx = cx_vps_rules cx'" using assms(1) by (simp_all add: same_evidence_def)
  show ?thesis
  proof (cases p)
    case (Comparison field op v)
    then have "field_values f cx field = field_values f cx' field" for f using fields by blast
    note this matches_depend(1) [OF same(2) this, of env]
    then show ?thesis unfolding predicate_matches_def predicate_truth_def Comparison by simp
  next
    case (Membership field negated vs)
    then have "field_values f cx field = field_values f cx' field" for f using fields by blast
    note this matches_depend(2) [OF same(2) this, of env]
    then show ?thesis unfolding predicate_matches_def predicate_truth_def Membership by simp
  next
    case (Event name)
    then show ?thesis using assms(1) by (simp add: same_evidence_def predicate_matches_def predicate_truth_def)
  qed (simp_all add: predicate_matches_def predicate_truth_def bare_matches_def same)
qed

lemma expression_same:
  assumes "same_evidence e cx cx'" and "every_predicate predicate_lowercase e"
  shows "expression_matches env cx e = expression_matches env cx' e \<and> expression_truth env cx e = expression_truth env cx' e"
  using assms
proof (induction e)
  case (EPredicate p)
  then show ?case using predicate_same [OF EPredicate(1), of env] by simp
qed (auto simp: same_evidence_def)



end
