(* ===== verification/File_Transfer.thy ===== *)
theory File_Transfer
  imports Auth
begin

section \<open>File payloads\<close>

text \<open>
  \<open>common/src/protocol/file_transfer.rs\<close>: the checks of paths, modes, digests and sizes, and the coding of a file as one
  Base64 text or as a list of chunks that carry their offset, size and digest. The Base64 crate is the parameter
  \<open>base64_lib\<close>, hashing is the parameter \<open>crypto\<close> of the assertions. Lengths are natural
  numbers: a length in memory always fits the word it is compared with.
\<close>

record base64_lib =
  b64_encode :: "u8 list \<Rightarrow> string"
  b64_decode :: "string \<Rightarrow> u8 list option"

definition MAX_FILE_PATH_BYTES :: nat where "MAX_FILE_PATH_BYTES = 4096"
definition MAX_INLINE_FILE_PUSH_BYTES :: nat where "MAX_INLINE_FILE_PUSH_BYTES = 1024 * 1024"
definition FILE_TRANSFER_CHUNK_BYTES :: nat where "FILE_TRANSFER_CHUNK_BYTES = 64 * 1024"
definition MAX_CHUNKED_FILE_PUSH_BYTES :: nat where "MAX_CHUNKED_FILE_PUSH_BYTES = 8 * 1024 * 1024"
definition MAX_RESUMABLE_FILE_PUSH_BYTES :: nat where "MAX_RESUMABLE_FILE_PUSH_BYTES = 1024 * 1024 * 1024"
definition MAX_RESUMABLE_FILE_DOWNLOAD_BYTES :: nat where "MAX_RESUMABLE_FILE_DOWNLOAD_BYTES = 1024 * 1024 * 1024"
definition MAX_FILE_TRANSFER_RATE_LIMIT_KBPS :: nat where "MAX_FILE_TRANSFER_RATE_LIMIT_KBPS = 1000000"
definition MAX_FILE_TRANSFER_CHUNKS :: nat where
  "MAX_FILE_TRANSFER_CHUNKS = div_ceil MAX_CHUNKED_FILE_PUSH_BYTES FILE_TRANSFER_CHUNK_BYTES"
definition MAX_FILE_MODE :: nat where "MAX_FILE_MODE = 511"

record file_push_chunk =
  fc_offset :: u64
  fc_size_bytes :: u32
  fc_sha256_hex :: string
  fc_data_base64 :: string

datatype file_transfer_validation_error =
    PathRequired | InvalidPath | PathMustBeAbsolute | InvalidMode | TooLarge | InvalidBase64 | SizeMismatch | InvalidSha256
  | HashMismatch | InvalidChunks | InvalidChunkOffset | ChunkTooLarge | ChunkHashMismatch | InvalidSessionId
  | InvalidResumeTokenHash | InvalidChunkSize | InvalidRateLimit | InvalidOffset

subsection \<open>Checks\<close>

definition validate_absolute_file_path :: "string \<Rightarrow> file_transfer_validation_error + unit" where
  "validate_absolute_file_path path =
     (if path = [] then Inl PathRequired
      else if length path > MAX_FILE_PATH_BYTES \<or> CHR 0x00 \<in> set path then Inl InvalidPath
      else if \<not> starts_with path ''/'' then Inl PathMustBeAbsolute
      else if list_ex (\<lambda>segment. segment = ''.'' \<or> segment = ''..'') (split_on (CHR ''/'') path) then Inl InvalidPath
      else Inr ())"

definition validate_file_mode :: "u32 \<Rightarrow> file_transfer_validation_error + unit" where
  "validate_file_mode mode = (if unat mode > MAX_FILE_MODE then Inl InvalidMode else Inr ())"

definition normalize_sha256_hex :: "string \<Rightarrow> file_transfer_validation_error + string" where
  "normalize_sha256_hex v =
     (let normalized = to_ascii_lowercase (trim v) in
      if length normalized \<noteq> 64 \<or> \<not> list_all is_ascii_hexdigit normalized then Inl InvalidSha256 else Inr normalized)"

definition validate_file_transfer_chunk_size :: "u32 \<Rightarrow> file_transfer_validation_error + unit" where
  "validate_file_transfer_chunk_size v =
     (if v = 0 \<or> unat v > FILE_TRANSFER_CHUNK_BYTES then Inl InvalidChunkSize else Inr ())"

definition validate_file_transfer_rate_limit :: "u32 \<Rightarrow> file_transfer_validation_error + unit" where
  "validate_file_transfer_rate_limit v =
     (if unat v > MAX_FILE_TRANSFER_RATE_LIMIT_KBPS then Inl InvalidRateLimit else Inr ())"

definition validate_resume_token_hash :: "string \<Rightarrow> file_transfer_validation_error + unit" where
  "validate_resume_token_hash v =
     map_err (\<lambda>_. InvalidResumeTokenHash) (and_then (normalize_sha256_hex v) (\<lambda>_. Inr ()))"

subsection \<open>Payloads\<close>

definition encode_inline_file_payload :: "base64_lib \<Rightarrow> u8 list \<Rightarrow> file_transfer_validation_error + string" where
  "encode_inline_file_payload lib data =
     (if length data > MAX_INLINE_FILE_PUSH_BYTES then Inl TooLarge else Inr (b64_encode lib data))"

definition decode_inline_file_payload ::
    "base64_lib \<Rightarrow> crypto \<Rightarrow> string \<Rightarrow> u64 \<Rightarrow> string \<Rightarrow> file_transfer_validation_error + u8 list" where
  "decode_inline_file_payload lib cr data_base64 size_bytes sha256_hex =
     (if unat size_bytes > MAX_INLINE_FILE_PUSH_BYTES then Inl TooLarge
      else if length data_base64 > div_ceil MAX_INLINE_FILE_PUSH_BYTES 3 * 4 then Inl TooLarge
      else and_then (normalize_sha256_hex sha256_hex) (\<lambda>expected_hash.
        and_then (ok_or InvalidBase64 (b64_decode lib data_base64)) (\<lambda>data.
        if length data \<noteq> unat size_bytes then Inl SizeMismatch
        else if payload_hash cr data \<noteq> expected_hash then Inl HashMismatch
        else Inr data)))"

fun scan_chunks :: "base64_lib \<Rightarrow> crypto \<Rightarrow> u64 \<Rightarrow> u8 list list \<Rightarrow> file_push_chunk list" where
  "scan_chunks lib cr offset [] = []"
| "scan_chunks lib cr offset (chunk # cs) =
     \<lparr>fc_offset = offset, fc_size_bytes = of_nat (length chunk), fc_sha256_hex = payload_hash cr chunk,
      fc_data_base64 = b64_encode lib chunk\<rparr> # scan_chunks lib cr (offset + of_nat (length chunk)) cs"

definition encode_chunked_file_payload ::
    "base64_lib \<Rightarrow> crypto \<Rightarrow> u8 list \<Rightarrow> file_transfer_validation_error + file_push_chunk list" where
  "encode_chunked_file_payload lib cr data =
     (if length data > MAX_CHUNKED_FILE_PUSH_BYTES then Inl TooLarge
      else Inr (scan_chunks lib cr 0 (chunks FILE_TRANSFER_CHUNK_BYTES data)))"

text \<open>One round of the loop of \<open>decode_chunked_file_payload\<close>, on the data so far.\<close>

definition append_chunk ::
    "base64_lib \<Rightarrow> crypto \<Rightarrow> u8 list \<Rightarrow> file_push_chunk \<Rightarrow> file_transfer_validation_error + u8 list" where
  "append_chunk lib cr data chunk =
     (if unat (fc_offset chunk) \<noteq> length data then Inl InvalidChunkOffset
      else if unat (fc_size_bytes chunk) > FILE_TRANSFER_CHUNK_BYTES then Inl ChunkTooLarge
      else if length (fc_data_base64 chunk) > div_ceil FILE_TRANSFER_CHUNK_BYTES 3 * 4 then Inl ChunkTooLarge
      else and_then (normalize_sha256_hex (fc_sha256_hex chunk)) (\<lambda>chunk_hash.
        and_then (ok_or InvalidBase64 (b64_decode lib (fc_data_base64 chunk))) (\<lambda>decoded.
        if length decoded \<noteq> unat (fc_size_bytes chunk) then Inl SizeMismatch
        else if payload_hash cr decoded \<noteq> chunk_hash then Inl ChunkHashMismatch
        else if usize_add (length data) (length decoded) > MAX_CHUNKED_FILE_PUSH_BYTES then Inl TooLarge
        else Inr (data @ decoded))))"

definition decode_chunked_file_payload ::
    "base64_lib \<Rightarrow> crypto \<Rightarrow> file_push_chunk list \<Rightarrow> u64 \<Rightarrow> string \<Rightarrow> file_transfer_validation_error + u8 list" where
  "decode_chunked_file_payload lib cr cs size_bytes sha256_hex =
     (if unat size_bytes > MAX_CHUNKED_FILE_PUSH_BYTES then Inl TooLarge
      else if length cs > MAX_FILE_TRANSFER_CHUNKS then Inl InvalidChunks
      else if size_bytes > 0 \<and> cs = [] then Inl InvalidChunks
      else and_then (normalize_sha256_hex sha256_hex) (\<lambda>expected_hash.
        and_then (try_fold (append_chunk lib cr) [] cs) (\<lambda>data.
        if length data \<noteq> unat size_bytes then Inl SizeMismatch
        else if payload_hash cr data \<noteq> expected_hash then Inl HashMismatch
        else Inr data)))"

definition decode_file_transfer_chunk ::
    "base64_lib \<Rightarrow> crypto \<Rightarrow> file_push_chunk \<Rightarrow> u32 \<Rightarrow> file_transfer_validation_error + u8 list" where
  "decode_file_transfer_chunk lib cr chunk max_chunk_bytes =
     and_then (validate_file_transfer_chunk_size max_chunk_bytes) (\<lambda>_.
      if fc_size_bytes chunk = 0 \<or> fc_size_bytes chunk > max_chunk_bytes then Inl InvalidChunkSize
      else if length (fc_data_base64 chunk) > div_ceil (unat max_chunk_bytes) 3 * 4 then Inl ChunkTooLarge
      else and_then (normalize_sha256_hex (fc_sha256_hex chunk)) (\<lambda>chunk_hash.
        and_then (ok_or InvalidBase64 (b64_decode lib (fc_data_base64 chunk))) (\<lambda>decoded.
        if length decoded \<noteq> unat (fc_size_bytes chunk) then Inl SizeMismatch
        else if payload_hash cr decoded \<noteq> chunk_hash then Inl ChunkHashMismatch
        else Inr decoded)))"

subsection \<open>Sessions\<close>

definition validate_file_transfer_session_token :: "uuid \<Rightarrow> string \<Rightarrow> file_transfer_validation_error + unit" where
  "validate_file_transfer_session_token session_id resume_token_hash =
     (if session_id = 0 then Inl InvalidSessionId else validate_resume_token_hash resume_token_hash)"

definition validate_file_transfer_session ::
    "uuid \<Rightarrow> string \<Rightarrow> u32 \<Rightarrow> u64 \<Rightarrow> string \<Rightarrow> u32 \<Rightarrow> u32 \<Rightarrow> string \<Rightarrow> file_transfer_validation_error + unit" where
  "validate_file_transfer_session session_id path mode size_bytes sha256_hex chunk_size_bytes rate_limit_kbps resume_token_hash =
     (if session_id = 0 then Inl InvalidSessionId
      else and_then (validate_absolute_file_path path) (\<lambda>_.
        and_then (validate_file_mode mode) (\<lambda>_.
        if unat size_bytes > MAX_RESUMABLE_FILE_PUSH_BYTES then Inl TooLarge
        else and_then (normalize_sha256_hex sha256_hex) (\<lambda>_.
          and_then (validate_file_transfer_chunk_size chunk_size_bytes) (\<lambda>_.
          and_then (validate_file_transfer_rate_limit rate_limit_kbps) (\<lambda>_.
          validate_resume_token_hash resume_token_hash))))))"

definition validate_file_transfer_chunk_request ::
    "base64_lib \<Rightarrow> crypto \<Rightarrow> uuid \<Rightarrow> u64 \<Rightarrow> file_push_chunk \<Rightarrow> string \<Rightarrow> file_transfer_validation_error + u8 list" where
  "validate_file_transfer_chunk_request lib cr session_id offset chunk resume_token_hash =
     (if session_id = 0 then Inl InvalidSessionId
      else if offset \<noteq> fc_offset chunk then Inl InvalidOffset
      else and_then (validate_resume_token_hash resume_token_hash) (\<lambda>_.
        decode_file_transfer_chunk lib cr chunk (of_nat FILE_TRANSFER_CHUNK_BYTES)))"

definition validate_file_transfer_download_session ::
    "uuid \<Rightarrow> string \<Rightarrow> u32 \<Rightarrow> u32 \<Rightarrow> string \<Rightarrow> file_transfer_validation_error + unit" where
  "validate_file_transfer_download_session session_id path chunk_size_bytes rate_limit_kbps resume_token_hash =
     (if session_id = 0 then Inl InvalidSessionId
      else and_then (validate_absolute_file_path path) (\<lambda>_.
        and_then (validate_file_transfer_chunk_size chunk_size_bytes) (\<lambda>_.
        and_then (validate_file_transfer_rate_limit rate_limit_kbps) (\<lambda>_.
        validate_resume_token_hash resume_token_hash))))"

definition validate_file_transfer_download_chunk_request ::
    "uuid \<Rightarrow> u64 \<Rightarrow> u32 \<Rightarrow> string \<Rightarrow> file_transfer_validation_error + unit" where
  "validate_file_transfer_download_chunk_request session_id offset max_bytes resume_token_hash =
     (if session_id = 0 then Inl InvalidSessionId
      else if unat offset > MAX_RESUMABLE_FILE_DOWNLOAD_BYTES then Inl InvalidOffset
      else and_then (validate_file_transfer_chunk_size max_bytes) (\<lambda>_. validate_resume_token_hash resume_token_hash))"

subsection \<open>What the crates promise\<close>

text \<open>Base64 with padding makes four characters of three bytes; a digest is 32 bytes, printed in lower-case hexadecimal.\<close>

definition base64_documented :: "base64_lib \<Rightarrow> bool" where
  "base64_documented lib \<longleftrightarrow>
     (\<forall>bs. b64_decode lib (b64_encode lib bs) = Some bs \<and> length (b64_encode lib bs) = div_ceil (length bs) 3 * 4)"

definition lower_hex :: "char \<Rightarrow> bool" where
  "lower_hex c \<longleftrightarrow> is_ascii_hexdigit c \<and> ascii_lower c = c"

definition digest_documented :: "crypto \<Rightarrow> bool" where
  "digest_documented cr \<longleftrightarrow>
     (\<forall>bs. length (sha256 cr bs) = 32 \<and> length (hex_encode cr bs) = 2 * length bs \<and> list_all lower_hex (hex_encode cr bs))"

lemma lower_hex_visible: "lower_hex c \<Longrightarrow> visible c"
  by (auto simp: lower_hex_def is_ascii_hexdigit_def is_ascii_digit_def visible_def)

lemma normalize_lower_hex: "list_all lower_hex s \<Longrightarrow> length s = 64 \<Longrightarrow> normalize_sha256_hex s = Inr s"
proof -
  assume hex: "list_all lower_hex s" and len: "length s = 64"
  then have "s \<noteq> []" by auto
  then have "trim s = s"
    using hex by (intro trim_visible) (auto simp: list_all_iff intro: lower_hex_visible)
  moreover have "to_ascii_lowercase s = s"
    using hex by (simp add: to_ascii_lowercase_def list_all_iff lower_hex_def map_idI)
  ultimately show ?thesis using hex len by (simp add: normalize_sha256_hex_def list_all_iff lower_hex_def)
qed

lemma payload_hash_hex: "digest_documented cr \<Longrightarrow> list_all lower_hex (payload_hash cr bs) \<and> length (payload_hash cr bs) = 64"
  by (simp add: digest_documented_def payload_hash_def)

lemma payload_hash_normal: "digest_documented cr \<Longrightarrow> normalize_sha256_hex (payload_hash cr bs) = Inr (payload_hash cr bs)"
  using payload_hash_hex normalize_lower_hex by blast

lemma payload_hash_lower: "digest_documented cr \<Longrightarrow> to_ascii_lowercase (payload_hash cr bs) = payload_hash cr bs"
  using payload_hash_hex [of cr bs] by (simp add: to_ascii_lowercase_def list_all_iff lower_hex_def map_idI)

text \<open>A coding of three bytes in four characters, and digests in hexadecimal, with the documented behaviour.\<close>

abbreviation byte_char :: "u8 \<Rightarrow> char" where "byte_char b \<equiv> char_of (unat b)"

fun plain_encode :: "u8 list \<Rightarrow> string" where
  "plain_encode [] = []"
| "plain_encode [a] = [CHR 0x01, byte_char a, CHR 0x00, CHR 0x00]"
| "plain_encode [a, b] = [CHR 0x02, byte_char a, byte_char b, CHR 0x00]"
| "plain_encode (a # b # c # rest) = CHR 0x03 # byte_char a # byte_char b # byte_char c # plain_encode rest"

fun plain_decode :: "string \<Rightarrow> u8 list option" where
  "plain_decode [] = Some []"
| "plain_decode (t # a # b # c # rest) =
     (if t = CHR 0x01 then Some [of_char a] else if t = CHR 0x02 then Some [of_char a, of_char b]
      else map_option (\<lambda>bs. of_char a # of_char b # of_char c # bs) (plain_decode rest))"
| "plain_decode _ = None"

definition plain_base64 :: base64_lib where
  "plain_base64 = \<lparr>b64_encode = plain_encode, b64_decode = plain_decode\<rparr>"

lemma plain_base64_documented: "base64_documented plain_base64"
proof -
  have "plain_decode (plain_encode bs) = Some bs" for bs
    by (induction bs rule: plain_encode.induct) (simp_all add: of_char_of_unat)
  moreover have "length (plain_encode bs) = div_ceil (length bs) 3 * 4" for bs
  proof (induction bs rule: plain_encode.induct)
    case (4 a b c rest)
    have "div_ceil (Suc (Suc (Suc (length rest)))) 3 = Suc (div_ceil (length rest) 3)" unfolding div_ceil_def by presburger
    with 4 show ?case by simp
  qed (simp_all add: div_ceil_def)
  ultimately show ?thesis by (simp add: base64_documented_def plain_base64_def)
qed

definition hex_text :: "u8 list \<Rightarrow> string" where
  "hex_text bs = concat (map (\<lambda>b. [''0123456789abcdef'' ! (unat b div 16), ''0123456789abcdef'' ! (unat b mod 16)]) bs)"

definition plain_digest :: crypto where
  "plain_digest = sample_crypto\<lparr>sha256 := \<lambda>bs. replicate 32 (of_nat (length bs)), hex_encode := hex_text\<rparr>"

lemma plain_digest_documented: "digest_documented plain_digest"
proof -
  have "list_all lower_hex ''0123456789abcdef''" by code_simp
  then have "i < 16 \<Longrightarrow> lower_hex (''0123456789abcdef'' ! i)" for i by (simp only: list_all_length) simp
  moreover have "unat b div 16 < 16" "unat b mod 16 < 16" for b :: u8
    using unat_le_max [of b] by simp_all
  ultimately have "list_all lower_hex (hex_text bs)" for bs
    by (induction bs) (auto simp: hex_text_def)
  moreover have "length (hex_text bs) = 2 * length bs" for bs
    by (induction bs) (simp_all add: hex_text_def)
  ultimately show ?thesis by (simp add: digest_documented_def plain_digest_def)
qed

subsection \<open>Chunks\<close>

lemma append_encoded_chunk:
  assumes "base64_documented lib" and "digest_documented cr"
    and "length piece \<le> FILE_TRANSFER_CHUNK_BYTES" and "length (data @ piece) \<le> MAX_CHUNKED_FILE_PUSH_BYTES"
  shows "append_chunk lib cr data \<lparr>fc_offset = of_nat (length data), fc_size_bytes = of_nat (length piece),
      fc_sha256_hex = payload_hash cr piece, fc_data_base64 = b64_encode lib piece\<rparr> = Inr (data @ piece)"
proof -
  have "div_ceil (length piece) 3 \<le> div_ceil FILE_TRANSFER_CHUNK_BYTES 3" by (rule div_ceil_mono [OF assms(3)])
  moreover have "length data < 2 ^ 64" "length piece < 2 ^ 32"
    using assms(3,4) by (simp_all add: FILE_TRANSFER_CHUNK_BYTES_def MAX_CHUNKED_FILE_PUSH_BYTES_def)
  ultimately show ?thesis
    using assms(1,3,4) payload_hash_normal [OF assms(2)]
    by (auto simp: append_chunk_def base64_documented_def unat_of_nat usize_add_def)
qed

lemma decode_encoded_chunk:
  assumes "base64_documented lib" and "digest_documented cr"
    and "piece \<noteq> []" and "length piece \<le> unat n" and "validate_file_transfer_chunk_size n = Inr ()"
  shows "decode_file_transfer_chunk lib cr \<lparr>fc_offset = offset, fc_size_bytes = of_nat (length piece),
      fc_sha256_hex = payload_hash cr piece, fc_data_base64 = b64_encode lib piece\<rparr> n = Inr piece"
proof -
  have "div_ceil (length piece) 3 \<le> div_ceil (unat n) 3" by (rule div_ceil_mono [OF assms(4)])
  moreover have len: "unat (of_nat (length piece) :: u32) = length piece"
    using assms(4) unat_le_max [of n] by (simp add: unat_of_nat)
  then have "(of_nat (length piece) :: u32) \<noteq> 0" "\<not> (of_nat (length piece) :: u32) > n"
    using assms(3,4) by (auto simp: unat_eq_zero [symmetric] word_less_nat_alt simp del: unat_eq_zero)
  ultimately show ?thesis
    using assms(1,5) len payload_hash_normal [OF assms(2)]
    by (simp add: decode_file_transfer_chunk_def base64_documented_def)
qed

lemma decode_scanned_chunks:
  assumes "base64_documented lib" and "digest_documented cr"
    and "\<And>c. c \<in> set cs \<Longrightarrow> length c \<le> FILE_TRANSFER_CHUNK_BYTES"
    and "length (data @ concat cs) \<le> MAX_CHUNKED_FILE_PUSH_BYTES"
  shows "try_fold (append_chunk lib cr) data (scan_chunks lib cr (of_nat (length data)) cs) = Inr (data @ concat cs)"
  using assms(3,4)
proof (induction cs arbitrary: data)
  case (Cons c cs)
  have "append_chunk lib cr data \<lparr>fc_offset = of_nat (length data), fc_size_bytes = of_nat (length c),
      fc_sha256_hex = payload_hash cr c, fc_data_base64 = b64_encode lib c\<rparr> = Inr (data @ c)"
    using Cons.prems by (intro append_encoded_chunk [OF assms(1,2)]) auto
  then show ?case using Cons.IH [of "data @ c"] Cons.prems by simp
qed simp

lemma length_scan_chunks: "length (scan_chunks lib cr offset cs) = length cs"
  by (induction cs arbitrary: offset) simp_all

text \<open>
  (C22) A file within the limit that is coded as a list of chunks is decoded to itself, with the declared size and digest.
\<close>

theorem chunked_payload_roundtrip:
  assumes "base64_documented lib" and "digest_documented cr" and "length data \<le> MAX_CHUNKED_FILE_PUSH_BYTES"
  shows "and_then (encode_chunked_file_payload lib cr data)
    (\<lambda>cs. decode_chunked_file_payload lib cr cs (of_nat (length data)) (payload_hash cr data)) = Inr data"
proof -
  let ?pieces = "chunks FILE_TRANSFER_CHUNK_BYTES data"
  have pos: "0 < FILE_TRANSFER_CHUNK_BYTES" by (simp add: FILE_TRANSFER_CHUNK_BYTES_def)
  have whole: "concat ?pieces = data" by (rule concat_chunks [OF pos])
  have size: "unat (of_nat (length data) :: u64) = length data"
    using assms(3) by (simp add: unat_of_nat MAX_CHUNKED_FILE_PUSH_BYTES_def)
  have "length ?pieces \<le> MAX_FILE_TRANSFER_CHUNKS"
    unfolding length_chunks [OF pos] MAX_FILE_TRANSFER_CHUNKS_def by (rule div_ceil_mono [OF assms(3)])
  moreover have "try_fold (append_chunk lib cr) [] (scan_chunks lib cr 0 ?pieces) = Inr data"
    using decode_scanned_chunks [OF assms(1,2), of ?pieces "[]"] chunks_bound [of _ FILE_TRANSFER_CHUNK_BYTES data] whole assms(3)
    by simp
  moreover have "data = []" if "scan_chunks lib cr 0 ?pieces = []"
    using that whole length_scan_chunks [of lib cr 0 ?pieces] by simp
  ultimately show ?thesis
    using assms(3) size payload_hash_normal [OF assms(2)]
    by (auto simp: encode_chunked_file_payload_def decode_chunked_file_payload_def length_scan_chunks)
qed

theorem chunked_payload_roundtrip_witness:
  "base64_documented plain_base64 \<and> digest_documented plain_digest \<and> length [1, 2, 3 :: u8] \<le> MAX_CHUNKED_FILE_PUSH_BYTES
    \<and> and_then (encode_chunked_file_payload plain_base64 plain_digest [1, 2, 3])
        (\<lambda>cs. decode_chunked_file_payload plain_base64 plain_digest cs (of_nat (length [1, 2, 3 :: u8])) (payload_hash plain_digest [1, 2, 3]))
      = Inr [1, 2, 3]"
proof -
  have "length [1, 2, 3 :: u8] \<le> MAX_CHUNKED_FILE_PUSH_BYTES" by (simp add: MAX_CHUNKED_FILE_PUSH_BYTES_def)
  then show ?thesis
    using chunked_payload_roundtrip [OF plain_base64_documented plain_digest_documented] plain_base64_documented plain_digest_documented
    by blast
qed

text \<open>Every piece of a decoded file carries its own offset, size and digest.\<close>

definition piece_of_chunk :: "base64_lib \<Rightarrow> crypto \<Rightarrow> file_push_chunk \<Rightarrow> u8 list \<Rightarrow> bool" where
  "piece_of_chunk lib cr chunk piece \<longleftrightarrow>
     b64_decode lib (fc_data_base64 chunk) = Some piece \<and> length piece = unat (fc_size_bytes chunk)
     \<and> length piece \<le> FILE_TRANSFER_CHUNK_BYTES \<and> normalize_sha256_hex (fc_sha256_hex chunk) = Inr (payload_hash cr piece)"

lemma append_chunk_Inr:
  assumes "append_chunk lib cr data chunk = Inr data'"
  obtains piece where "piece_of_chunk lib cr chunk piece" and "data' = data @ piece" and "unat (fc_offset chunk) = length data"
  using assms by (auto simp: append_chunk_def piece_of_chunk_def and_then_eq_Inr ok_or_eq_Inr split: if_splits)

lemma appended_chunks:
  assumes "try_fold (append_chunk lib cr) data cs = Inr data'"
  obtains pieces where "list_all2 (piece_of_chunk lib cr) cs pieces" and "data' = data @ concat pieces"
  using assms
proof (induction cs arbitrary: data thesis)
  case (Cons c cs)
  from Cons.prems(2) obtain mid where "append_chunk lib cr data c = Inr mid" and rest: "try_fold (append_chunk lib cr) mid cs = Inr data'"
    by (auto simp: and_then_eq_Inr)
  then obtain piece where p: "piece_of_chunk lib cr c piece" "mid = data @ piece" by (auto elim: append_chunk_Inr)
  obtain pieces where "list_all2 (piece_of_chunk lib cr) cs pieces" "data' = mid @ concat pieces"
    using Cons.IH [OF _ rest] by blast
  with p show ?case using Cons.prems(1) [of "piece # pieces"] by simp
qed auto

text \<open>
  What is decoded has the declared size and digest, within the limit, and is the concatenation of pieces that agree
  with the size and digest of their chunks.
\<close>

theorem decoded_payload_declared:
  assumes "decode_chunked_file_payload lib cr cs size_bytes sha = Inr data"
  shows "length data = unat size_bytes \<and> length data \<le> MAX_CHUNKED_FILE_PUSH_BYTES
    \<and> normalize_sha256_hex sha = Inr (payload_hash cr data)
    \<and> (\<exists>pieces. list_all2 (piece_of_chunk lib cr) cs pieces \<and> data = concat pieces)"
proof -
  from assms have run: "try_fold (append_chunk lib cr) [] cs = Inr data"
    and "length data = unat size_bytes" "length data \<le> MAX_CHUNKED_FILE_PUSH_BYTES" "normalize_sha256_hex sha = Inr (payload_hash cr data)"
    by (auto simp: decode_chunked_file_payload_def and_then_eq_Inr split: if_splits)
  moreover obtain pieces where "list_all2 (piece_of_chunk lib cr) cs pieces" "data = concat pieces"
    using appended_chunks [OF run] by auto
  ultimately show ?thesis by blast
qed

end
