(* ===== verification/File_Push.thy ===== *)
theory File_Push
  imports File_Transfer Vps_Rules
begin

section \<open>Resumable uploads on a machine\<close>

text \<open>
  The resumable half of \<open>agent/src/files/file_push.rs\<close>: a session is started, filled chunk by chunk, and committed or
  aborted. The chunks go to a temporary file beside the destination; the commit checks size and digest, sets the mode and
  renames the file into place. The state is the file system and the metadata of the sessions. Whatever can
  fail outside the program is a step of \<open>transfer_step\<close>, and \<open>te_fails\<close> says which of them fail in a run: the file
  system calls, the cancellation of the command, and a write that stops after \<open>te_written\<close> bytes. A cancellation
  during the hashing of a file counts as a failure of that step.
  A path is the list of its components, which is how the code opens it. Metadata is stored as the record it
  is the JSON form of, and the printed form of a session id is the parameter \<open>show_uuid\<close>.
\<close>

datatype file_existing_policy = Skip | Replace

type_synonym node_identity = "u64 \<times> u64"

record regular_file =
  rf_identity :: node_identity
  rf_content :: "u8 list"
  rf_mode :: u32

datatype file_node = RegularFile regular_file | Directory | OtherNode

record session_metadata =
  sm_session_id :: uuid
  sm_path :: string
  sm_temp_path :: "string list"
  sm_mode :: u32
  sm_size_bytes :: u64
  sm_sha256_hex :: string
  sm_chunk_size_bytes :: u32
  sm_rate_limit_kbps :: u32
  sm_existing_policy :: file_existing_policy
  sm_resume_token_hash :: string
  sm_temp_identity :: node_identity

record transfer_state =
  ts_files :: "string list \<rightharpoonup> file_node"
  ts_sessions :: "uuid \<rightharpoonup> session_metadata"

subsection \<open>What can fail\<close>

datatype transfer_step =
    CancelCheck nat | MetadataDir nat | ReadMetadata | WriteMetadata | RemoveMetadata
  | StatTemp | StatDestination | CreateTemp | SyncNewTemp | OpenForOffset | OpenForWrite | WriteChunk | VerifyChunk | HashTemp
  | ChmodTemp | SyncMode | CommitTemp | RemoveTemp

record transfer_env =
  te_fails :: "transfer_step \<Rightarrow> bool"
  te_written :: nat
  te_new_identity :: node_identity

datatype transfer_error =
    Validation file_transfer_validation_error
  | Message string
  | Canceled string
  | Io transfer_step

definition attempt :: "transfer_env \<Rightarrow> transfer_step \<Rightarrow> transfer_error + unit" where
  "attempt env s = (if te_fails env s then Inl (Io s) else Inr ())"

definition check_cancel :: "transfer_env \<Rightarrow> nat \<Rightarrow> string \<Rightarrow> transfer_error + unit" where
  "check_cancel env k operation = (if te_fails env (CancelCheck k) then Inl (Canceled operation) else Inr ())"

text \<open>An operation that changes the state, after a check that does not.\<close>

definition checked :: "'s \<Rightarrow> 'e + 'a \<Rightarrow> ('a \<Rightarrow> ('e + 'b) \<times> 's) \<Rightarrow> ('e + 'b) \<times> 's" where
  "checked st r k = (case r of Inl e \<Rightarrow> (Inl e, st) | Inr x \<Rightarrow> k x)"

subsection \<open>Paths and metadata\<close>

definition path_components :: "string \<Rightarrow> string list" where
  "path_components path = filter (\<lambda>s. s \<noteq> []) (split_on (CHR ''/'') path)"

definition temp_path :: "(uuid \<Rightarrow> string) \<Rightarrow> string list \<Rightarrow> uuid \<Rightarrow> string list" where
  "temp_path show_uuid destination session_id =
     butlast destination @ [''.vpsman-transfer-'' @ last destination @ ''-'' @ show_uuid session_id @ ''.part'']"

definition transfer_session_paths ::
    "transfer_env \<Rightarrow> nat \<Rightarrow> (uuid \<Rightarrow> string) \<Rightarrow> string \<Rightarrow> uuid \<Rightarrow> transfer_error + string list \<times> string list" where
  "transfer_session_paths env k show_uuid path session_id =
     and_then (map_err Validation (validate_absolute_file_path path)) (\<lambda>_.
     if path = ''/'' then Inl (Message ''refusing to write filesystem root'')
     else let destination = path_components path in
       if destination = [] then Inl (Message ''file transfer destination has no parent directory'')
       else and_then (attempt env (MetadataDir k)) (\<lambda>_. Inr (destination, temp_path show_uuid destination session_id)))"

definition read_transfer_metadata :: "transfer_env \<Rightarrow> transfer_state \<Rightarrow> uuid \<Rightarrow> transfer_error + session_metadata" where
  "read_transfer_metadata env st session_id =
     and_then (attempt env ReadMetadata) (\<lambda>_. ok_or (Io ReadMetadata) (ts_sessions st session_id))"

definition read_metadata_by_session :: "transfer_env \<Rightarrow> transfer_state \<Rightarrow> uuid \<Rightarrow> transfer_error + session_metadata" where
  "read_metadata_by_session env st session_id =
     (if session_id = 0 then Inl (Message ''file transfer session id is invalid'')
      else and_then (attempt env (MetadataDir 0)) (\<lambda>_. read_transfer_metadata env st session_id))"

definition ensure_metadata_matches ::
    "session_metadata \<Rightarrow> string \<Rightarrow> u32 \<Rightarrow> u64 \<Rightarrow> string \<Rightarrow> u32 \<Rightarrow> u32 \<Rightarrow> file_existing_policy \<Rightarrow> string \<Rightarrow> transfer_error + unit" where
  "ensure_metadata_matches m path mode size_bytes sha256_hex chunk_size_bytes rate_limit_kbps existing_policy resume_token_hash =
     ensure (sm_path m = path \<and> sm_mode m = mode \<and> sm_size_bytes m = size_bytes \<and> sm_sha256_hex m = to_ascii_lowercase sha256_hex
         \<and> sm_chunk_size_bytes m = chunk_size_bytes \<and> sm_rate_limit_kbps m = rate_limit_kbps
         \<and> sm_existing_policy m = existing_policy \<and> sm_resume_token_hash m = to_ascii_lowercase resume_token_hash)
       (Message ''file transfer session metadata does not match start request'')"

definition ensure_resume_token :: "session_metadata \<Rightarrow> string \<Rightarrow> transfer_error + unit" where
  "ensure_resume_token m resume_token_hash =
     ensure (sm_resume_token_hash m = to_ascii_lowercase resume_token_hash) (Message ''file transfer resume token hash mismatch'')"

subsection \<open>The temporary file\<close>

text \<open>
  Every access opens the file anew and compares its identity with the one of the session. Anything but a regular
  file in its place is an error of the step.
\<close>

definition open_temp :: "transfer_env \<Rightarrow> transfer_step \<Rightarrow> transfer_state \<Rightarrow> string list \<Rightarrow> node_identity \<Rightarrow> transfer_error + regular_file" where
  "open_temp env s st temp expected_identity =
     and_then (attempt env s) (\<lambda>_.
     case ts_files st temp of
       Some (RegularFile f) \<Rightarrow>
         if rf_identity f = expected_identity then Inr f else Inl (Message ''file transfer temporary file changed'')
     | _ \<Rightarrow> Inl (Io s))"

definition current_transfer_offset ::
    "transfer_env \<Rightarrow> transfer_state \<Rightarrow> string list \<Rightarrow> u64 \<Rightarrow> node_identity \<Rightarrow> transfer_error + nat" where
  "current_transfer_offset env st temp declared_size expected_identity =
     and_then (open_temp env OpenForOffset st temp expected_identity) (\<lambda>f.
     if length (rf_content f) > unat declared_size
     then Inl (Message ''file transfer temporary file is larger than declared size'') else Inr (length (rf_content f)))"

definition write_at :: "nat \<Rightarrow> 'a list \<Rightarrow> 'a list \<Rightarrow> 'a list" where
  "write_at offset data content = take offset content @ data @ drop (offset + length data) content"

definition put_file :: "string list \<Rightarrow> regular_file \<Rightarrow> transfer_state \<Rightarrow> transfer_state" where
  "put_file path f st = st\<lparr>ts_files := (ts_files st)(path \<mapsto> RegularFile f)\<rparr>"

definition write_transfer_chunk ::
    "transfer_env \<Rightarrow> transfer_state \<Rightarrow> string list \<Rightarrow> node_identity \<Rightarrow> nat \<Rightarrow> u8 list \<Rightarrow> (transfer_error + unit) \<times> transfer_state" where
  "write_transfer_chunk env st temp expected_identity offset data =
     checked st (open_temp env OpenForWrite st temp expected_identity) (\<lambda>f.
       if te_fails env WriteChunk
       then (Inl (Io WriteChunk), put_file temp (f\<lparr>rf_content := write_at offset (take (te_written env) data) (rf_content f)\<rparr>) st)
       else (Inr (), put_file temp (f\<lparr>rf_content := write_at offset data (rf_content f)\<rparr>) st))"

definition verify_existing_chunk ::
    "transfer_env \<Rightarrow> transfer_state \<Rightarrow> string list \<Rightarrow> node_identity \<Rightarrow> nat \<Rightarrow> u8 list \<Rightarrow> transfer_error + unit" where
  "verify_existing_chunk env st temp expected_identity offset data =
     and_then (open_temp env VerifyChunk st temp expected_identity) (\<lambda>f.
     let existing = take (length data) (drop offset (rf_content f)) in
     if length existing < length data then Inl (Io VerifyChunk)
     else ensure (existing = data) (Message ''duplicate file transfer chunk does not match existing bytes''))"

definition hash_file :: "crypto \<Rightarrow> transfer_env \<Rightarrow> transfer_state \<Rightarrow> string list \<Rightarrow> node_identity \<Rightarrow> transfer_error + string" where
  "hash_file cr env st temp expected_identity =
     and_then (open_temp env HashTemp st temp expected_identity) (\<lambda>f. Inr (payload_hash cr (rf_content f)))"

definition chmod_transfer_temp ::
    "transfer_env \<Rightarrow> transfer_state \<Rightarrow> string list \<Rightarrow> node_identity \<Rightarrow> u32 \<Rightarrow> (transfer_error + unit) \<times> transfer_state" where
  "chmod_transfer_temp env st temp expected_identity mode =
     checked st (open_temp env ChmodTemp st temp expected_identity) (\<lambda>f.
       (attempt env SyncMode, put_file temp (f\<lparr>rf_mode := mode\<rparr>) st))"

text \<open>
  The rename replaces a file only when the session says so; a directory is never replaced.
\<close>

definition commit_transfer_temp ::
    "transfer_env \<Rightarrow> transfer_state \<Rightarrow> string list \<Rightarrow> string list \<Rightarrow> session_metadata \<Rightarrow> (transfer_error + unit) \<times> transfer_state" where
  "commit_transfer_temp env st destination temp m =
     checked st (open_temp env CommitTemp st temp (sm_temp_identity m)) (\<lambda>f.
       if ts_files st destination = Some Directory \<or> ts_files st destination \<noteq> None \<and> sm_existing_policy m \<noteq> Replace
       then (Inl (Io CommitTemp), st)
       else (Inr (), st\<lparr>ts_files := (ts_files st)(temp := None, destination \<mapsto> RegularFile f)\<rparr>))"

definition create_transfer_temp_file ::
    "transfer_env \<Rightarrow> transfer_state \<Rightarrow> string list \<Rightarrow> (transfer_error + node_identity) \<times> transfer_state" where
  "create_transfer_temp_file env st temp =
     (if te_fails env CreateTemp \<or> ts_files st temp \<noteq> None then (Inl (Io CreateTemp), st)
      else let st = put_file temp \<lparr>rf_identity = te_new_identity env, rf_content = [], rf_mode = 384\<rparr> st in
        (and_then (attempt env SyncNewTemp) (\<lambda>_. Inr (te_new_identity env)), st))"

definition write_transfer_metadata ::
    "transfer_env \<Rightarrow> transfer_state \<Rightarrow> uuid \<Rightarrow> session_metadata \<Rightarrow> (transfer_error + unit) \<times> transfer_state" where
  "write_transfer_metadata env st session_id m =
     (if te_fails env WriteMetadata \<or> ts_sessions st session_id \<noteq> None then (Inl (Io WriteMetadata), st)
      else (Inr (), st\<lparr>ts_sessions := (ts_sessions st)(session_id \<mapsto> m)\<rparr>))"

definition remove_metadata :: "transfer_env \<Rightarrow> uuid \<Rightarrow> transfer_state \<Rightarrow> transfer_state" where
  "remove_metadata env session_id st =
     (if te_fails env RemoveMetadata then st else st\<lparr>ts_sessions := (ts_sessions st)(session_id := None)\<rparr>)"

subsection \<open>The commands\<close>

record transfer_status =
  xs_type :: string
  xs_session_id :: uuid
  xs_path :: string
  xs_next_offset :: nat
  xs_size_bytes :: "u64 option"
  xs_extra :: "unit json"

definition file_existing_policy_label :: "file_existing_policy \<Rightarrow> string" where
  "file_existing_policy_label policy = (case policy of Skip \<Rightarrow> ''skip'' | Replace \<Rightarrow> ''replace'')"

definition transfer_status :: "string \<Rightarrow> uuid \<Rightarrow> string \<Rightarrow> nat \<Rightarrow> u64 \<Rightarrow> (string \<times> unit json) list \<Rightarrow> transfer_status" where
  "transfer_status status_type session_id path next_offset size_bytes extra =
     \<lparr>xs_type = status_type, xs_session_id = session_id, xs_path = path, xs_next_offset = next_offset,
      xs_size_bytes = Some size_bytes, xs_extra = JObject extra\<rparr>"

definition execute_file_transfer_start ::
    "transfer_env \<Rightarrow> (uuid \<Rightarrow> string) \<Rightarrow> uuid \<Rightarrow> string \<Rightarrow> u32 \<Rightarrow> u64 \<Rightarrow> string \<Rightarrow> u32 \<Rightarrow> u32 \<Rightarrow> file_existing_policy \<Rightarrow> string
      \<Rightarrow> transfer_state \<Rightarrow> (transfer_error + transfer_status) \<times> transfer_state" where
  "execute_file_transfer_start env show_uuid session_id path mode size_bytes sha256_hex chunk_size_bytes rate_limit_kbps
      existing_policy resume_token_hash st =
     (let operation = ''file_transfer_start'';
          sizes = \<lambda>chunk_size rate_limit policy. [(''chunk_size_bytes'', JInt (uint chunk_size)),
            (''rate_limit_kbps'', JInt (uint rate_limit)), (''existing_policy'', JString (file_existing_policy_label policy))];
          status = transfer_status operation session_id path in
      checked st (check_cancel env 0 operation) (\<lambda>_.
      checked st (map_err Validation (validate_file_transfer_session session_id path mode size_bytes sha256_hex chunk_size_bytes
        rate_limit_kbps resume_token_hash)) (\<lambda>_.
      checked st (transfer_session_paths env 0 show_uuid path session_id) (\<lambda>(destination, temp).
      case read_transfer_metadata env st session_id of
        Inr m \<Rightarrow>
          checked st (ensure_metadata_matches m path mode size_bytes sha256_hex chunk_size_bytes rate_limit_kbps existing_policy
            resume_token_hash) (\<lambda>_.
          checked st (current_transfer_offset env st temp size_bytes (sm_temp_identity m)) (\<lambda>next_offset.
          (Inr (status next_offset size_bytes ((''resumed'', JBool True)
             # sizes (sm_chunk_size_bytes m) (sm_rate_limit_kbps m) (sm_existing_policy m))), st)))
      | Inl _ \<Rightarrow>
          checked st (attempt env StatTemp) (\<lambda>_.
          if ts_files st temp \<noteq> None
          then (Inl (Message ''file transfer temporary file exists without session metadata''), st)
          else let existing = (if te_fails env StatDestination then None else ts_files st destination) in
            if existing = Some Directory then (Inl (Message ''file transfer destination is a directory''), st)
            else checked st (check_cancel env 1 operation) (\<lambda>_.
              if existing \<noteq> None \<and> existing_policy = Skip
              then (Inr (status (unat size_bytes) size_bytes [(''resumed'', JBool False), (''skipped'', JBool True),
                 (''reason'', JString ''destination_exists''), (''existing_policy'', JString (file_existing_policy_label existing_policy))]), st)
              else (case create_transfer_temp_file env st temp of
                  (Inl e, st) \<Rightarrow> (Inl e, st)
                | (Inr temp_identity, st) \<Rightarrow>
                    let m = \<lparr>sm_session_id = session_id, sm_path = path, sm_temp_path = temp, sm_mode = mode,
                      sm_size_bytes = size_bytes, sm_sha256_hex = to_ascii_lowercase sha256_hex,
                      sm_chunk_size_bytes = chunk_size_bytes, sm_rate_limit_kbps = rate_limit_kbps,
                      sm_existing_policy = existing_policy, sm_resume_token_hash = to_ascii_lowercase resume_token_hash,
                      sm_temp_identity = temp_identity\<rparr> in
                    (case write_transfer_metadata env st session_id m of
                       (Inl e, st) \<Rightarrow> (Inl e, st)
                     | (Inr _, st) \<Rightarrow> (Inr (status 0 size_bytes ((''resumed'', JBool False)
                         # sizes chunk_size_bytes rate_limit_kbps existing_policy)), st)))))))))"

text \<open>Where the upload stands after a chunk: it is appended, or was received before, or does not fit.\<close>

definition store_transfer_chunk ::
    "transfer_env \<Rightarrow> transfer_state \<Rightarrow> string list \<Rightarrow> node_identity \<Rightarrow> nat \<Rightarrow> u8 list \<Rightarrow> nat \<Rightarrow> (transfer_error + nat) \<times> transfer_state" where
  "store_transfer_chunk env st temp temp_identity offset decoded current_offset =
     (let operation = ''file_transfer_chunk'' in
      if offset = current_offset then
        checked st (check_cancel env 1 operation) (\<lambda>_.
        case write_transfer_chunk env st temp temp_identity offset decoded of
          (Inl e, st) \<Rightarrow> (Inl e, st)
        | (Inr _, st) \<Rightarrow> (Inr (offset + length decoded), st))
      else if offset < current_offset \<and> offset + length decoded \<le> current_offset then
        checked st (check_cancel env 1 operation) (\<lambda>_.
        checked st (verify_existing_chunk env st temp temp_identity offset decoded) (\<lambda>_. (Inr current_offset, st)))
      else (Inl (Message ''file transfer chunk offset is not resumable from current state''), st))"

definition execute_file_transfer_chunk ::
    "base64_lib \<Rightarrow> crypto \<Rightarrow> (uuid \<Rightarrow> string) \<Rightarrow> transfer_env \<Rightarrow> uuid \<Rightarrow> u64 \<Rightarrow> file_push_chunk \<Rightarrow> string
      \<Rightarrow> transfer_state \<Rightarrow> (transfer_error + transfer_status) \<times> transfer_state" where
  "execute_file_transfer_chunk lib cr show_uuid env session_id offset chunk resume_token_hash st =
     checked st (check_cancel env 0 ''file_transfer_chunk'') (\<lambda>_.
     checked st (map_err Validation (validate_file_transfer_session_token session_id resume_token_hash)) (\<lambda>_.
     if offset \<noteq> fc_offset chunk then (Inl (Message ''file transfer chunk offset does not match command offset''), st)
     else checked st (read_metadata_by_session env st session_id) (\<lambda>m.
       checked st (ensure_resume_token m resume_token_hash) (\<lambda>_.
       checked st (transfer_session_paths env 1 show_uuid (sm_path m) session_id) (\<lambda>(destination, temp).
       checked st (map_err Validation (decode_file_transfer_chunk lib cr chunk (sm_chunk_size_bytes m))) (\<lambda>decoded.
       if saturating_add offset (of_nat (length decoded)) > sm_size_bytes m
       then (Inl (Message ''file transfer chunk exceeds declared size''), st)
       else checked st (current_transfer_offset env st temp (sm_size_bytes m) (sm_temp_identity m)) (\<lambda>current_offset.
         case store_transfer_chunk env st temp (sm_temp_identity m) (unat offset) decoded current_offset of
           (Inl e, st) \<Rightarrow> (Inl e, st)
         | (Inr next_offset, st) \<Rightarrow>
             (Inr (transfer_status ''file_transfer_chunk_ack'' session_id (sm_path m) next_offset (sm_size_bytes m)
                [(''ack_offset'', JInt (uint offset)), (''ack_size_bytes'', JInt (int (length decoded))),
                 (''duplicate'', JBool (unat offset < current_offset))]), st))))))))"

definition execute_file_transfer_commit ::
    "crypto \<Rightarrow> (uuid \<Rightarrow> string) \<Rightarrow> transfer_env \<Rightarrow> uuid \<Rightarrow> string
      \<Rightarrow> transfer_state \<Rightarrow> (transfer_error + transfer_status) \<times> transfer_state" where
  "execute_file_transfer_commit cr show_uuid env session_id resume_token_hash st =
     (let operation = ''file_transfer_commit'' in
      checked st (check_cancel env 0 operation) (\<lambda>_.
      checked st (map_err Validation (validate_file_transfer_session_token session_id resume_token_hash)) (\<lambda>_.
      checked st (read_metadata_by_session env st session_id) (\<lambda>m.
      checked st (ensure_resume_token m resume_token_hash) (\<lambda>_.
      checked st (transfer_session_paths env 1 show_uuid (sm_path m) session_id) (\<lambda>(destination, temp).
      checked st (current_transfer_offset env st temp (sm_size_bytes m) (sm_temp_identity m)) (\<lambda>current_offset.
      if current_offset \<noteq> unat (sm_size_bytes m)
      then (Inl (Message ''file transfer commit before all bytes are received''), st)
      else checked st (hash_file cr env st temp (sm_temp_identity m)) (\<lambda>actual_hash.
        if actual_hash \<noteq> sm_sha256_hex m then (Inl (Message ''file transfer final hash mismatch''), st)
        else checked st (check_cancel env 1 operation) (\<lambda>_.
          case chmod_transfer_temp env st temp (sm_temp_identity m) (sm_mode m) of
            (Inl e, st) \<Rightarrow> (Inl e, st)
          | (Inr _, st) \<Rightarrow>
              checked st (check_cancel env 2 operation) (\<lambda>_.
              case commit_transfer_temp env st destination temp m of
                (Inl e, st) \<Rightarrow> (Inl e, st)
              | (Inr _, st) \<Rightarrow>
                  (Inr (transfer_status operation session_id (sm_path m) (unat (sm_size_bytes m)) (sm_size_bytes m)
                     [(''sha256_hex'', JString actual_hash), (''mode'', JInt (uint (sm_mode m))), (''atomic'', JBool True),
                      (''existing_policy'', JString (file_existing_policy_label (sm_existing_policy m)))]),
                   remove_metadata env session_id st)))))))))))"

definition execute_file_transfer_abort ::
    "(uuid \<Rightarrow> string) \<Rightarrow> transfer_env \<Rightarrow> uuid \<Rightarrow> string
      \<Rightarrow> transfer_state \<Rightarrow> (transfer_error + transfer_status) \<times> transfer_state" where
  "execute_file_transfer_abort show_uuid env session_id resume_token_hash st =
     (let operation = ''file_transfer_abort'' in
      checked st (check_cancel env 0 operation) (\<lambda>_.
      checked st (map_err Validation (validate_file_transfer_session_token session_id resume_token_hash)) (\<lambda>_.
      checked st (read_metadata_by_session env st session_id) (\<lambda>m.
      checked st (ensure_resume_token m resume_token_hash) (\<lambda>_.
      checked st (transfer_session_paths env 1 show_uuid (sm_path m) session_id) (\<lambda>(destination, temp).
      let st = (if te_fails env RemoveTemp \<or> ts_files st temp = Some Directory then st
                else st\<lparr>ts_files := (ts_files st)(temp := None)\<rparr>) in
      (Inr (transfer_status operation session_id (sm_path m) 0 (sm_size_bytes m) [(''aborted'', JBool True)]),
       remove_metadata env session_id st)))))))"

end
