(* ===== verification/File_Push_Safety.thy ===== *)
theory File_Push_Safety
  imports File_Push "HOL-Library.Sublist"
begin

section \<open>Properties of resumable uploads\<close>

text \<open>
  A commit puts a file of the declared size, digest and mode in place and touches nothing else. Whatever fails on the way, the
  temporary file is a prefix of the file that an honest client sends, and the upload can be resumed
  from where it stands and completed.
\<close>

subsection \<open>Running a command\<close>

lemma checked_simps [simp]: "checked st (Inl e) k = (Inl e, st)" "checked st (Inr x) k = k x"
  by (simp_all add: checked_def)

lemma checked_Inr: "checked st r k = (Inr y, st') \<longleftrightarrow> (\<exists>x. r = Inr x \<and> k x = (Inr y, st'))"
  by (auto simp: checked_def split: sum.splits)

lemma checked_state: "(\<And>x. r = Inr x \<Longrightarrow> P (snd (k x))) \<Longrightarrow> P st \<Longrightarrow> P (snd (checked st r k))"
  by (cases r) simp_all

lemma attempt_Inr: "attempt env s = Inr u \<longleftrightarrow> \<not> te_fails env s"
  by (simp add: attempt_def)

lemma check_cancel_Inr: "check_cancel env k operation = Inr u \<longleftrightarrow> \<not> te_fails env (CancelCheck k)"
  by (simp add: check_cancel_def)

lemma map_err_Inr: "map_err g r = Inr x \<longleftrightarrow> r = Inr x"
  by (cases r) simp_all

definition temp_of :: "(uuid \<Rightarrow> string) \<Rightarrow> uuid \<Rightarrow> string \<Rightarrow> string list" where
  "temp_of show_uuid session_id path = temp_path show_uuid (path_components path) session_id"

definition usable_path :: "string \<Rightarrow> bool" where
  "usable_path path \<longleftrightarrow> validate_absolute_file_path path = Inr () \<and> path \<noteq> ''/'' \<and> path_components path \<noteq> []"

lemma session_paths_Inr:
  "transfer_session_paths env k show_uuid path session_id = Inr (destination, temp) \<longleftrightarrow>
     usable_path path \<and> \<not> te_fails env (MetadataDir k) \<and> destination = path_components path \<and> temp = temp_of show_uuid session_id path"
  by (auto simp: transfer_session_paths_def usable_path_def temp_of_def and_then_eq_Inr map_err_Inr attempt_Inr Let_def)

lemma temp_not_destination: "path_components path \<noteq> [] \<Longrightarrow> temp_of show_uuid session_id path \<noteq> path_components path"
proof
  assume "path_components path \<noteq> []" and "temp_of show_uuid session_id path = path_components path"
  then have "last (path_components path) = ''.vpsman-transfer-'' @ last (path_components path) @ ''-'' @ show_uuid session_id @ ''.part''"
    unfolding temp_of_def temp_path_def by (metis last_snoc)
  then have "length (last (path_components path))
      = length (''.vpsman-transfer-'' @ last (path_components path) @ ''-'' @ show_uuid session_id @ ''.part'')"
    by (rule arg_cong)
  then show False by simp
qed

lemma read_metadata_Inr:
  "read_metadata_by_session env st session_id = Inr m \<longleftrightarrow>
     session_id \<noteq> 0 \<and> \<not> te_fails env (MetadataDir 0) \<and> \<not> te_fails env ReadMetadata \<and> ts_sessions st session_id = Some m"
  by (auto simp: read_metadata_by_session_def read_transfer_metadata_def and_then_eq_Inr attempt_Inr ok_or_eq_Inr)

lemma resume_token_Inr: "ensure_resume_token m token = Inr u \<longleftrightarrow> sm_resume_token_hash m = to_ascii_lowercase token"
  by (simp add: ensure_resume_token_def ensure_def)

lemma open_temp_Inr:
  "open_temp env s st temp i = Inr f \<longleftrightarrow> \<not> te_fails env s \<and> ts_files st temp = Some (RegularFile f) \<and> rf_identity f = i"
  by (auto simp: open_temp_def and_then_eq_Inr attempt_Inr split: option.splits file_node.splits)

lemma offset_Inr:
  "current_transfer_offset env st temp declared i = Inr n \<longleftrightarrow>
     (\<exists>f. open_temp env OpenForOffset st temp i = Inr f \<and> n = length (rf_content f) \<and> n \<le> unat declared)"
  by (cases "open_temp env OpenForOffset st temp i") (auto simp: current_transfer_offset_def)

lemmas command_Inr = checked_Inr attempt_Inr check_cancel_Inr map_err_Inr session_paths_Inr read_metadata_Inr resume_token_Inr
  open_temp_Inr offset_Inr

subsection \<open>Commit\<close>

lemma commit_cases:
  assumes "execute_file_transfer_commit cr show_uuid env session_id token st = (Inr status, st')"
  obtains m f where "ts_sessions st session_id = Some m" and "sm_resume_token_hash m = to_ascii_lowercase token"
    and "usable_path (sm_path m)"
    and "ts_files st (temp_of show_uuid session_id (sm_path m)) = Some (RegularFile f)"
    and "rf_identity f = sm_temp_identity m"
    and "length (rf_content f) = unat (sm_size_bytes m)" and "payload_hash cr (rf_content f) = sm_sha256_hex m"
    and "ts_files st (path_components (sm_path m)) = None
      \<or> sm_existing_policy m = Replace \<and> ts_files st (path_components (sm_path m)) \<noteq> Some Directory"
    and "ts_files st' = (ts_files st)(temp_of show_uuid session_id (sm_path m) := None,
      path_components (sm_path m) \<mapsto> RegularFile (f\<lparr>rf_mode := sm_mode m\<rparr>))"
proof -
  from assms obtain m where m: "ts_sessions st session_id = Some m" "sm_resume_token_hash m = to_ascii_lowercase token"
      "usable_path (sm_path m)"
    by (auto simp: execute_file_transfer_commit_def Let_def command_Inr)
  let ?temp = "temp_of show_uuid session_id (sm_path m)" and ?dest = "path_components (sm_path m)"
  from m(3) have ne: "?temp \<noteq> ?dest" using temp_not_destination usable_path_def by blast
  from assms m obtain f where f: "ts_files st ?temp = Some (RegularFile f)" "rf_identity f = sm_temp_identity m"
      "length (rf_content f) = unat (sm_size_bytes m)"
    by (auto simp: execute_file_transfer_commit_def Let_def command_Inr split: if_splits)
  with assms m ne that show thesis
    by (auto simp: execute_file_transfer_commit_def Let_def command_Inr hash_file_def and_then_eq_Inr chmod_transfer_temp_def
        commit_transfer_temp_def remove_metadata_def put_file_def checked_def fun_upd_twist
        split: if_splits sum.splits prod.splits)
qed

text \<open>
  (C9) A commit that succeeds leaves a file of the declared size, digest and mode at the destination, removes the temporary
  file, changes no other file, and never replaces a file without permission or a directory.
\<close>

theorem committed_file_as_declared:
  assumes "execute_file_transfer_commit cr show_uuid env session_id token st = (Inr status, st')"
  shows "\<exists>m f. ts_sessions st session_id = Some m \<and> sm_resume_token_hash m = to_ascii_lowercase token
    \<and> ts_files st' (path_components (sm_path m)) = Some (RegularFile f)
    \<and> length (rf_content f) = unat (sm_size_bytes m) \<and> payload_hash cr (rf_content f) = sm_sha256_hex m \<and> rf_mode f = sm_mode m
    \<and> ts_files st' (temp_of show_uuid session_id (sm_path m)) = None
    \<and> (\<forall>path. path \<noteq> path_components (sm_path m) \<and> path \<noteq> temp_of show_uuid session_id (sm_path m)
          \<longrightarrow> ts_files st' path = ts_files st path)
    \<and> (ts_files st (path_components (sm_path m)) = None
       \<or> sm_existing_policy m = Replace \<and> ts_files st (path_components (sm_path m)) \<noteq> Some Directory)"
proof -
  from assms obtain m f where "ts_sessions st session_id = Some m" "sm_resume_token_hash m = to_ascii_lowercase token"
    "length (rf_content f) = unat (sm_size_bytes m)" "payload_hash cr (rf_content f) = sm_sha256_hex m"
    "ts_files st (path_components (sm_path m)) = None
      \<or> sm_existing_policy m = Replace \<and> ts_files st (path_components (sm_path m)) \<noteq> Some Directory"
    "ts_files st' = (ts_files st)(temp_of show_uuid session_id (sm_path m) := None,
      path_components (sm_path m) \<mapsto> RegularFile (f\<lparr>rf_mode := sm_mode m\<rparr>))"
    and path: "usable_path (sm_path m)"
    by (rule commit_cases)
  moreover have "temp_of show_uuid session_id (sm_path m) \<noteq> path_components (sm_path m)"
    using path temp_not_destination usable_path_def by blast
  ultimately show ?thesis by (intro exI [of _ m] exI [of _ "f\<lparr>rf_mode := sm_mode m\<rparr>"]) simp
qed

subsection \<open>Chunks\<close>

text \<open>What a chunk command can do to the state: nothing, or append bytes of the chunk to the temporary file.\<close>

lemma decode_chunk_Inr: "decode_file_transfer_chunk lib cr chunk n = Inr d \<Longrightarrow> b64_decode lib (fc_data_base64 chunk) = Some d"
  by (auto simp: decode_file_transfer_chunk_def and_then_eq_Inr ok_or_eq_Inr split: if_splits)

lemma write_at_end: "write_at (length content) data content = content @ data"
  by (simp add: write_at_def)

lemma write_chunk_state:
  assumes "ts_files st temp = Some (RegularFile f)" and "offset = length (rf_content f)"
  shows "snd (write_transfer_chunk env st temp i offset d) = st
    \<or> (\<exists>k. snd (write_transfer_chunk env st temp i offset d) = put_file temp (f\<lparr>rf_content := rf_content f @ take k d\<rparr>) st)"
proof (cases "open_temp env OpenForWrite st temp i")
  case (Inr g)
  then have "g = f" using assms(1) by (simp add: open_temp_Inr)
  then have "snd (write_transfer_chunk env st temp i offset d)
      = put_file temp (f\<lparr>rf_content := rf_content f @ take (if te_fails env WriteChunk then te_written env else length d) d\<rparr>) st"
    using Inr assms(2) by (simp add: write_transfer_chunk_def write_at_end)
  then show ?thesis by blast
qed (simp add: write_transfer_chunk_def)

lemma store_chunk_state:
  assumes "ts_files st temp = Some (RegularFile f)"
  shows "snd (store_transfer_chunk env st temp i offset d (length (rf_content f))) = st
    \<or> offset = length (rf_content f) \<and> (\<exists>k. snd (store_transfer_chunk env st temp i offset d (length (rf_content f)))
          = put_file temp (f\<lparr>rf_content := rf_content f @ take k d\<rparr>) st)"
proof (cases "offset = length (rf_content f)")
  case True
  then have "snd (store_transfer_chunk env st temp i offset d (length (rf_content f))) = st
      \<or> snd (store_transfer_chunk env st temp i offset d (length (rf_content f)))
          = snd (write_transfer_chunk env st temp i offset d)"
    by (auto simp: store_transfer_chunk_def checked_def split: sum.split prod.split)
  then show ?thesis using write_chunk_state [OF assms True, of env i d] True by auto
qed (auto simp: store_transfer_chunk_def checked_def Let_def split: sum.split)

lemma chunk_state:
  assumes "ts_sessions st session_id = Some m"
  shows "snd (execute_file_transfer_chunk lib cr show_uuid env session_id offset chunk token st) = st
    \<or> (\<exists>f d k. ts_files st (temp_of show_uuid session_id (sm_path m)) = Some (RegularFile f)
        \<and> b64_decode lib (fc_data_base64 chunk) = Some d \<and> unat (fc_offset chunk) = length (rf_content f)
        \<and> snd (execute_file_transfer_chunk lib cr show_uuid env session_id offset chunk token st)
            = put_file (temp_of show_uuid session_id (sm_path m)) (f\<lparr>rf_content := rf_content f @ take k d\<rparr>) st)"
proof -
  let ?temp = "temp_of show_uuid session_id (sm_path m)"
  let ?st' = "snd (execute_file_transfer_chunk lib cr show_uuid env session_id offset chunk token st)"
  have "?st' = st \<or> (\<exists>d n. decode_file_transfer_chunk lib cr chunk (sm_chunk_size_bytes m) = Inr d \<and> offset = fc_offset chunk
      \<and> current_transfer_offset env st ?temp (sm_size_bytes m) (sm_temp_identity m) = Inr n
      \<and> ?st' = snd (store_transfer_chunk env st ?temp (sm_temp_identity m) (unat offset) d n))"
    using assms unfolding execute_file_transfer_chunk_def
    by (auto simp: checked_def read_metadata_Inr session_paths_Inr map_err_Inr split: sum.split prod.split)
  then show ?thesis
  proof
    assume "\<exists>d n. decode_file_transfer_chunk lib cr chunk (sm_chunk_size_bytes m) = Inr d \<and> offset = fc_offset chunk
      \<and> current_transfer_offset env st ?temp (sm_size_bytes m) (sm_temp_identity m) = Inr n
      \<and> ?st' = snd (store_transfer_chunk env st ?temp (sm_temp_identity m) (unat offset) d n)"
    then obtain d f where "b64_decode lib (fc_data_base64 chunk) = Some d" "offset = fc_offset chunk"
      and f: "ts_files st ?temp = Some (RegularFile f)"
      and "?st' = snd (store_transfer_chunk env st ?temp (sm_temp_identity m) (unat offset) d (length (rf_content f)))"
      by (auto simp: offset_Inr open_temp_Inr dest: decode_chunk_Inr)
    then show ?thesis using store_chunk_state [OF f, of env "sm_temp_identity m" "unat offset" d] by auto
  qed simp
qed

subsection \<open>An upload in progress\<close>

text \<open>The session is known and its temporary file holds a prefix of the data, of the length \<open>n\<close>.\<close>

definition uploading :: "(uuid \<Rightarrow> string) \<Rightarrow> uuid \<Rightarrow> session_metadata \<Rightarrow> u8 list \<Rightarrow> nat \<Rightarrow> transfer_state \<Rightarrow> bool" where
  "uploading show_uuid session_id m data n st \<longleftrightarrow> ts_sessions st session_id = Some m \<and> n \<le> length data
     \<and> (\<exists>f. ts_files st (temp_of show_uuid session_id (sm_path m)) = Some (RegularFile f)
          \<and> rf_identity f = sm_temp_identity m \<and> rf_content f = take n data)"

text \<open>A chunk of an honest client: the bytes it carries are those of the data at its offset.\<close>

definition honest :: "base64_lib \<Rightarrow> u8 list \<Rightarrow> file_push_chunk \<Rightarrow> bool" where
  "honest lib data chunk \<longleftrightarrow>
     (\<forall>piece. b64_decode lib (fc_data_base64 chunk) = Some piece \<longrightarrow> prefix piece (drop (unat (fc_offset chunk)) data))"

fun send_chunks :: "base64_lib \<Rightarrow> crypto \<Rightarrow> (uuid \<Rightarrow> string) \<Rightarrow> uuid \<Rightarrow> string \<Rightarrow> (transfer_env \<times> file_push_chunk) list
    \<Rightarrow> transfer_state \<Rightarrow> transfer_state" where
  "send_chunks lib cr show_uuid session_id token [] st = st"
| "send_chunks lib cr show_uuid session_id token ((env, chunk) # requests) st =
     send_chunks lib cr show_uuid session_id token requests
       (snd (execute_file_transfer_chunk lib cr show_uuid env session_id (fc_offset chunk) chunk token st))"

lemma take_append_piece: "prefix piece (drop n data) \<Longrightarrow> n \<le> length data \<Longrightarrow> take n data @ take k piece = take (n + min k (length piece)) data"
  by (auto simp: prefix_def take_add min_def)

lemma chunk_keeps_upload:
  assumes "uploading show_uuid session_id m data n st" and "honest lib data chunk"
  shows "\<exists>n'\<ge>n. uploading show_uuid session_id m data n'
      (snd (execute_file_transfer_chunk lib cr show_uuid env session_id offset chunk token st))
    \<and> (\<forall>path. path \<noteq> temp_of show_uuid session_id (sm_path m)
        \<longrightarrow> ts_files (snd (execute_file_transfer_chunk lib cr show_uuid env session_id offset chunk token st)) path = ts_files st path)"
    (is "\<exists>n'\<ge>n. uploading _ _ _ _ n' ?st' \<and> _")
proof -
  let ?temp = "temp_of show_uuid session_id (sm_path m)"
  from assms(1) have m: "ts_sessions st session_id = Some m" by (simp add: uploading_def)
  show ?thesis
  proof (cases "?st' = st")
    case False
    then obtain f d k where f: "ts_files st ?temp = Some (RegularFile f)" and d: "b64_decode lib (fc_data_base64 chunk) = Some d"
      and offset: "unat (fc_offset chunk) = length (rf_content f)"
      and st': "?st' = put_file ?temp (f\<lparr>rf_content := rf_content f @ take k d\<rparr>) st"
      using chunk_state [OF m, of lib cr show_uuid env offset chunk token] by blast
    have n: "n \<le> length data" "rf_content f = take n data" "rf_identity f = sm_temp_identity m"
      using assms(1) f by (auto simp: uploading_def)
    then have "prefix d (drop n data)" using assms(2) d offset by (simp add: honest_def)
    then have "rf_content f @ take k d = take (n + min k (length d)) data" "n + min k (length d) \<le> length data"
      using n take_append_piece [of d n data k] by (auto simp: prefix_def dest!: arg_cong [of "drop n data" _ length])
    then show ?thesis
      using st' m n by (intro exI [of _ "n + min k (length d)"]) (simp add: uploading_def put_file_def)
  qed (use assms(1) in auto)
qed

lemma sending_keeps_upload:
  assumes "uploading show_uuid session_id m data n st" and "\<And>env chunk. (env, chunk) \<in> set requests \<Longrightarrow> honest lib data chunk"
  shows "\<exists>n'\<ge>n. uploading show_uuid session_id m data n' (send_chunks lib cr show_uuid session_id token requests st)
    \<and> (\<forall>path. path \<noteq> temp_of show_uuid session_id (sm_path m)
        \<longrightarrow> ts_files (send_chunks lib cr show_uuid session_id token requests st) path = ts_files st path)"
  using assms
proof (induction requests arbitrary: st n)
  case (Cons request requests)
  obtain env chunk where request: "request = (env, chunk)" by (cases request)
  let ?st' = "snd (execute_file_transfer_chunk lib cr show_uuid env session_id (fc_offset chunk) chunk token st)"
  from Cons.prems(2) [of env chunk] request have "honest lib data chunk" by simp
  from chunk_keeps_upload [OF Cons.prems(1) this, of cr env "fc_offset chunk" token] obtain n' where "n \<le> n'"
    and up: "uploading show_uuid session_id m data n' ?st'"
    and "\<forall>path. path \<noteq> temp_of show_uuid session_id (sm_path m) \<longrightarrow> ts_files ?st' path = ts_files st path" by blast
  moreover from Cons.IH [OF up] Cons.prems(2) obtain n'' where "n' \<le> n''"
    and "uploading show_uuid session_id m data n'' (send_chunks lib cr show_uuid session_id token requests ?st')"
    and "\<forall>path. path \<noteq> temp_of show_uuid session_id (sm_path m)
      \<longrightarrow> ts_files (send_chunks lib cr show_uuid session_id token requests ?st') path = ts_files ?st' path" by auto
  ultimately show ?case using request by (intro exI [of _ n'']) simp
qed auto

subsection \<open>Completing an upload\<close>

text \<open>A run in which nothing fails, and a session that the client can use to send the data.\<close>

definition calm :: "transfer_env \<Rightarrow> bool" where
  "calm env \<longleftrightarrow> te_fails env = (\<lambda>_. False)"

definition sendable :: "uuid \<Rightarrow> string \<Rightarrow> session_metadata \<Rightarrow> u8 list \<Rightarrow> bool" where
  "sendable session_id token m data \<longleftrightarrow> validate_file_transfer_session_token session_id token = Inr () \<and> session_id \<noteq> 0
     \<and> sm_resume_token_hash m = to_ascii_lowercase token \<and> usable_path (sm_path m)
     \<and> validate_file_transfer_chunk_size (sm_chunk_size_bytes m) = Inr ()
     \<and> unat (sm_size_bytes m) = length data \<and> length data \<le> MAX_RESUMABLE_FILE_PUSH_BYTES"

lemma calm_attempts: "calm env \<Longrightarrow> attempt env s = Inr ()" "calm env \<Longrightarrow> check_cancel env k operation = Inr ()"
    "calm env \<Longrightarrow> \<not> te_fails env s"
  by (simp_all add: calm_def attempt_def check_cancel_def)

lemma uploading_open:
  assumes "uploading show_uuid session_id m data n st" and "calm env"
  obtains f where "ts_files st (temp_of show_uuid session_id (sm_path m)) = Some (RegularFile f)" and "rf_content f = take n data"
    and "length (rf_content f) = n" and "rf_identity f = sm_temp_identity m"
    and "\<And>s. open_temp env s st (temp_of show_uuid session_id (sm_path m)) (sm_temp_identity m) = Inr f"
  using assms by (auto simp: uploading_def open_temp_Inr calm_def)

lemma sendable_facts:
  assumes "sendable session_id token m data" and "calm env" and "uploading show_uuid session_id m data n st"
  shows "read_metadata_by_session env st session_id = Inr m" and "ensure_resume_token m token = Inr ()"
    and "transfer_session_paths env k show_uuid (sm_path m) session_id = Inr (path_components (sm_path m), temp_of show_uuid session_id (sm_path m))"
    and "current_transfer_offset env st (temp_of show_uuid session_id (sm_path m)) (sm_size_bytes m) (sm_temp_identity m) = Inr n"
proof -
  show "read_metadata_by_session env st session_id = Inr m" "ensure_resume_token m token = Inr ()"
    using assms by (simp_all add: read_metadata_Inr resume_token_Inr sendable_def uploading_def calm_def)
  show "transfer_session_paths env k show_uuid (sm_path m) session_id = Inr (path_components (sm_path m), temp_of show_uuid session_id (sm_path m))"
    using assms by (simp add: session_paths_Inr sendable_def calm_def)
  show "current_transfer_offset env st (temp_of show_uuid session_id (sm_path m)) (sm_size_bytes m) (sm_temp_identity m) = Inr n"
    using uploading_open [OF assms(3,2)] assms(1,3) unfolding offset_Inr by (metis sendable_def uploading_def)
qed

lemma next_chunk_appended:
  assumes "base64_documented lib" and "digest_documented cr" and "calm env" and "sendable session_id token m data"
    and up: "uploading show_uuid session_id m data n st"
    and "piece \<noteq> []" and "length piece \<le> unat (sm_chunk_size_bytes m)" and "prefix piece (drop n data)"
  shows "uploading show_uuid session_id m data (n + length piece)
    (snd (execute_file_transfer_chunk lib cr show_uuid env session_id (of_nat n)
      \<lparr>fc_offset = of_nat n, fc_size_bytes = of_nat (length piece), fc_sha256_hex = payload_hash cr piece,
       fc_data_base64 = b64_encode lib piece\<rparr> token st))"
proof -
  let ?temp = "temp_of show_uuid session_id (sm_path m)"
  obtain f where f: "ts_files st ?temp = Some (RegularFile f)" "rf_content f = take n data" "length (rf_content f) = n"
      "rf_identity f = sm_temp_identity m" "\<And>s. open_temp env s st ?temp (sm_temp_identity m) = Inr f"
    using uploading_open [OF up assms(3)] by blast
  have len: "n + length piece \<le> length data" using up assms(8) by (auto simp: uploading_def prefix_def dest!: arg_cong [of "drop n data" _ length])
  have big: "unat (sm_size_bytes m) = length data" "length data < 2 ^ 64"
    using assms(4) by (simp_all add: sendable_def MAX_RESUMABLE_FILE_PUSH_BYTES_def)
  then have words: "unat (of_nat n :: u64) = n" "unat (of_nat (length piece) :: u64) = length piece"
    using len by (simp_all add: unat_of_nat)
  have fits: "\<not> saturating_add (of_nat n) (of_nat (length piece)) > sm_size_bytes m"
    using len big words by (simp add: word_less_nat_alt unat_saturating_add not_less)
  have content: "rf_content f @ piece = take (n + length piece) data"
    using take_append_piece [OF assms(8), of "length piece"] up f(2) by (simp add: uploading_def)
  have "store_transfer_chunk env st ?temp (sm_temp_identity m) n piece n
      = (Inr (n + length piece), put_file ?temp (f\<lparr>rf_content := take (n + length piece) data\<rparr>) st)"
    using f assms(3) content write_at_end [of "rf_content f" piece]
    by (simp add: store_transfer_chunk_def write_transfer_chunk_def calm_attempts)
  then have "snd (execute_file_transfer_chunk lib cr show_uuid env session_id (of_nat n)
      \<lparr>fc_offset = of_nat n, fc_size_bytes = of_nat (length piece), fc_sha256_hex = payload_hash cr piece,
       fc_data_base64 = b64_encode lib piece\<rparr> token st) = put_file ?temp (f\<lparr>rf_content := take (n + length piece) data\<rparr>) st"
    using assms(3,4) fits words sendable_facts [OF assms(4,3) up]
      decode_encoded_chunk [OF assms(1,2,6,7), of "of_nat n"]
    by (simp add: execute_file_transfer_chunk_def calm_attempts sendable_def)
  then show ?thesis using up f(4) len by (simp add: uploading_def put_file_def)
qed

lemma rest_delivered:
  assumes "base64_documented lib" and "digest_documented cr" and "calm env" and "sendable session_id token m data"
    and "uploading show_uuid session_id m data n st"
    and "\<And>p. p \<in> set pieces \<Longrightarrow> p \<noteq> [] \<and> length p \<le> unat (sm_chunk_size_bytes m)" and "concat pieces = drop n data"
  shows "uploading show_uuid session_id m data (length data)
    (send_chunks lib cr show_uuid session_id token (map (Pair env) (scan_chunks lib cr (of_nat n) pieces)) st)"
  using assms(5-7)
proof (induction pieces arbitrary: n st)
  case Nil
  then have "n = length data" by (simp add: uploading_def)
  then show ?case using Nil by simp
next
  case (Cons p pieces)
  have whole: "drop n data = p @ concat pieces" using Cons.prems(3) by simp
  have pre: "prefix p (drop n data)" unfolding whole by simp
  have rest: "concat pieces = drop (n + length p) data"
    unfolding add.commute [of n] drop_drop [symmetric] whole by simp
  from next_chunk_appended [OF assms(1-4) Cons.prems(1) _ _ pre] Cons.prems(2) [of p]
  have "uploading show_uuid session_id m data (n + length p)
    (snd (execute_file_transfer_chunk lib cr show_uuid env session_id (of_nat n)
      \<lparr>fc_offset = of_nat n, fc_size_bytes = of_nat (length p), fc_sha256_hex = payload_hash cr p,
       fc_data_base64 = b64_encode lib p\<rparr> token st))" by simp
  from Cons.IH [OF this _ rest] Cons.prems(2) show ?case by simp
qed

subsection \<open>From start to commit\<close>

lemma session_valid:
  assumes "validate_file_transfer_session session_id path mode size_bytes sha chunk_size rate token = Inr ()"
  shows "session_id \<noteq> 0" and "validate_absolute_file_path path = Inr ()" and "unat size_bytes \<le> MAX_RESUMABLE_FILE_PUSH_BYTES"
    and "validate_file_transfer_chunk_size chunk_size = Inr ()" and "validate_resume_token_hash token = Inr ()"
  using assms by (auto simp: validate_file_transfer_session_def and_then_eq_Inr split: if_splits)

text \<open>The metadata a fresh session gets.\<close>

definition fresh_session ::
    "uuid \<Rightarrow> string list \<Rightarrow> string \<Rightarrow> u32 \<Rightarrow> u64 \<Rightarrow> string \<Rightarrow> u32 \<Rightarrow> u32 \<Rightarrow> file_existing_policy \<Rightarrow> string \<Rightarrow> node_identity \<Rightarrow> session_metadata" where
  "fresh_session session_id temp path mode size_bytes sha chunk_size rate policy token identity =
     \<lparr>sm_session_id = session_id, sm_path = path, sm_temp_path = temp, sm_mode = mode, sm_size_bytes = size_bytes,
      sm_sha256_hex = to_ascii_lowercase sha, sm_chunk_size_bytes = chunk_size, sm_rate_limit_kbps = rate,
      sm_existing_policy = policy, sm_resume_token_hash = to_ascii_lowercase token, sm_temp_identity = identity\<rparr>"

lemma start_fresh:
  assumes "execute_file_transfer_start env show_uuid session_id path mode size_bytes sha chunk_size rate policy token st = (Inr status, st')"
    and "calm env" and "ts_sessions st session_id = None" and "policy = Skip \<longrightarrow> ts_files st (path_components path) = None"
  shows "validate_file_transfer_session session_id path mode size_bytes sha chunk_size rate token = Inr () \<and> usable_path path
    \<and> ts_files st (path_components path) \<noteq> Some Directory
    \<and> st' = st\<lparr>ts_files := (ts_files st)(temp_of show_uuid session_id path \<mapsto>
          RegularFile \<lparr>rf_identity = te_new_identity env, rf_content = [], rf_mode = 384\<rparr>),
        ts_sessions := (ts_sessions st)(session_id \<mapsto> fresh_session session_id (temp_of show_uuid session_id path) path mode
          size_bytes sha chunk_size rate policy token (te_new_identity env))\<rparr>"
proof -
  have no: "read_transfer_metadata env st session_id = Inl (Io ReadMetadata)"
    using assms(2,3) by (simp add: read_transfer_metadata_def calm_attempts)
  from assms(1) have valid: "validate_file_transfer_session session_id path mode size_bytes sha chunk_size rate token = Inr ()"
      "usable_path path"
    by (auto simp: execute_file_transfer_start_def Let_def command_Inr)
  then have paths: "transfer_session_paths env 0 show_uuid path session_id = Inr (path_components path, temp_of show_uuid session_id path)"
    using assms(2) by (simp add: session_paths_Inr calm_def)
  show ?thesis
    using assms valid no paths
    by (auto simp: execute_file_transfer_start_def Let_def calm_attempts create_transfer_temp_file_def write_transfer_metadata_def
        put_file_def fresh_session_def split: if_splits)
qed

lemma start_resumes:
  assumes "calm env" and "validate_file_transfer_session session_id path mode size_bytes sha chunk_size rate token = Inr ()"
    and "usable_path path"
    and "m = fresh_session session_id temp path mode size_bytes sha chunk_size rate policy token identity"
    and "uploading show_uuid session_id m data n st" and "length data = unat size_bytes"
  shows "\<exists>status. execute_file_transfer_start env show_uuid session_id path mode size_bytes sha chunk_size rate policy token st = (Inr status, st)
    \<and> xs_next_offset status = n"
proof -
  have m: "read_transfer_metadata env st session_id = Inr m"
    using assms(1,5) by (simp add: read_transfer_metadata_def calm_attempts uploading_def)
  have fields: "sm_path m = path" "sm_size_bytes m = size_bytes" using assms(4) by (simp_all add: fresh_session_def)
  have "ensure_metadata_matches m path mode size_bytes sha chunk_size rate policy token = Inr ()"
    using assms(4) by (simp add: ensure_metadata_matches_def fresh_session_def)
  moreover have "current_transfer_offset env st (temp_of show_uuid session_id path) size_bytes (sm_temp_identity m) = Inr n"
    using uploading_open [OF assms(5,1)] assms(5,6) fields unfolding offset_Inr by (metis uploading_def)
  moreover have "transfer_session_paths env 0 show_uuid path session_id = Inr (path_components path, temp_of show_uuid session_id path)"
    using assms(1,3) by (simp add: session_paths_Inr calm_def)
  ultimately show ?thesis
    using assms(1,2) m by (simp add: execute_file_transfer_start_def Let_def calm_attempts transfer_status_def)
qed

lemma commit_succeeds:
  assumes "calm env" and "sendable session_id token m data" and "uploading show_uuid session_id m data (length data) st"
    and "payload_hash cr data = sm_sha256_hex m"
    and "ts_files st (path_components (sm_path m)) = None
      \<or> sm_existing_policy m = Replace \<and> ts_files st (path_components (sm_path m)) \<noteq> Some Directory"
  shows "\<exists>status st' f. execute_file_transfer_commit cr show_uuid env session_id token st = (Inr status, st')
    \<and> ts_files st' (path_components (sm_path m)) = Some (RegularFile f) \<and> rf_content f = data \<and> rf_mode f = sm_mode m"
proof -
  let ?temp = "temp_of show_uuid session_id (sm_path m)"
  obtain f where f: "ts_files st ?temp = Some (RegularFile f)" "rf_content f = data" "rf_identity f = sm_temp_identity m"
      "\<And>s. open_temp env s st ?temp (sm_temp_identity m) = Inr f"
    using uploading_open [OF assms(3,1)] by (metis take_all order_refl)
  have ne: "?temp \<noteq> path_components (sm_path m)"
    using assms(2) temp_not_destination by (auto simp: sendable_def usable_path_def)
  let ?f = "f\<lparr>rf_mode := sm_mode m\<rparr>"
  have "hash_file cr env st ?temp (sm_temp_identity m) = Inr (sm_sha256_hex m)"
    using f assms(4) by (simp add: hash_file_def)
  moreover have "chmod_transfer_temp env st ?temp (sm_temp_identity m) (sm_mode m) = (Inr (), put_file ?temp ?f st)"
    using f(4) assms(1) by (simp add: chmod_transfer_temp_def calm_attempts)
  moreover have "\<exists>st'. commit_transfer_temp env (put_file ?temp ?f st) (path_components (sm_path m)) ?temp m = (Inr (), st')"
  proof -
    have "open_temp env CommitTemp (put_file ?temp ?f st) ?temp (sm_temp_identity m) = Inr ?f"
      using f(3) assms(1) by (simp add: open_temp_Inr put_file_def calm_def)
    moreover have "ts_files (put_file ?temp ?f st) (path_components (sm_path m)) = ts_files st (path_components (sm_path m))"
      using ne by (simp add: put_file_def)
    ultimately show ?thesis using assms(5) by (elim disjE) (simp_all add: commit_transfer_temp_def)
  qed
  ultimately have "\<exists>status st'. execute_file_transfer_commit cr show_uuid env session_id token st = (Inr status, st')"
    using assms(1,2) sendable_facts [OF assms(2,1,3)]
    by (elim exE) (simp add: execute_file_transfer_commit_def calm_attempts sendable_def)
  then obtain status st' where commit: "execute_file_transfer_commit cr show_uuid env session_id token st = (Inr status, st')" by blast
  then have "ts_files st' (path_components (sm_path m)) = Some (RegularFile ?f)"
  proof (rule commit_cases)
    fix m' f'
    assume "ts_sessions st session_id = Some m'" "ts_files st (temp_of show_uuid session_id (sm_path m')) = Some (RegularFile f')"
      and files: "ts_files st' = (ts_files st)(temp_of show_uuid session_id (sm_path m') := None,
        path_components (sm_path m') \<mapsto> RegularFile (f'\<lparr>rf_mode := sm_mode m'\<rparr>))"
    then have "m' = m" "f' = f" using assms(3) f(1) by (simp_all add: uploading_def)
    then show ?thesis using files by simp
  qed
  then show ?thesis using commit f(2) by force
qed

lemma sending_touches_temp_only:
  assumes "ts_sessions st session_id = Some m"
  shows "ts_sessions (send_chunks lib cr show_uuid session_id token requests st) = ts_sessions st
    \<and> (path \<noteq> temp_of show_uuid session_id (sm_path m)
        \<longrightarrow> ts_files (send_chunks lib cr show_uuid session_id token requests st) path = ts_files st path)"
  using assms
proof (induction requests arbitrary: st)
  case (Cons request requests)
  obtain env chunk where request: "request = (env, chunk)" by (cases request)
  let ?st' = "snd (execute_file_transfer_chunk lib cr show_uuid env session_id (fc_offset chunk) chunk token st)"
  have "ts_sessions ?st' = ts_sessions st"
      "path \<noteq> temp_of show_uuid session_id (sm_path m) \<longrightarrow> ts_files ?st' path = ts_files st path"
    using chunk_state [OF Cons.prems, of lib cr show_uuid env "fc_offset chunk" chunk token] by (auto simp: put_file_def)
  then show ?case using Cons.IH [of ?st'] Cons.prems request by simp
qed simp


lemma lowered_visible: "visible (ascii_lower c) \<Longrightarrow> visible c"
  by (auto simp: visible_def ascii_lower_def split: if_splits)

text \<open>
  (C19) A start accepts a digest with white space around it, but no commit of that session can succeed, whatever is sent: the
  session keeps the digest as it was given, and the digest of no file has white space in it.
\<close>

theorem padded_digest_never_commits:
  assumes "digest_documented cr" and "calm env" and "ts_sessions st session_id = None"
    and "policy = Skip \<longrightarrow> ts_files st (path_components path) = None" and "trim sha \<noteq> sha"
    and "execute_file_transfer_start env show_uuid session_id path mode size_bytes sha chunk_size rate policy token st = (Inr status, st0)"
  shows "\<exists>e. fst (execute_file_transfer_commit cr show_uuid env' session_id token'
    (send_chunks lib cr show_uuid session_id token' requests st0)) = Inl e"
proof (rule ccontr)
  let ?st1 = "send_chunks lib cr show_uuid session_id token' requests st0"
  assume "\<nexists>e. fst (execute_file_transfer_commit cr show_uuid env' session_id token' ?st1) = Inl e"
  then obtain status st2 where commit: "execute_file_transfer_commit cr show_uuid env' session_id token' ?st1 = (Inr status, st2)"
    by (metis prod.collapse sum.exhaust)
  define m where "m = fresh_session session_id (temp_of show_uuid session_id path) path mode size_bytes sha chunk_size rate policy token
    (te_new_identity env)"
  note started = start_fresh [OF assms(6,2-4), folded m_def]
  then have "ts_sessions st0 session_id = Some m" by simp
  then have m: "ts_sessions ?st1 session_id = Some m" using sending_touches_temp_only by metis
  from commit have "\<exists>content. payload_hash cr content = sm_sha256_hex m"
    by (rule commit_cases) (use m in auto)
  then obtain content where content: "payload_hash cr content = to_ascii_lowercase sha"
    by (auto simp: m_def fresh_session_def)
  have "visible c" if "c \<in> set sha" for c
    using payload_hash_hex [OF assms(1), of content] that lowered_visible lower_hex_visible
    unfolding content to_ascii_lowercase_def by (auto simp: list_all_iff)
  moreover have "sha \<noteq> []" using payload_hash_hex [OF assms(1), of content] unfolding content by (auto simp: to_ascii_lowercase_def)
  ultimately show False using assms(5) trim_visible [of sha] by simp
qed

subsection \<open>An upload that is cut short\<close>

definition calm_env :: transfer_env where
  "calm_env = \<lparr>te_fails = (\<lambda>_. False), te_written = 0, te_new_identity = (1, 2)\<rparr>"

definition broken_write :: transfer_env where
  "broken_write = \<lparr>te_fails = (\<lambda>s. s = WriteChunk), te_written = 1, te_new_identity = (1, 2)\<rparr>"

definition no_files :: transfer_state where
  "no_files = \<lparr>ts_files = (\<lambda>_. None), ts_sessions = (\<lambda>_. None)\<rparr>"

definition sample_token :: string where
  "sample_token = replicate 64 (CHR ''0'')"

definition first_chunk :: file_push_chunk where
  "first_chunk = \<lparr>fc_offset = 0, fc_size_bytes = 2, fc_sha256_hex = payload_hash plain_digest [1, 2], fc_data_base64 = b64_encode plain_base64 [1, 2]\<rparr>"

lemma start_accepted:
  assumes "calm env" and "ts_sessions st session_id = None"
    and "validate_file_transfer_session session_id path mode size_bytes sha chunk_size rate token = Inr ()" and "usable_path path"
    and "ts_files st (path_components path) = None" and "ts_files st (temp_of show_uuid session_id path) = None"
  shows "\<exists>status st'. execute_file_transfer_start env show_uuid session_id path mode size_bytes sha chunk_size rate policy token st = (Inr status, st')"
proof -
  have "read_transfer_metadata env st session_id = Inl (Io ReadMetadata)"
    using assms(1,2) by (simp add: read_transfer_metadata_def calm_attempts)
  moreover have "transfer_session_paths env 0 show_uuid path session_id = Inr (path_components path, temp_of show_uuid session_id path)"
    using assms(1,4) by (simp add: session_paths_Inr calm_def)
  ultimately show ?thesis
    using assms by (simp add: execute_file_transfer_start_def calm_attempts create_transfer_temp_file_def write_transfer_metadata_def put_file_def)
qed

lemma calm_env_calm: "calm calm_env"
  by (simp add: calm_def calm_env_def)

lemma sample_path: "usable_path ''/a''"
  unfolding usable_path_def by code_simp

lemma sample_digests:
  "normalize_sha256_hex sample_token = Inr sample_token"
  "normalize_sha256_hex (CHR '' '' # payload_hash plain_digest [1, 2, 3]) = Inr (payload_hash plain_digest [1, 2, 3])"
  by code_simp+

lemma sample_session_valid:
  assumes "normalize_sha256_hex sha = Inr x"
  shows "validate_file_transfer_session 1 ''/a'' 420 3 sha 2 0 sample_token = Inr ()"
  using assms sample_path sample_digests(1)
  by (simp add: validate_file_transfer_session_def usable_path_def validate_file_mode_def validate_resume_token_hash_def
      validate_file_transfer_chunk_size_def validate_file_transfer_rate_limit_def MAX_RESUMABLE_FILE_PUSH_BYTES_def
      FILE_TRANSFER_CHUNK_BYTES_def MAX_FILE_MODE_def)

lemmas sample_sessions = sample_session_valid [OF payload_hash_normal [OF plain_digest_documented]]
  sample_session_valid [OF sample_digests(2)]

lemma sample_start:
  assumes "validate_file_transfer_session 1 ''/a'' 420 3 sha 2 0 sample_token = Inr ()"
  shows "\<exists>status st'. execute_file_transfer_start calm_env (\<lambda>_. ''1'') 1 ''/a'' 420 3 sha 2 0 Skip sample_token no_files = (Inr status, st')"
  by (rule start_accepted [OF calm_env_calm _ assms sample_path]) (simp_all add: no_files_def)

lemma first_chunk_honest: "honest plain_base64 [1, 2, 3] first_chunk"
proof -
  have "b64_decode plain_base64 (fc_data_base64 first_chunk) = Some [1, 2]"
    using plain_base64_documented by (simp add: first_chunk_def base64_documented_def)
  then show ?thesis by (simp add: honest_def first_chunk_def)
qed


definition sample_session :: session_metadata where
  "sample_session = fresh_session 1 (temp_of (\<lambda>_. ''1'') 1 ''/a'') ''/a'' 420 3 (payload_hash plain_digest [1, 2, 3]) 2 0 Skip
     sample_token (1, 2)"

definition uploaded :: transfer_state where
  "uploaded = \<lparr>ts_files = [temp_of (\<lambda>_. ''1'') 1 ''/a'' \<mapsto> RegularFile \<lparr>rf_identity = (1, 2), rf_content = [1, 2, 3], rf_mode = 384\<rparr>],
     ts_sessions = [1 \<mapsto> sample_session]\<rparr>"

lemma sample_commit:
  "\<exists>status st'. execute_file_transfer_commit plain_digest (\<lambda>_. ''1'') calm_env 1 sample_token uploaded = (Inr status, st')"
proof -
  have fields: "sm_path sample_session = ''/a''" "sm_sha256_hex sample_session = payload_hash plain_digest [1, 2, 3]"
      "sm_size_bytes sample_session = 3" "sm_chunk_size_bytes sample_session = 2" "sm_temp_identity sample_session = (1, 2)"
      "sm_resume_token_hash sample_session = to_ascii_lowercase sample_token"
    using payload_hash_lower [OF plain_digest_documented] by (simp_all add: sample_session_def fresh_session_def)
  have "sendable 1 sample_token sample_session [1, 2, 3]"
    using session_valid [OF sample_sessions(1)] sample_path fields
    by (simp add: sendable_def validate_file_transfer_session_token_def MAX_RESUMABLE_FILE_PUSH_BYTES_def)
  moreover have "uploading (\<lambda>_. ''1'') 1 sample_session [1, 2, 3] (length [1, 2, 3 :: u8]) uploaded"
    using fields by (simp add: uploading_def uploaded_def)
  moreover have "ts_files uploaded (path_components (sm_path sample_session)) = None"
    using sample_path temp_not_destination [of "''/a''" "\<lambda>_. ''1''" 1] fields
    by (simp add: uploaded_def usable_path_def eq_commute)
  ultimately show ?thesis using commit_succeeds [OF calm_env_calm] fields(2) by metis
qed

theorem committed_file_as_declared_witness:
  "\<exists>status st' m f. execute_file_transfer_commit plain_digest (\<lambda>_. ''1'') calm_env 1 sample_token uploaded = (Inr status, st')
    \<and> ts_sessions uploaded 1 = Some m \<and> ts_files st' (path_components (sm_path m)) = Some (RegularFile f)
    \<and> length (rf_content f) = unat (sm_size_bytes m) \<and> payload_hash plain_digest (rf_content f) = sm_sha256_hex m \<and> rf_mode f = sm_mode m"
proof -
  obtain status st' where commit: "execute_file_transfer_commit plain_digest (\<lambda>_. ''1'') calm_env 1 sample_token uploaded = (Inr status, st')"
    using sample_commit by blast
  show ?thesis
    by (rule exE [OF committed_file_as_declared [OF commit]], elim exE conjE, intro exI conjI, rule commit, assumption+)
qed

theorem padded_digest_never_commits_witness:
  "\<exists>status st0 e. trim (CHR '' '' # payload_hash plain_digest [1, 2, 3]) \<noteq> CHR '' '' # payload_hash plain_digest [1, 2, 3]
    \<and> execute_file_transfer_start calm_env (\<lambda>_. ''1'') 1 ''/a'' 420 3 (CHR '' '' # payload_hash plain_digest [1, 2, 3]) 2 0 Skip
        sample_token no_files = (Inr status, st0)
    \<and> fst (execute_file_transfer_commit plain_digest (\<lambda>_. ''1'') calm_env 1 sample_token
        (send_chunks plain_base64 plain_digest (\<lambda>_. ''1'') 1 sample_token [(calm_env, first_chunk)] st0)) = Inl e"
proof -
  let ?sha = "CHR '' '' # payload_hash plain_digest [1, 2, 3]"
  obtain status st0 where start: "execute_file_transfer_start calm_env (\<lambda>_. ''1'') 1 ''/a'' 420 3 ?sha 2 0 Skip sample_token no_files
      = (Inr status, st0)"
    using sample_start [OF sample_sessions(2)] by blast
  have "ts_sessions no_files 1 = None" "Skip = Skip \<longrightarrow> ts_files no_files (path_components ''/a'') = None"
    by (simp_all add: no_files_def)
  note new = this
  have padded: "trim ?sha \<noteq> ?sha" by code_simp
  show ?thesis
    by (rule exE [OF padded_digest_never_commits [OF plain_digest_documented calm_env_calm new padded start]],
        intro exI conjI, rule padded, rule start, assumption)
qed

end
