(* ===== verification/Alert_Argv.thy ===== *)
theory Alert_Argv
  imports File_Transfer Vps_Rules
begin

section \<open>Argument lists of alert events\<close>

text \<open>
  \<open>common/src/selection/alert_event_argv.rs\<close>: the argument list a schedule runs on an alert event is a template of literal
  text and \<open>{path}\<close> placeholders. The theory has the validation and the rendering of templates. The visitor of
  \<open>visit_template_parts\<close> changes variables of its caller: here it passes them on. The JSON text of a command and of a template
  are parameters, as are the floating-point numbers of \<open>serde_json\<close>.
\<close>

definition ALERT_EVENT_ARGV_MAX_ELEMENTS :: nat where "ALERT_EVENT_ARGV_MAX_ELEMENTS = 128"
definition ALERT_EVENT_ARGV_MAX_ELEMENT_BYTES :: nat where "ALERT_EVENT_ARGV_MAX_ELEMENT_BYTES = 16 * 1024"
definition ALERT_EVENT_ARGV_MAX_BYTES :: nat where "ALERT_EVENT_ARGV_MAX_BYTES = 64 * 1024"
definition ALERT_EVENT_NOOP_ARGV :: "string list" where "ALERT_EVENT_NOOP_ARGV = [''/bin/true'']"

definition ALERT_EVENT_ARGV_CONTROL_TOKENS :: "string list" where
  "ALERT_EVENT_ARGV_CONTROL_TOKENS = [''[if'', ''[elseif'', ''[else'', ''[for'', ''[end'', ''[endif'', ''[endfor'']"

definition ALERT_EVENT_ARGV_HELPER_TOKENS :: "string list" where
  "ALERT_EVENT_ARGV_HELPER_TOKENS = [''.filter'', ''.where'', ''.count'', ''.map'']"

definition ALERT_EVENT_ARGV_SCALAR_PATHS :: "string list" where
  "ALERT_EVENT_ARGV_SCALAR_PATHS =
     [''event.id'', ''event.kind'', ''event.occurred_at'', ''event.recorded_at'', ''alert.id'', ''alert.public_id'',
      ''alert.episode_id'', ''alert.title'', ''alert.detail'', ''alert.category'', ''alert.severity'', ''alert.record_kind'',
      ''alert.lifecycle_state'', ''alert.trigger_generation'', ''alert.source_status'', ''alert.resolution_reason'',
      ''alert.target_kind'', ''alert.target_id'', ''policy.id'', ''policy.name'', ''policy_rule.id'', ''policy_rule.name'',
      ''policy_rule.rule_version'', ''policy_rule.rule_kind'', ''policy_rule.evidence_source'',
      ''policy_rule.trigger_meta_condition.kind'', ''policy_rule.trigger_meta_condition.window_seconds'',
      ''policy_rule.resolve_meta_condition.kind'', ''policy_rule.resolve_meta_condition.window_seconds'',
      ''schedule.id'', ''schedule.name'', ''schedule.definition_revision'', ''schedule.fixed_target_count'',
      ''schedule.matched_subject_count'']"

subsection \<open>Parts of a template\<close>

definition contains_control_or_helper_syntax :: "string \<Rightarrow> bool" where
  "contains_control_or_helper_syntax v =
     (let lower = to_ascii_lowercase v in
      list_ex (contains_str lower) (ALERT_EVENT_ARGV_CONTROL_TOKENS @ ALERT_EVENT_ARGV_HELPER_TOKENS))"

definition contains_template_syntax :: "string \<Rightarrow> bool" where
  "contains_template_syntax v \<longleftrightarrow> contains_char v CHR ''{'' \<or> contains_char v CHR ''}'' \<or> contains_control_or_helper_syntax v"

datatype template_part = Literal string | Placeholder string

function visit_template_parts :: "(template_part \<Rightarrow> 's \<Rightarrow> string + 's) \<Rightarrow> string \<Rightarrow> 's \<Rightarrow> string + 's" where
  "visit_template_parts visit remaining s =
     (case split_once CHR ''{'' remaining of
        None \<Rightarrow>
          if contains_char remaining CHR ''}'' then Inl ''unexpected scalar placeholder closing brace''
          else visit (Literal remaining) s
      | Some (literal, after_open) \<Rightarrow>
          if contains_char literal CHR ''}'' then Inl ''unexpected scalar placeholder closing brace''
          else and_then (visit (Literal literal) s) (\<lambda>s.
            case split_once CHR ''}'' after_open of
              None \<Rightarrow> Inl ''unclosed scalar placeholder''
            | Some (path, rest) \<Rightarrow>
                if contains_char path CHR ''{'' then Inl ''nested scalar placeholder''
                else if \<not> List.member ALERT_EVENT_ARGV_SCALAR_PATHS path
                then Inl (''unsupported event argv scalar path {'' @ path @ ''}'')
                else and_then (visit (Placeholder path) s) (visit_template_parts visit rest)))"
  by pat_completeness auto
termination
  by (relation "measure (\<lambda>(visit, remaining, s). length remaining)") (auto simp: split_once_Some)

declare visit_template_parts.simps [simp del]

definition visit_placeholders :: "(string \<Rightarrow> 's \<Rightarrow> string + 's) \<Rightarrow> string \<Rightarrow> 's \<Rightarrow> string + 's" where
  "visit_placeholders visit =
     visit_template_parts (\<lambda>part s. case part of Literal _ \<Rightarrow> Inr s | Placeholder path \<Rightarrow> visit path s)"

definition validate_direct_scalar_template :: "string \<Rightarrow> string + unit" where
  "validate_direct_scalar_template template =
     (if contains_control_or_helper_syntax template then Inl ''event_argv_template_control_syntax_unsupported''
      else visit_placeholders (\<lambda>_ _. Inr ()) template ())"

text \<open>The value a path leads to, and its text.\<close>

definition path_value :: "'f json \<Rightarrow> string \<Rightarrow> string + 'f json" where
  "path_value context path =
     try_fold (\<lambda>v segment. ok_or (''event argv scalar path {'' @ path @ ''} is missing'') (json_get v segment)) context
       (split_on CHR ''.'' path)"

definition scalar_text :: "'f f64_ops \<Rightarrow> string \<Rightarrow> 'f json \<Rightarrow> string + string" where
  "scalar_text f path v =
     (case v of
        JString s \<Rightarrow> Inr s
      | JBool b \<Rightarrow> Inr (if b then ''true'' else ''false'')
      | JInt i \<Rightarrow> Inr (show_int i)
      | JFloat x \<Rightarrow> Inr (f64_show f x)
      | JNull \<Rightarrow> Inl (''event argv scalar path {'' @ path @ ''} resolved to null'')
      | _ \<Rightarrow> Inl (''event argv scalar path {'' @ path @ ''} did not resolve to a scalar''))"

definition render_part :: "'f f64_ops \<Rightarrow> 'f json \<Rightarrow> template_part \<Rightarrow> string \<Rightarrow> string + string" where
  "render_part f context part rendered =
     (case part of
        Literal v \<Rightarrow> Inr (rendered @ v)
      | Placeholder path \<Rightarrow>
          and_then (path_value context path) (\<lambda>v. and_then (scalar_text f path v) (\<lambda>text. Inr (rendered @ text))))"

definition render_direct_scalar_template :: "'f f64_ops \<Rightarrow> string \<Rightarrow> 'f json \<Rightarrow> string + string" where
  "render_direct_scalar_template f template context =
     (if contains_control_or_helper_syntax template then Inl ''event_argv_template_control_syntax_unsupported''
      else visit_template_parts (render_part f context) template [])"

subsection \<open>Templates\<close>

definition effective_template :: "string list option \<Rightarrow> string list" where
  "effective_template template = (case template of None \<Rightarrow> ALERT_EVENT_NOOP_ARGV | Some argv \<Rightarrow> argv)"

fun for_each_indexed :: "(nat \<Rightarrow> 'a \<Rightarrow> 'e + unit) \<Rightarrow> nat \<Rightarrow> 'a list \<Rightarrow> 'e + unit" where
  "for_each_indexed f i [] = Inr ()"
| "for_each_indexed f i (x # xs) = and_then (f i x) (\<lambda>_. for_each_indexed f (Suc i) xs)"

definition argv_element :: "string \<Rightarrow> nat \<Rightarrow> string \<Rightarrow> string + unit" where
  "argv_element empty_error i v =
     (if v = [] then Inl (empty_error @ show_nat i)
      else if contains_char v CHR 0x00 then Inl (''event_argv_contains_nul_at_'' @ show_nat i)
      else if length v > ALERT_EVENT_ARGV_MAX_ELEMENT_BYTES then Inl (''event_argv_element_too_large_at_'' @ show_nat i)
      else Inr ())"

definition validate_alert_event_argv_template :: "string list option \<Rightarrow> string + unit" where
  "validate_alert_event_argv_template template =
     (let argv = effective_template template in
      if argv = [] then Inl ''event_argv_empty''
      else if length argv > ALERT_EVENT_ARGV_MAX_ELEMENTS then Inl ''event_argv_too_many_elements''
      else if sum_list (map length argv) > ALERT_EVENT_ARGV_MAX_BYTES then Inl ''event_argv_template_too_large''
      else and_then (for_each_indexed (argv_element ''event_argv_element_empty_at_'') 0 argv) (\<lambda>_.
        if trim (argv ! 0) = [] then Inl ''event_argv0_empty''
        else if contains_template_syntax (argv ! 0) then Inl ''event_argv0_must_be_literal''
        else for_each_indexed (\<lambda>i element. map_err (\<lambda>error. ''event_argv_template_invalid_at_'' @ show_nat i @ '': '' @ error)
            (validate_direct_scalar_template element)) 1 (tl argv)))"

definition alert_event_argv_template_uses_path :: "string list option \<Rightarrow> string \<Rightarrow> string + bool" where
  "alert_event_argv_template_uses_path template expected_path =
     and_then (validate_alert_event_argv_template template) (\<lambda>_.
     try_fold (\<lambda>found element. visit_placeholders (\<lambda>path found. Inr (found \<or> path = expected_path)) element found) False
       (effective_template template))"

definition validate_rendered_argv :: "string list \<Rightarrow> string + unit" where
  "validate_rendered_argv argv =
     (if argv = [] then Inl ''event_argv_empty_after_render''
      else if trim (argv ! 0) = [] then Inl ''event_argv0_empty_after_render''
      else if length argv > ALERT_EVENT_ARGV_MAX_ELEMENTS then Inl ''event_argv_too_many_elements''
      else if sum_list (map length argv) > ALERT_EVENT_ARGV_MAX_BYTES then Inl ''event_argv_too_large''
      else for_each_indexed (argv_element ''event_argv_element_empty_after_render_at_'') 0 argv)"

definition render_alert_event_argv_template :: "'f f64_ops \<Rightarrow> string list option \<Rightarrow> 'f json \<Rightarrow> string + string list" where
  "render_alert_event_argv_template f template context =
     and_then (validate_alert_event_argv_template template) (\<lambda>_.
     and_then (try_map (\<lambda>element. render_direct_scalar_template f element context) (effective_template template)) (\<lambda>argv.
     and_then (validate_rendered_argv argv) (\<lambda>_. Inr argv)))"

text \<open>The command \<open>JobCommand::Shell\<close>; \<open>encode_json\<close> is its JSON text.\<close>

record shell_command =
  sh_argv :: "string list"
  sh_pty :: bool

definition render_alert_event_job_command ::
    "crypto \<Rightarrow> 'f f64_ops \<Rightarrow> (shell_command \<Rightarrow> string + u8 list) \<Rightarrow> string list option \<Rightarrow> 'f json \<Rightarrow> string + shell_command \<times> string" where
  "render_alert_event_job_command cr f encode_json template context =
     and_then (render_alert_event_argv_template f template context) (\<lambda>argv.
     let operation = \<lparr>sh_argv = argv, sh_pty = False\<rparr> in
     and_then (encode_json operation) (\<lambda>bytes. Inr (operation, payload_hash cr bytes)))"

definition alert_event_argv_template_hash :: "crypto \<Rightarrow> (string list \<Rightarrow> string + u8 list) \<Rightarrow> string list option \<Rightarrow> string + string" where
  "alert_event_argv_template_hash cr encode_json template =
     and_then (validate_alert_event_argv_template template) (\<lambda>_.
     and_then (encode_json (effective_template template)) (\<lambda>bytes. Inr (payload_hash cr bytes)))"

subsection \<open>What a template means\<close>

text \<open>The parts of a template, as far as it is well-formed, and the text each part stands for in the template.\<close>

function template_parts :: "string \<Rightarrow> template_part list" where
  "template_parts template =
     (case split_once CHR ''{'' template of
        None \<Rightarrow> [Literal template]
      | Some (literal, after_open) \<Rightarrow>
          (case split_once CHR ''}'' after_open of
             None \<Rightarrow> [Literal literal]
           | Some (path, rest) \<Rightarrow> Literal literal # Placeholder path # template_parts rest))"
  by pat_completeness auto
termination
  by (relation "measure length") (auto simp: split_once_Some)

declare template_parts.simps [simp del]

fun part_source :: "template_part \<Rightarrow> string" where
  "part_source (Literal v) = v"
| "part_source (Placeholder path) = ''{'' @ path @ ''}''"

fun part_ok :: "template_part \<Rightarrow> bool" where
  "part_ok (Literal v) \<longleftrightarrow> CHR ''{'' \<notin> set v \<and> CHR ''}'' \<notin> set v"
| "part_ok (Placeholder path) \<longleftrightarrow> path \<in> set ALERT_EVENT_ARGV_SCALAR_PATHS"

definition template_ok :: "string \<Rightarrow> bool" where
  "template_ok template \<longleftrightarrow> concat (map part_source (template_parts template)) = template \<and> list_all part_ok (template_parts template)"

lemma scalar_paths_plain: "path \<in> set ALERT_EVENT_ARGV_SCALAR_PATHS \<Longrightarrow> CHR ''{'' \<notin> set path"
proof -
  have "list_all (\<lambda>path. \<not> List.member path CHR ''{'') ALERT_EVENT_ARGV_SCALAR_PATHS" by code_simp
  then show "path \<in> set ALERT_EVENT_ARGV_SCALAR_PATHS \<Longrightarrow> CHR ''{'' \<notin> set path" by (simp add: list_all_iff)
qed

lemma template_ok_plain: "CHR ''{'' \<notin> set t \<Longrightarrow> template_ok t \<longleftrightarrow> CHR ''}'' \<notin> set t"
  by (subst template_ok_def) (simp add: template_parts.simps [of t] split_once_None [THEN iffD2])

lemma template_ok_step:
  assumes "split_once CHR ''{'' t = Some (literal, after_open)" and "split_once CHR ''}'' after_open = Some (path, rest)"
  shows "template_ok t \<longleftrightarrow> CHR ''}'' \<notin> set literal \<and> path \<in> set ALERT_EVENT_ARGV_SCALAR_PATHS \<and> template_ok rest"
proof -
  have parts: "template_parts t = Literal literal # Placeholder path # template_parts rest"
    using assms by (subst template_parts.simps) simp
  have "t = literal @ CHR ''{'' # path @ CHR ''}'' # rest" "CHR ''{'' \<notin> set literal"
    using assms by (auto simp: split_once_Some)
  then show ?thesis unfolding template_ok_def parts by auto
qed

lemma template_ok_unclosed:
  assumes "split_once CHR ''{'' t = Some (literal, after_open)" and "split_once CHR ''}'' after_open = None"
  shows "\<not> template_ok t"
proof -
  have "template_parts t = [Literal literal]" using assms by (subst template_parts.simps) simp
  then show ?thesis using assms(1) by (auto simp: template_ok_def split_once_Some)
qed

text \<open>A visit of a well-formed template sees its parts in order; a visit that ends shows that the template is well-formed.\<close>

lemma visit_well_formed:
  "template_ok t \<Longrightarrow> visit_template_parts visit t s = try_fold (\<lambda>s part. visit part s) s (template_parts t)"
proof (induction t arbitrary: s rule: template_parts.induct)
  case (1 t)
  show ?case
  proof (cases "split_once CHR ''{'' t")
    case None
    then have "CHR ''}'' \<notin> set t" using 1(2) by (simp add: template_ok_plain split_once_None)
    then show ?thesis
      using None by (cases "visit (Literal t) s") (simp_all add: visit_template_parts.simps [of visit t] template_parts.simps [of t])
  next
    case (Some a)
    obtain literal after_open where a: "a = (literal, after_open)" by (cases a)
    with 1(2) template_ok_unclosed Some obtain path rest where rest: "split_once CHR ''}'' after_open = Some (path, rest)" by fastforce
    with 1(2) Some a have ok: "CHR ''}'' \<notin> set literal" "path \<in> set ALERT_EVENT_ARGV_SCALAR_PATHS" "template_ok rest"
      by (simp_all add: template_ok_step)
    have parts: "template_parts t = Literal literal # Placeholder path # template_parts rest"
      using Some a rest by (subst template_parts.simps) simp
    have "visit_template_parts visit t s
        = and_then (visit (Literal literal) s) (\<lambda>s. and_then (visit (Placeholder path) s) (visit_template_parts visit rest))"
      using Some a rest ok scalar_paths_plain [OF ok(2)] by (subst visit_template_parts.simps) simp
    moreover have "visit_template_parts visit rest = (\<lambda>s. try_fold (\<lambda>s part. visit part s) s (template_parts rest))"
      using 1(1) [OF Some a [symmetric] rest refl ok(3)] by blast
    ultimately show ?thesis using parts by simp
  qed
qed

lemma visited_well_formed: "visit_template_parts visit t s = Inr s' \<Longrightarrow> template_ok t"
proof (induction visit t s arbitrary: s' rule: visit_template_parts.induct)
  case (1 visit t s)
  show ?case
  proof (cases "split_once CHR ''{'' t")
    case None
    from 1(2) None have "CHR ''}'' \<notin> set t" by (subst (asm) visit_template_parts.simps) (simp split: if_splits)
    then show ?thesis using None by (simp add: template_ok_plain split_once_None)
  next
    case (Some a)
    obtain literal after_open where a: "a = (literal, after_open)" by (cases a)
    from 1(2) Some a obtain s1 where literal: "CHR ''}'' \<notin> set literal" "visit (Literal literal) s = Inr s1"
      by (auto simp: visit_template_parts.simps [of visit t s] and_then_eq_Inr split: if_splits)
    with 1(2) Some a obtain path rest where rest: "split_once CHR ''}'' after_open = Some (path, rest)"
      by (cases "split_once CHR ''}'' after_open") (auto simp: visit_template_parts.simps [of visit t s])
    with 1(2) Some a literal obtain s2 where step: "path \<in> set ALERT_EVENT_ARGV_SCALAR_PATHS" "CHR ''{'' \<notin> set path"
        "visit (Placeholder path) s1 = Inr s2" "visit_template_parts visit rest s2 = Inr s'"
      by (auto simp: visit_template_parts.simps [of visit t s] and_then_eq_Inr split: if_splits)
    then have "template_ok rest" using 1(1) [OF Some a [symmetric]] literal rest by simp
    then show ?thesis using literal rest step Some a by (simp add: template_ok_step)
  qed
qed

lemma validate_direct_exact:
  "validate_direct_scalar_template t = Inr () \<longleftrightarrow> \<not> contains_control_or_helper_syntax t \<and> template_ok t"
proof
  assume "validate_direct_scalar_template t = Inr ()"
  then show "\<not> contains_control_or_helper_syntax t \<and> template_ok t"
    by (auto simp: validate_direct_scalar_template_def visit_placeholders_def dest: visited_well_formed split: if_splits)
next
  assume ok: "\<not> contains_control_or_helper_syntax t \<and> template_ok t"
  have idle: "(\<And>s part. g s part = Inr ()) \<Longrightarrow> try_fold g () ps = Inr ()"
    for g :: "unit \<Rightarrow> template_part \<Rightarrow> string + unit" and ps
    by (induction ps) simp_all
  show "validate_direct_scalar_template t = Inr ()"
    using ok by (simp add: validate_direct_scalar_template_def visit_placeholders_def visit_well_formed)
      (rule idle, simp split: template_part.split)
qed

definition part_text :: "'f f64_ops \<Rightarrow> 'f json \<Rightarrow> template_part \<Rightarrow> string + string" where
  "part_text f context part =
     (case part of Literal v \<Rightarrow> Inr v | Placeholder path \<Rightarrow> and_then (path_value context path) (scalar_text f path))"

lemma render_parts:
  "try_fold (\<lambda>rendered part. render_part f context part rendered) acc parts
     = and_then (try_map (part_text f context) parts) (\<lambda>texts. Inr (acc @ concat texts))"
proof (induction parts arbitrary: acc)
  case (Cons part parts)
  have "render_part f context part acc = and_then (part_text f context part) (\<lambda>text. Inr (acc @ text))"
    by (simp add: render_part_def part_text_def and_then_assoc split: template_part.split)
  then show ?case using Cons by (simp add: and_then_assoc)
qed simp

lemma render_direct:
  "\<not> contains_control_or_helper_syntax t \<Longrightarrow> template_ok t \<Longrightarrow>
   render_direct_scalar_template f t context = and_then (try_map (part_text f context) (template_parts t)) (\<lambda>texts. Inr (concat texts))"
  by (simp add: render_direct_scalar_template_def visit_well_formed render_parts)

lemma for_each_indexed_Inr:
  "for_each_indexed g i xs = Inr () \<longleftrightarrow> (\<forall>k<length xs. g (i + k) (xs ! k) = Inr ())"
proof (induction xs arbitrary: i)
  case (Cons x xs)
  then show ?case by (auto simp: and_then_eq_Inr All_less_Suc2 nth_Cons')
qed simp

lemma valid_template:
  assumes "validate_alert_event_argv_template template = Inr ()" and "element \<in> set (effective_template template)"
  shows "\<not> contains_control_or_helper_syntax element \<and> template_ok element"
proof -
  let ?argv = "effective_template template"
  have ne: "?argv \<noteq> []" and first: "\<not> contains_template_syntax (?argv ! 0)"
    and rest: "\<And>k. k < length (tl ?argv) \<Longrightarrow> validate_direct_scalar_template (tl ?argv ! k) = Inr ()"
    using assms(1) unfolding validate_alert_event_argv_template_def
    by (auto simp: Let_def and_then_eq_Inr for_each_indexed_Inr map_err_eq_Inr split: if_splits)
  from assms(2) ne consider "element = ?argv ! 0" | k where "k < length (tl ?argv)" "element = tl ?argv ! k"
    by (metis in_set_conv_nth list.exhaust_sel nth_Cons_0 set_ConsD)
  then show ?thesis
  proof cases
    case 1
    then show ?thesis using first by (auto simp: contains_template_syntax_def template_ok_plain)
  qed (use rest validate_direct_exact in auto)
qed

lemma literal_argument:
  assumes "validate_alert_event_argv_template template = Inr ()"
  shows "template_parts (effective_template template ! 0) = [Literal (effective_template template ! 0)]"
proof -
  have "\<not> contains_template_syntax (effective_template template ! 0)"
    using assms unfolding validate_alert_event_argv_template_def by (auto simp: Let_def and_then_eq_Inr split: if_splits)
  then have "split_once CHR ''{'' (effective_template template ! 0) = None" by (simp add: contains_template_syntax_def split_once_None)
  then show ?thesis by (subst template_parts.simps) simp
qed

lemma argv_element_Inr:
  "argv_element e i v = Inr u \<longleftrightarrow> v \<noteq> [] \<and> CHR 0x00 \<notin> set v \<and> length v \<le> ALERT_EVENT_ARGV_MAX_ELEMENT_BYTES"
  by (simp add: argv_element_def not_less)

lemma rendered_bounds:
  assumes "validate_rendered_argv argv = Inr ()"
  shows "argv \<noteq> [] \<and> length argv \<le> ALERT_EVENT_ARGV_MAX_ELEMENTS \<and> sum_list (map length argv) \<le> ALERT_EVENT_ARGV_MAX_BYTES
    \<and> list_all (\<lambda>a. a \<noteq> [] \<and> CHR 0x00 \<notin> set a \<and> length a \<le> ALERT_EVENT_ARGV_MAX_ELEMENT_BYTES) argv"
proof -
  from assms have "for_each_indexed (argv_element ''event_argv_element_empty_after_render_at_'') 0 argv = Inr ()"
    by (auto simp: validate_rendered_argv_def split: if_splits)
  then have "list_all (\<lambda>a. a \<noteq> [] \<and> CHR 0x00 \<notin> set a \<and> length a \<le> ALERT_EVENT_ARGV_MAX_ELEMENT_BYTES) argv"
    by (simp add: for_each_indexed_Inr argv_element_Inr list_all_length)
  then show ?thesis using assms by (auto simp: validate_rendered_argv_def split: if_splits)
qed

text \<open>
  (C27) Rendering never moves the boundary of an argument: every argument of the result is the text of one element of the
  template, with its literal parts as they stand and the scalar value of the context for every placeholder. The program
  that is run is the first element itself, and the result keeps the limits of an argument list.
\<close>

theorem arguments_keep_boundaries:
  assumes "render_alert_event_argv_template f template context = Inr argv"
  shows "list_all2 (\<lambda>element argument. concat (map part_source (template_parts element)) = element
      \<and> and_then (try_map (part_text f context) (template_parts element)) (\<lambda>texts. Inr (concat texts)) = Inr argument)
      (effective_template template) argv
    \<and> argv \<noteq> [] \<and> hd argv = hd (effective_template template)
    \<and> length argv \<le> ALERT_EVENT_ARGV_MAX_ELEMENTS \<and> sum_list (map length argv) \<le> ALERT_EVENT_ARGV_MAX_BYTES
    \<and> list_all (\<lambda>a. a \<noteq> [] \<and> CHR 0x00 \<notin> set a \<and> length a \<le> ALERT_EVENT_ARGV_MAX_ELEMENT_BYTES) argv"
proof -
  from assms have valid: "validate_alert_event_argv_template template = Inr ()" and bounds: "validate_rendered_argv argv = Inr ()"
    and mapped: "try_map (\<lambda>element. render_direct_scalar_template f element context) (effective_template template) = Inr argv"
    by (auto simp: render_alert_event_argv_template_def and_then_eq_Inr)
  let ?P = "\<lambda>element argument. concat (map part_source (template_parts element)) = element
    \<and> and_then (try_map (part_text f context) (template_parts element)) (\<lambda>texts. Inr (concat texts)) = Inr argument"
  have all: "list_all2 ?P (effective_template template) argv"
    using mapped valid_template [OF valid] unfolding try_map_eq_Inr
    by (auto simp: list_all2_conv_all_nth render_direct template_ok_def)
  have ne: "argv \<noteq> []" using rendered_bounds [OF bounds] by simp
  then have "?P (effective_template template ! 0) (argv ! 0)" using all by (simp add: list_all2_conv_all_nth)
  then have "argv ! 0 = effective_template template ! 0"
    by (simp add: literal_argument [OF valid] part_text_def)
  moreover have "effective_template template \<noteq> []" using all ne by auto
  ultimately show ?thesis using all ne rendered_bounds [OF bounds] by (simp add: hd_conv_nth)
qed

lemma uses_path_exact:
  assumes "validate_alert_event_argv_template template = Inr ()"
  shows "alert_event_argv_template_uses_path template path
    = Inr (\<exists>element\<in>set (effective_template template). Placeholder path \<in> set (template_parts element))"
proof -
  have parts: "try_fold (\<lambda>found part. case part of Literal _ \<Rightarrow> Inr found | Placeholder p \<Rightarrow> Inr (found \<or> p = path)) b ps
      = Inr (b \<or> Placeholder path \<in> set ps)" for b ps
    by (induction ps arbitrary: b) (auto split: template_part.split)
  have "(\<And>e. e \<in> set es \<Longrightarrow> template_ok e) \<Longrightarrow>
      try_fold (\<lambda>found e. visit_placeholders (\<lambda>p found. Inr (found \<or> p = path)) e found) b es
        = Inr (b \<or> (\<exists>e\<in>set es. Placeholder path \<in> set (template_parts e)))" for b es
    by (induction es arbitrary: b) (simp_all add: visit_placeholders_def visit_well_formed parts)
  then show ?thesis using assms valid_template [OF assms] by (simp add: alert_event_argv_template_uses_path_def)
qed

text \<open>
  (C28) Rendering looks at the paths a template is reported to use and at nothing else: contexts that agree on them give the same
  arguments or the same error.
\<close>

theorem rendering_reads_used_paths:
  assumes "\<forall>path. alert_event_argv_template_uses_path template path = Inr True \<longrightarrow> path_value context path = path_value context' path"
  shows "render_alert_event_argv_template f template context = render_alert_event_argv_template f template context'"
proof (cases "validate_alert_event_argv_template template")
  case (Inr u)
  then have valid: "validate_alert_event_argv_template template = Inr ()" by simp
  have "part_text f context part = part_text f context' part"
    if "element \<in> set (effective_template template)" "part \<in> set (template_parts element)" for element part
    using assms that uses_path_exact [OF valid] by (cases part) (auto simp: part_text_def)
  then have "render_direct_scalar_template f element context = render_direct_scalar_template f element context'"
    if "element \<in> set (effective_template template)" for element
    using that valid_template [OF valid that] by (simp add: render_direct cong: try_map_cong)
  then show ?thesis by (simp add: render_alert_event_argv_template_def cong: try_map_cong)
qed (simp add: render_alert_event_argv_template_def)

subsection \<open>A template and its context\<close>

definition sample_f64 :: "unit f64_ops" where
  "sample_f64 = \<lparr>f64_of_int = \<lambda>_. (), f64_div = \<lambda>_ _. (), f64_ge = \<lambda>_ _. True, f64_fixed = \<lambda>_ _. ''0'', f64_parse = \<lambda>_. None,
     f64_show = \<lambda>_. ''0'', f64_is_finite = \<lambda>_. True, f64_is_whole = \<lambda>_. True, f64_to_i64 = \<lambda>_. 0\<rparr>"

definition sample_template :: "string list" where
  "sample_template = [''/bin/echo'', ''{alert.title}: {schedule.definition_revision}'']"

definition sample_context :: "unit json" where
  "sample_context = JObject [(''alert'', JObject [(''title'', JString ''a b''), (''detail'', JNull)]),
     (''schedule'', JObject [(''definition_revision'', JInt 4)])]"

lemma sample_template_parts:
  "\<not> contains_template_syntax ''/bin/echo''" "trim ''/bin/echo'' = ''/bin/echo''"
  "validate_direct_scalar_template ''{alert.title}: {schedule.definition_revision}'' = Inr ()"
  "render_direct_scalar_template sample_f64 ''/bin/echo'' sample_context = Inr ''/bin/echo''"
  "render_direct_scalar_template sample_f64 ''{alert.title}: {schedule.definition_revision}'' sample_context = Inr ''a b: 4''"
  by code_simp+

lemma sample_template_valid: "validate_alert_event_argv_template (Some sample_template) = Inr ()"
  using sample_template_parts
  by (simp add: validate_alert_event_argv_template_def effective_template_def sample_template_def argv_element_def
      ALERT_EVENT_ARGV_MAX_ELEMENTS_def ALERT_EVENT_ARGV_MAX_BYTES_def ALERT_EVENT_ARGV_MAX_ELEMENT_BYTES_def)

lemma sample_rendered:
  "render_alert_event_argv_template sample_f64 (Some sample_template) sample_context = Inr [''/bin/echo'', ''a b: 4'']"
  using sample_template_valid sample_template_parts
  by (simp add: render_alert_event_argv_template_def effective_template_def sample_template_def validate_rendered_argv_def argv_element_def
      ALERT_EVENT_ARGV_MAX_ELEMENTS_def ALERT_EVENT_ARGV_MAX_BYTES_def ALERT_EVENT_ARGV_MAX_ELEMENT_BYTES_def)

theorem arguments_keep_boundaries_witness:
  "render_alert_event_argv_template sample_f64 (Some sample_template) sample_context = Inr [''/bin/echo'', ''a b: 4'']
    \<and> hd [''/bin/echo'', ''a b: 4''] = hd (effective_template (Some sample_template))
    \<and> length [''/bin/echo'', ''a b: 4''] \<le> ALERT_EVENT_ARGV_MAX_ELEMENTS"
  using arguments_keep_boundaries [OF sample_rendered] sample_rendered by blast

definition other_context :: "unit json" where
  "other_context = JObject [(''alert'', JObject [(''title'', JString ''a b''), (''detail'', JString ''x'')]),
     (''schedule'', JObject [(''definition_revision'', JInt 4)])]"

lemma sample_uses:
  assumes "alert_event_argv_template_uses_path (Some sample_template) path = Inr True"
  shows "path_value sample_context path = path_value other_context path"
proof -
  have "template_parts ''/bin/echo'' = [Literal ''/bin/echo'']"
    "template_parts ''{alert.title}: {schedule.definition_revision}''
      = [Literal [], Placeholder ''alert.title'', Literal '': '', Placeholder ''schedule.definition_revision'', Literal []]"
    by code_simp+
  then have "path = ''alert.title'' \<or> path = ''schedule.definition_revision''"
    using assms unfolding uses_path_exact [OF sample_template_valid] by (simp add: effective_template_def sample_template_def)
  moreover have "path_value sample_context ''alert.title'' = path_value other_context ''alert.title''"
    "path_value sample_context ''schedule.definition_revision'' = path_value other_context ''schedule.definition_revision''"
    by code_simp+
  ultimately show ?thesis by (elim disjE) simp_all
qed

theorem rendering_reads_used_paths_witness:
  "sample_context \<noteq> other_context
    \<and> render_alert_event_argv_template sample_f64 (Some sample_template) sample_context
      = render_alert_event_argv_template sample_f64 (Some sample_template) other_context"
proof
  show "sample_context \<noteq> other_context" by (simp add: sample_context_def other_context_def)
  show "render_alert_event_argv_template sample_f64 (Some sample_template) sample_context
      = render_alert_event_argv_template sample_f64 (Some sample_template) other_context"
    by (rule rendering_reads_used_paths) (use sample_uses in blast)
qed

end
