(* ===== verification/Ospf_Cost.thy ===== *)
theory Ospf_Cost
  imports Complex_Main Vps_Rules_Safety
begin

section \<open>Routing costs of a tunnel\<close>

text \<open>
  The integer part of \<open>common/src/network/network_cost.rs\<close>: the offset, the factor, the grid and the bounds that an end of a
  tunnel applies to a measured cost. Offset and factor are floating-point numbers that take part as
  the decimal numbers they are printed as, in integers of any size. A failure of \<open>expect\<close> is \<open>None\<close>. The measured
  cost itself is floating-point arithmetic and not modelled.
\<close>

datatype tunnel_endpoint_side = LeftSide | RightSide

datatype ospf_control_mode = Reviewed | Automatic

record 'f ospf_cost_policy =
  latency_weight :: 'f
  loss_weight :: 'f
  bandwidth_weight :: 'f
  preference_bias :: 'f
  min_cost :: u16
  max_cost :: u16

record 'f tunnel_ospf_config =
  oc_mode :: ospf_control_mode
  planned_latency_ms :: 'f
  planned_packet_loss_ratio :: 'f
  preference :: 'f
  left_cost_offset :: 'f
  right_cost_offset :: 'f
  left_cost_multiplier :: 'f
  right_cost_multiplier :: 'f
  cost_floor :: u16
  oc_policy :: "'f ospf_cost_policy"
  min_cost_delta :: u16
  healthy_windows :: u8
  left_adapter_definition_id :: "string option"
  right_adapter_definition_id :: "string option"
  legacy_cost_wire :: bool

definition finite_or :: "'f f64_ops \<Rightarrow> 'f \<Rightarrow> 'f \<Rightarrow> 'f" where
  "finite_or f v fallback = (if f64_is_finite f v then v else fallback)"

text \<open>\<open>BigInt::parse_bytes\<close> in base ten.\<close>

definition parse_bytes :: "string \<Rightarrow> int option" where
  "parse_bytes s =
     (let negative = starts_with s ''-''; ds = (if negative then drop 1 s else s) in
      if ds = [] then None else map_option (\<lambda>n. if negative then - int n else int n) (digits_value 0 ds))"

definition mantissa_and_exponent :: "string \<Rightarrow> (string \<times> int) option" where
  "mantissa_and_exponent text =
     (case split_once CHR ''e'' text of
        None \<Rightarrow> Some (text, 0)
      | Some (mantissa, exponent) \<Rightarrow> map_option (Pair mantissa) (parse_signed (- (2 ^ 31)) (2 ^ 31 - 1) exponent))"

definition fractional_digits :: "string \<Rightarrow> int" where
  "fractional_digits mantissa =
     (case split_once CHR ''.'' mantissa of None \<Rightarrow> 0 | Some (_, fraction) \<Rightarrow> int (length fraction))"

definition decimal_ratio :: "'f f64_ops \<Rightarrow> 'f \<Rightarrow> (int \<times> int) option" where
  "decimal_ratio f v =
     Option.bind (mantissa_and_exponent (f64_show f v)) (\<lambda>(mantissa, exponent).
     Option.bind (parse_bytes (filter (\<lambda>c. c \<noteq> CHR ''.'') mantissa)) (\<lambda>coefficient.
     let exponent = exponent - fractional_digits mantissa in
     Some (if exponent \<ge> 0 then (coefficient * 10 ^ nat exponent, 1) else (coefficient, 10 ^ nat (- exponent)))))"

definition adjusted_ospf_cost :: "'f f64_ops \<Rightarrow> u16 \<Rightarrow> 'f tunnel_ospf_config \<Rightarrow> tunnel_endpoint_side \<Rightarrow> u16 option" where
  "adjusted_ospf_cost f base config side =
     (let (offset, multiplier) = (case side of
            LeftSide \<Rightarrow> (left_cost_offset config, left_cost_multiplier config)
          | RightSide \<Rightarrow> (right_cost_offset config, right_cost_multiplier config)) in
      Option.bind (decimal_ratio f (finite_or f offset (f64_of_int f 0))) (\<lambda>(offset_numerator, offset_denominator).
      let multiplier = (if f64_is_finite f multiplier \<and> \<not> f64_ge f (f64_of_int f 0) multiplier then multiplier else f64_of_int f 1) in
      Option.bind (decimal_ratio f multiplier) (\<lambda>(multiplier_numerator, multiplier_denominator).
      let numerator = (uint base * offset_denominator + offset_numerator) * multiplier_numerator;
          denominator = offset_denominator * multiplier_denominator;
          lo = min (min_cost (oc_policy config)) (max_cost (oc_policy config));
          hi = max (max_cost (oc_policy config)) (min_cost (oc_policy config)) in
      if numerator \<le> 0 then Some lo
      else let step = uint (max (cost_floor config) 1);
               floored = numerator div (denominator * step) * step in
        if floored \<le> uint lo then Some lo
        else if floored \<ge> uint hi then Some hi
        else if 0 \<le> floored \<and> floored \<le> 65535 then Some (of_int floored) else None)))"

definition ospf_cost_needs_floor_alignment :: "u16 \<Rightarrow> 'f tunnel_ospf_config \<Rightarrow> bool" where
  "ospf_cost_needs_floor_alignment cost config \<longleftrightarrow>
     cost \<noteq> min_cost (oc_policy config) \<and> cost \<noteq> max_cost (oc_policy config) \<and> \<not> (cost mod max (cost_floor config) 1 = 0)"

definition routing_cost_update_privilege_payload ::
    "(uuid \<Rightarrow> string) \<Rightarrow> uuid \<Rightarrow> int \<Rightarrow> string \<Rightarrow> u16 option \<Rightarrow> u16 option \<Rightarrow> u16 \<Rightarrow> u16 \<Rightarrow> string \<Rightarrow> string \<Rightarrow> string" where
  "routing_cost_update_privilege_payload show_uuid plan_id plan_revision recommendation_id left_current_cost right_current_cost
      left_desired_cost right_desired_cost left_adapter_definition_hash right_adapter_definition_hash =
     join_with ''|'' [''v4'', show_uuid plan_id, show_int plan_revision, trim recommendation_id,
       (case left_current_cost of None \<Rightarrow> ''none'' | Some v \<Rightarrow> show_nat (unat v)),
       (case right_current_cost of None \<Rightarrow> ''none'' | Some v \<Rightarrow> show_nat (unat v)),
       show_nat (unat left_desired_cost), show_nat (unat right_desired_cost),
       left_adapter_definition_hash, right_adapter_definition_hash]"

subsection \<open>Decimal texts\<close>

text \<open>The texts \<open>serde_json\<close> prints for a finite number, and the number they denote.\<close>

record decimal =
  dec_negative :: bool
  dec_whole :: string
  dec_fraction :: string
  dec_exponent :: int

definition show_decimal :: "decimal \<Rightarrow> string" where
  "show_decimal d = (if dec_negative d then ''-'' else []) @ dec_whole d
     @ (if dec_fraction d = [] then [] else ''.'' @ dec_fraction d) @ (if dec_exponent d = 0 then [] else ''e'' @ show_int (dec_exponent d))"

definition decimal_ok :: "decimal \<Rightarrow> bool" where
  "decimal_ok d \<longleftrightarrow> all_digits (dec_whole d) \<and> dec_whole d \<noteq> [] \<and> all_digits (dec_fraction d)
     \<and> length (dec_fraction d) \<le> 400 \<and> \<bar>dec_exponent d\<bar> \<le> 400"

definition decimal_rat :: "decimal \<Rightarrow> rat" where
  "decimal_rat d = (if dec_negative d then -1 else 1)
     * (of_nat (number_of (dec_whole d)) + of_nat (number_of (dec_fraction d)) / 10 ^ length (dec_fraction d)) * 10 powi dec_exponent d"

text \<open>Printing is exact up to the shortest decimal number \<open>val\<close> that stands for the value, and keeps the order.\<close>

definition f64_documented :: "'f f64_ops \<Rightarrow> ('f \<Rightarrow> rat) \<Rightarrow> bool" where
  "f64_documented f val \<longleftrightarrow>
     (\<forall>x. f64_is_finite f x \<longrightarrow> (\<exists>d. decimal_ok d \<and> f64_show f x = show_decimal d \<and> decimal_rat d = val x))
     \<and> (\<forall>x y. f64_is_finite f x \<and> f64_is_finite f y \<longrightarrow> (f64_ge f x y \<longleftrightarrow> val x \<ge> val y))
     \<and> (\<forall>i\<in>{0, 1}. f64_is_finite f (f64_of_int f i) \<and> val (f64_of_int f i) = of_int i)"

lemma digits_plain: "all_digits ds \<Longrightarrow> c \<in> set ds \<Longrightarrow> c \<noteq> CHR ''e'' \<and> c \<noteq> CHR ''.'' \<and> c \<noteq> CHR ''-''"
  by (auto simp: all_digits_def list_all_iff is_ascii_digit_def)

lemma parse_bytes_digits:
  assumes "all_digits ds" and "ds \<noteq> []"
  shows "parse_bytes ((if negative then ''-'' else []) @ ds) = Some ((if negative then -1 else 1) * int (number_of ds))"
proof -
  have "digits_value 0 ds = Some (number_of ds)" using assms(1) by (simp add: digits_value_number all_digits_def)
  moreover have "\<not> starts_with ds ''-''" using assms by (cases ds) (auto dest: digits_plain)
  ultimately show ?thesis using assms(2) by (simp add: parse_bytes_def)
qed

lemma parse_shown_int: "lo \<le> i \<Longrightarrow> i \<le> hi \<Longrightarrow> parse_signed lo hi (show_int i) = Some i"
  by (auto simp: parse_signed_def show_int_def show_nat_no_sign digits_value_show_nat)

lemma decimal_text_split:
  assumes "decimal_ok d"
  defines "mantissa \<equiv> (if dec_negative d then ''-'' else []) @ dec_whole d @ (if dec_fraction d = [] then [] else ''.'' @ dec_fraction d)"
  shows "split_once CHR ''e'' (show_decimal d) = (if dec_exponent d = 0 then None else Some (mantissa, show_int (dec_exponent d)))"
    and "dec_exponent d = 0 \<Longrightarrow> show_decimal d = mantissa"
    and "fractional_digits mantissa = int (length (dec_fraction d))"
    and "filter (\<lambda>c. c \<noteq> CHR ''.'') mantissa = (if dec_negative d then ''-'' else []) @ dec_whole d @ dec_fraction d"
proof -
  have digits: "all_digits (dec_whole d)" "all_digits (dec_fraction d)" using assms(1) by (simp_all add: decimal_ok_def)
  have plain: "CHR ''e'' \<notin> set mantissa"
    using digits_plain [OF digits(1)] digits_plain [OF digits(2)] by (auto simp: mantissa_def)
  show "dec_exponent d = 0 \<Longrightarrow> show_decimal d = mantissa" by (simp add: show_decimal_def mantissa_def)
  show "split_once CHR ''e'' (show_decimal d) = (if dec_exponent d = 0 then None else Some (mantissa, show_int (dec_exponent d)))"
  proof (cases "dec_exponent d = 0")
    case False
    then have "show_decimal d = mantissa @ CHR ''e'' # show_int (dec_exponent d)" by (simp add: show_decimal_def mantissa_def)
    then show ?thesis using plain False by (simp add: split_once_Some)
  qed (use plain in \<open>simp add: show_decimal_def mantissa_def split_once_None\<close>)
  have "filter (\<lambda>c. c \<noteq> CHR ''.'') (dec_whole d) = dec_whole d" "filter (\<lambda>c. c \<noteq> CHR ''.'') (dec_fraction d) = dec_fraction d"
    using digits_plain [OF digits(1)] digits_plain [OF digits(2)] by (auto simp: filter_id_conv)
  then show "filter (\<lambda>c. c \<noteq> CHR ''.'') mantissa = (if dec_negative d then ''-'' else []) @ dec_whole d @ dec_fraction d"
    by (simp add: mantissa_def)
  show "fractional_digits mantissa = int (length (dec_fraction d))"
  proof (cases "dec_fraction d = []")
    case True
    then have "split_once CHR ''.'' mantissa = None"
      using digits_plain [OF digits(1)] by (auto simp: mantissa_def split_once_None)
    then show ?thesis using True by (simp add: fractional_digits_def)
  next
    case False
    then have "split_once CHR ''.'' mantissa = Some ((if dec_negative d then ''-'' else []) @ dec_whole d, dec_fraction d)"
      using digits_plain [OF digits(1)] by (auto simp: mantissa_def split_once_Some)
    then show ?thesis by (simp add: fractional_digits_def)
  qed
qed

lemma decimal_rat_coefficient:
  "decimal_rat d = of_int ((if dec_negative d then -1 else 1) * int (number_of (dec_whole d @ dec_fraction d)))
     * 10 powi (dec_exponent d - int (length (dec_fraction d)))"
  by (simp add: decimal_rat_def number_of_append power_int_diff divide_simps)

lemma ratio_of_scaled:
  "(if 0 \<le> e then of_int (c * 10 ^ nat e) / of_int 1 else of_int c / of_int (10 ^ nat (- e)) :: rat) = of_int c * 10 powi e"
proof (cases "0 \<le> e")
  case False
  then have "(10 :: rat) powi e = inverse (10 ^ nat (- e))" unfolding power_int_def by (simp only: if_False power_inverse)
  then show ?thesis using False unfolding divide_inverse by (simp only: if_False of_int_power of_int_numeral)
qed (simp only: if_True power_int_def of_int_mult of_int_power of_int_numeral of_int_1 div_by_1)

lemma decimal_ratio_eq:
  assumes "f64_show f x = show_decimal d" and ok: "decimal_ok d"
    and "c = (if dec_negative d then -1 else 1) * int (number_of (dec_whole d @ dec_fraction d))"
    and "e = dec_exponent d - int (length (dec_fraction d))"
  shows "decimal_ratio f x = Some (if e \<ge> 0 then (c * 10 ^ nat e, 1) else (c, 10 ^ nat (- e)))"
proof -
  have "all_digits (dec_whole d @ dec_fraction d)" "dec_whole d @ dec_fraction d \<noteq> []"
    using ok by (simp_all add: decimal_ok_def all_digits_def)
  note coefficient = parse_bytes_digits [OF this, of "dec_negative d", folded assms(3)]
  let ?mantissa = "(if dec_negative d then ''-'' else []) @ dec_whole d @ (if dec_fraction d = [] then [] else ''.'' @ dec_fraction d)"
  have exponent: "parse_signed (- (2 ^ 31)) (2 ^ 31 - 1) (show_int (dec_exponent d)) = Some (dec_exponent d)"
    using ok by (intro parse_shown_int) (auto simp: decimal_ok_def)
  have "mantissa_and_exponent (show_decimal d) = Some (?mantissa, dec_exponent d)"
  proof (cases "dec_exponent d = 0")
    case True
    have "split_once CHR ''e'' (show_decimal d) = None" using decimal_text_split(1) [OF ok] True by simp
    then show ?thesis unfolding mantissa_and_exponent_def decimal_text_split(2) [OF ok True] by (simp only: option.case True)
  next
    case False
    have "split_once CHR ''e'' (show_decimal d) = Some (?mantissa, show_int (dec_exponent d))"
      using decimal_text_split(1) [OF ok] False by simp
    then show ?thesis unfolding mantissa_and_exponent_def by (simp only: option.case prod.case exponent option.map)
  qed
  then show ?thesis
    unfolding decimal_ratio_def assms(1) Let_def
    by (simp only: bind.bind_lunit prod.case decimal_text_split(3,4) [OF ok] coefficient assms(4))
qed

lemma decimal_ratio_exact:
  assumes "f64_show f x = show_decimal d" and "decimal_ok d"
  obtains n m where "decimal_ratio f x = Some (n, m)" and "0 < m" and "of_int n / of_int m = decimal_rat d"
proof -
  define c e where ce: "c = (if dec_negative d then -1 else 1) * int (number_of (dec_whole d @ dec_fraction d))"
    "e = dec_exponent d - int (length (dec_fraction d))"
  note ratio = decimal_ratio_eq [OF assms ce]
  have "decimal_rat d = of_int c * 10 powi e" unfolding ce by (rule decimal_rat_coefficient)
  then have "(if 0 \<le> e then of_int (c * 10 ^ nat e) / of_int 1 else of_int c / of_int (10 ^ nat (- e)) :: rat) = decimal_rat d"
    using ratio_of_scaled [of e c] by (simp only:)
  then show thesis using ratio that by (cases "0 \<le> e") (simp_all only: if_True if_False, auto)
qed

definition cost_offset :: "'f f64_ops \<Rightarrow> 'f tunnel_ospf_config \<Rightarrow> tunnel_endpoint_side \<Rightarrow> 'f" where
  "cost_offset f config side =
     finite_or f (case side of LeftSide \<Rightarrow> left_cost_offset config | RightSide \<Rightarrow> right_cost_offset config) (f64_of_int f 0)"

definition cost_multiplier :: "'f f64_ops \<Rightarrow> 'f tunnel_ospf_config \<Rightarrow> tunnel_endpoint_side \<Rightarrow> 'f" where
  "cost_multiplier f config side =
     (let multiplier = (case side of LeftSide \<Rightarrow> left_cost_multiplier config | RightSide \<Rightarrow> right_cost_multiplier config) in
      if f64_is_finite f multiplier \<and> \<not> f64_ge f (f64_of_int f 0) multiplier then multiplier else f64_of_int f 1)"

lemma floored_bounds:
  fixes numerator denominator step lo hi :: int
  assumes "0 < denominator" and "0 < step" and "0 \<le> lo" and "lo \<le> hi"
  shows "(if numerator \<le> 0 then lo else max lo (min hi (numerator div (denominator * step) * step)))
    = max lo (min hi (step * \<lfloor>(of_int numerator / of_int denominator :: rat) / of_int step\<rfloor>))"
proof -
  have pos: "0 < denominator * step" using assms(1,2) by (rule mult_pos_pos)
  have "\<lfloor>(of_int numerator / of_int denominator :: rat) / of_int step\<rfloor> = numerator div (denominator * step)"
    unfolding divide_divide_eq_left of_int_mult [symmetric] by (rule floor_divide_of_int_eq)
  moreover have "step * (numerator div (denominator * step)) \<le> 0" if "numerator \<le> 0"
    using that pos assms(2) by (intro mult_nonneg_nonpos) (auto simp: div_nonpos_pos_le0)
  ultimately show ?thesis using assms(3,4) by (auto simp: mult.commute)
qed

lemma documented_ratio:
  assumes "f64_documented f val" and "f64_is_finite f x"
  obtains n m where "decimal_ratio f x = Some (n, m)" and "0 < m" and "of_int n / of_int m = val x"
proof -
  obtain d where d: "decimal_ok d" "f64_show f x = show_decimal d" "decimal_rat d = val x"
    using assms unfolding f64_documented_def by blast
  show thesis by (rule decimal_ratio_exact [OF d(2,1)]) (rule that, assumption+, simp add: d(3))
qed

lemma cost_offset_finite: "f64_documented f val \<Longrightarrow> f64_is_finite f (cost_offset f config side)"
  by (simp add: cost_offset_def finite_or_def f64_documented_def)

lemma cost_multiplier_positive:
  assumes "f64_documented f val"
  shows "f64_is_finite f (cost_multiplier f config side)" and "0 < val (cost_multiplier f config side)"
  using assms by (auto simp: cost_multiplier_def Let_def f64_documented_def)

lemma uint_min_max: "uint (min a b) = min (uint a) (uint b)" "uint (max a b) = max (uint a) (uint b)"
  by (simp_all add: min_def max_def word_le_def)

lemma uint_of_u16: "0 \<le> k \<Longrightarrow> k \<le> 65535 \<Longrightarrow> uint (of_int k :: u16) = k"
  by (simp add: unsigned_of_int take_bit_int_eq_self)

text \<open>The last step: the value on the grid within the bounds, and where it lies.\<close>

lemma clamped_cost:
  fixes floored :: int and lo hi :: u16
  assumes "lo \<le> hi" and "0 \<le> floored"
  obtains cost where
    "(if floored \<le> uint lo then Some lo else if floored \<ge> uint hi then Some hi
      else if 0 \<le> floored \<and> floored \<le> 65535 then Some (of_int floored) else None) = Some cost"
    and "uint cost = max (uint lo) (min (uint hi) floored)"
    and "cost = lo \<or> cost = hi \<or> uint cost = floored"
proof -
  have "uint lo \<le> uint hi" using assms(1) by (simp add: word_le_def)
  moreover have "uint hi \<le> 65535" using uint_lt2p [of hi] by simp
  ultimately show thesis
    using that [of lo] that [of hi] that [of "of_int floored"] uint_of_u16 [of floored] assms(2)
    by (cases "floored \<le> uint lo"; cases "floored \<ge> uint hi") simp_all
qed

lemma aligned_cost:
  assumes "cost = min_cost (oc_policy config) \<or> cost = max_cost (oc_policy config) \<or> uint cost = k * uint (max (cost_floor config) 1)"
  shows "\<not> ospf_cost_needs_floor_alignment cost config"
proof -
  have "cost mod max (cost_floor config) 1 = 0" if "uint cost = k * uint (max (cost_floor config) 1)"
    using that by (simp add: word_uint_eq_iff uint_mod)
  then show ?thesis using assms by (auto simp: ospf_cost_needs_floor_alignment_def)
qed

text \<open>
  (C29) The adjusted cost is exact: it is the decimal value of offset and factor applied to the measured cost, rounded down to the
  grid and brought within the bounds, without any rounding on the way. Such a cost never needs to be aligned again.
\<close>

theorem adjusted_cost_exact:
  assumes "f64_documented f val"
    and "lo = min (uint (min_cost (oc_policy config))) (uint (max_cost (oc_policy config)))"
    and "hi = max (uint (min_cost (oc_policy config))) (uint (max_cost (oc_policy config)))"
    and "step = max (uint (cost_floor config)) 1"
  shows "\<exists>cost. adjusted_ospf_cost f base config side = Some cost
    \<and> uint cost = max lo (min hi (step * \<lfloor>(of_int (uint base) + val (cost_offset f config side))
        * val (cost_multiplier f config side) / of_int step\<rfloor>))
    \<and> \<not> ospf_cost_needs_floor_alignment cost config"
proof -
  define l h where lh: "l = min (min_cost (oc_policy config)) (max_cost (oc_policy config))"
    "h = max (max_cost (oc_policy config)) (min_cost (oc_policy config))"
  define wide where wide: "wide = uint (max (cost_floor config) 1)"
  obtain a b where ab: "decimal_ratio f (cost_offset f config side) = Some (a, b)" "0 < b" "of_int a / of_int b = val (cost_offset f config side)"
    using documented_ratio [OF assms(1) cost_offset_finite [OF assms(1)]] by blast
  obtain c d where cd: "decimal_ratio f (cost_multiplier f config side) = Some (c, d)" "0 < d"
      "of_int c / of_int d = val (cost_multiplier f config side)"
    using documented_ratio [OF assms(1) cost_multiplier_positive(1) [OF assms(1)]] by blast
  let ?n = "(uint base * b + a) * c"
  let ?floored = "?n div (b * d * wide) * wide"
  have eqs: "uint l = lo" "uint h = hi" "wide = step" "0 < wide"
    using assms(2-4) by (simp_all add: lh wide uint_min_max max.commute)
  have order: "l \<le> h" unfolding lh by (rule order_trans [OF min.cobounded2 max.cobounded1])
  have exact: "(of_int (uint base) + val (cost_offset f config side)) * val (cost_multiplier f config side) = (of_int ?n / of_int (b * d) :: rat)"
    unfolding ab(3) [symmetric] cd(3) [symmetric] using ab(2) cd(2) by (simp add: field_simps)
  have adjusted: "adjusted_ospf_cost f base config side = (if ?n \<le> 0 then Some l else if ?floored \<le> uint l then Some l
      else if ?floored \<ge> uint h then Some h else if 0 \<le> ?floored \<and> ?floored \<le> 65535 then Some (of_int ?floored) else None)"
    using ab(1) cd(1) unfolding adjusted_ospf_cost_def cost_offset_def cost_multiplier_def lh wide
    by (cases side) (simp_all add: Let_def)
  define n where "n = ?n"
  define floored where "floored = n div (b * d * wide) * wide"
  note adjusted = adjusted [folded n_def, folded floored_def] and exact = exact [folded n_def]
  obtain cost where cost: "adjusted_ospf_cost f base config side = Some cost"
    "uint cost = (if n \<le> 0 then lo else max lo (min hi floored))" "cost = l \<or> cost = h \<or> uint cost = floored"
  proof (cases "n \<le> 0")
    case True
    then show thesis using that [of l] adjusted eqs(1) by simp
  next
    case False
    then have "0 \<le> floored" using ab(2) cd(2) eqs(4) by (simp add: floored_def pos_imp_zdiv_nonneg_iff)
    then show thesis
    proof (rule clamped_cost [OF order])
      fix cost
      assume "(if floored \<le> uint l then Some l else if floored \<ge> uint h then Some h
          else if 0 \<le> floored \<and> floored \<le> 65535 then Some (of_int floored) else None) = Some cost"
        and "uint cost = max (uint l) (min (uint h) floored)" and "cost = l \<or> cost = h \<or> uint cost = floored"
      then show thesis using that [of cost] False adjusted eqs(1,2) by simp
    qed
  qed
  have "\<not> ospf_cost_needs_floor_alignment cost config"
  proof (rule aligned_cost)
    show "cost = min_cost (oc_policy config) \<or> cost = max_cost (oc_policy config)
        \<or> uint cost = n div (b * d * wide) * uint (max (cost_floor config) 1)"
      using cost(3) unfolding floored_def wide lh min_def max_def by (auto split: if_splits)
  qed
  moreover have "uint cost = max lo (min hi (step * \<lfloor>(of_int n / of_int (b * d) :: rat) / of_int step\<rfloor>))"
  proof -
    have "0 < b * d" "0 \<le> lo" "lo \<le> hi" using ab(2) cd(2) assms(2,3) by simp_all
    from floored_bounds [OF this(1) eqs(4) this(2,3), of n] show ?thesis
      using cost(2) unfolding floored_def eqs(3) by (simp only:)
  qed
  ultimately show ?thesis using cost(1) unfolding exact by blast
qed


subsection \<open>The signed text of an update\<close>

lemma join_with_no_delim:
  assumes "\<forall>p\<in>set ps. d \<notin> set p" and "ps \<noteq> []"
  shows "split_on d (join_with [d] ps) = ps"
  using assms
proof (induction "[d]" ps rule: join_with.induct)
  case (2 p)
  then show ?case by (induction p) auto
next
  case (3 p q ps)
  then have "split_on d (join_with [d] (q # ps)) = q # ps" "d \<notin> set p" by simp_all
  then show ?case by (induction p) auto
qed simp

lemma show_nat_plain: "CHR ''|'' \<notin> set (show_nat n)" "show_nat n \<noteq> ''none''"
proof -
  show "CHR ''|'' \<notin> set (show_nat n)" using show_nat_digits [of "CHR ''|''" n] by (auto simp: is_ascii_digit_def)
  have "CHR ''n'' \<notin> set (show_nat n)" using show_nat_digits [of "CHR ''n''" n] by (auto simp: is_ascii_digit_def)
  then show "show_nat n \<noteq> ''none''" by auto
qed

lemma show_int_plain: "CHR ''|'' \<notin> set (show_int i)"
  by (simp add: show_int_def show_nat_plain)

lemma show_int_inj: "show_int i = show_int j \<longleftrightarrow> i = j"
proof -
  have "show_nat n \<noteq> CHR ''-'' # s" for n s using show_nat_no_sign(2) [of n] by auto
  then show ?thesis by (auto simp: show_int_def show_nat_inj split: if_splits) (metis nat_eq_iff2 not_less)
qed

definition cost_text :: "u16 option \<Rightarrow> string" where
  "cost_text cost = (case cost of None \<Rightarrow> ''none'' | Some v \<Rightarrow> show_nat (unat v))"

lemma cost_text_plain: "CHR ''|'' \<notin> set (cost_text cost)"
  by (auto simp: cost_text_def show_nat_plain split: option.split)

lemma cost_text_inj: "cost_text a = cost_text b \<longleftrightarrow> a = b"
  by (auto simp: cost_text_def show_nat_inj show_nat_plain show_nat_plain(2) [symmetric] word_unat_eq_iff split: option.splits)


subsection \<open>Whole numbers\<close>

definition whole_f64 :: "int f64_ops" where
  "whole_f64 = \<lparr>f64_of_int = \<lambda>i. i, f64_div = (div), f64_ge = (\<lambda>x y. y \<le> x), f64_fixed = (\<lambda>_. show_int), f64_parse = \<lambda>_. None,
     f64_show = (\<lambda>x. show_int x @ ''.0''), f64_is_finite = \<lambda>_. True, f64_is_whole = \<lambda>_. True, f64_to_i64 = \<lambda>x. x\<rparr>"

lemma number_of_show_nat: "number_of (show_nat n) = n" "all_digits (show_nat n)"
proof -
  show "all_digits (show_nat n)" using show_nat_digits by (simp add: all_digits_def list_all_iff)
  then show "number_of (show_nat n) = n"
    using digits_value_show_nat [of n] by (simp add: digits_value_number all_digits_def)
qed

lemma whole_f64_documented: "f64_documented whole_f64 of_int"
proof -
  have zero: "number_of ''0'' = 0" "all_digits ''0''" by code_simp+
  have "\<exists>d. decimal_ok d \<and> show_int x @ ''.0'' = show_decimal d \<and> decimal_rat d = of_int x" for x
    by (rule exI [of _ "\<lparr>dec_negative = x < 0, dec_whole = show_nat (nat \<bar>x\<bar>), dec_fraction = ''0'', dec_exponent = 0\<rparr>"])
      (simp add: decimal_ok_def show_decimal_def decimal_rat_def show_int_def number_of_show_nat zero digit_value_def abs_if)
  then show ?thesis by (simp add: f64_documented_def whole_f64_def)
qed

definition sample_ospf :: "int tunnel_ospf_config" where
  "sample_ospf = \<lparr>oc_mode = Automatic, planned_latency_ms = 1, planned_packet_loss_ratio = 0, preference = 1, left_cost_offset = 7,
     right_cost_offset = 0, left_cost_multiplier = 3, right_cost_multiplier = 1, cost_floor = 10,
     oc_policy = \<lparr>latency_weight = 1, loss_weight = 400, bandwidth_weight = 10, preference_bias = 1, min_cost = 5, max_cost = 65535\<rparr>,
     min_cost_delta = 1, healthy_windows = 1, left_adapter_definition_id = None, right_adapter_definition_id = None,
     legacy_cost_wire = False\<rparr>"

theorem adjusted_cost_exact_witness:
  "\<exists>cost. adjusted_ospf_cost whole_f64 (100 :: u16) sample_ospf LeftSide = Some cost \<and> uint cost = 320
    \<and> \<not> ospf_cost_needs_floor_alignment cost sample_ospf"
proof -
  have "cost_offset whole_f64 sample_ospf LeftSide = 7" "cost_multiplier whole_f64 sample_ospf LeftSide = 3"
    by (simp_all add: cost_offset_def cost_multiplier_def finite_or_def whole_f64_def sample_ospf_def)
  moreover have "\<lfloor>(100 + 7) * 3 / (10 :: rat)\<rfloor> = 32" by (simp add: floor_eq_iff)
  ultimately show ?thesis
    using adjusted_cost_exact [OF whole_f64_documented refl refl refl, of "100 :: u16" sample_ospf LeftSide]
    by (simp add: sample_ospf_def)
qed

definition plain_uuid :: "uuid \<Rightarrow> string" where
  "plain_uuid u = show_nat (unat u)"


end
