(* ===== verification/Spec2Isabelle.thy ===== *)
theory Spec2Isabelle
  imports Transport Gateway_Safety Gateway_Http Port_Safety Net_Safety Tag_Order Vps_Rules_Safety Expression_Safety File_Push_Safety
    Alert_Argv Ospf_Cost
begin

text \<open>
  vpsman is a control plane for a fleet of Linux machines. An agent on every machine keeps an encrypted connection to a
  gateway. The API server stores jobs, schedules and configuration in a database and asks the gateway to forward commands; a worker
  runs schedules; operators use a web frontend or the command line client \<open>vpsctl\<close>. Shared rules and formats
  are in \<open>crates/common\<close>. The development models the parts whose behaviour is decided by the code of the repository itself:
  the wire format and the transport, the gateway's shared state and control endpoint, resumable uploads on the agent, and
  the validators, parsers and planners of \<open>crates/common\<close>.

  \<^bold>\<open>Conventions.\<close> A struct is a record and an enum a datatype. A \<open>Result\<close> is a sum with the error on the left, a
  panic that the code can reach is an option. Machine integers are words with their wrap-around, saturating and checked operations;
  lengths are natural numbers. A string is the list of its UTF-8 bytes, a hash map an association list or a function.
  State is passed and returned, time and random values are arguments. Crates outside the repository are parameters: \<open>crypto\<close>
  (HMAC, SHA-256, hexadecimal), \<open>base64_lib\<close>, \<open>ipnet_lib\<close>, \<open>f64_ops\<close> (floating point), \<open>regex_lib\<close>,
  the Noise and LZ4 libraries, and the texts of UUIDs and JSON. What a theorem relies on of them is a named
  hypothesis (\<open>base64_documented\<close>, \<open>digest_documented\<close>, \<open>f64_documented\<close> and the like), and a
  concrete function in the witness satisfies it.

  \<^bold>\<open>Theories, sources and what is shown.\<close>
  \<^item> \<open>Prelude\<close>, \<open>Rust_Str\<close>, \<open>Ip_Addr\<close>, \<open>Sweep\<close>: what the code uses of the standard library. The locale
    \<open>comparator\<close> is the contract of an ordering function and \<open>sweep\<close> that of a search for clashes between neighbours of a sorted list;
    they are interpreted on the standard order, the tag order and both validators of port forwarding.
  \<^item> \<open>Tlv\<close> (\<open>protocol/tlv.rs\<close>): encoding and decoding of frames are inverse, compression is transparent. The
    locale \<open>frame_codec\<close> is what the transport relies on.
  \<^item> \<open>Transport\<close> (\<open>protocol/transport.rs\<close>): frames arrive as they were written, however the network splits the bytes; a
    cancelled read loses nothing; no frame is delivered twice; the handshake authenticates the peer.
  \<^item> \<open>Auth\<close> (\<open>security/auth.rs\<close>): the exact condition of acceptance, and that no assertion is accepted
    twice. The locale \<open>replay_guard\<close> is the contract of the cache. The cache goes by the text of a nonce, so that an
    assertion with the letters of its nonce in the other case is accepted again.
  \<^item> \<open>Gateway_State\<close>, \<open>Gateway_Control\<close> (\<open>gateway/src/runtime/state.rs\<close>, \<open>transport/control.rs\<close>): the shared state
    and every operation on it, with the waiting of a dispatch as a sequence of rounds.
  \<^item> \<open>Gateway_Fences\<close>, \<open>Gateway_Safety\<close>: the operations as steps of a transition system, an abstract fence per client and the
    refinement of it; invariants of all reachable states; no command passes a fence, a prepared deletion keeps its
    fence, a retired owner stays out, queued jobs are reported and a failed dispatch leaves no trace.
  \<^item> \<open>Gateway_Http\<close>: the HTTP side of \<open>control.rs\<close>. A request is read however it is split, nothing happens without the
    token, and whatever arrives the state is reached by steps of the transition system.
  \<^item> \<open>Port_Forwarding\<close>, \<open>Port_Safety\<close> (\<open>network/port_forwarding.rs\<close>, \<open>port_forwarding_pools.rs\<close>): valid
    configurations claim no port twice; expressions, pairings and pools are well-formed and translate as intended.
  \<^item> \<open>Net_Allocator\<close>, \<open>Net_Safety\<close> (\<open>network/network_allocator.rs\<close>): the search returns the lowest free subnet or there is
    none, and the endpoints of a tunnel are distinct addresses of a network that overlaps no reservation.
  \<^item> \<open>Ospf_Cost\<close> (\<open>network/network_cost.rs\<close>): the adjusted cost of a tunnel is exact and on its grid, and the signed text of
    an update determines it.
  \<^item> \<open>Tag_Order\<close> (\<open>selection/tag_order.rs\<close>): the natural order is a total order and normalization sorts within blocks.
  \<^item> \<open>Vps_Rules\<close>, \<open>Vps_Rules_Safety\<close> (\<open>config/vps_rules.rs\<close>): sizes are exact, no traffic is counted twice.
  \<^item> \<open>Glob\<close>, \<open>Expression\<close>, \<open>Expression_Eval\<close>, \<open>Expression_Safety\<close> (\<open>selection/expression.rs\<close>,
    \<open>alert_event_expression.rs\<close>): the parser ends, the three-valued verdict agrees with the boolean one, schedules fire on
    lifecycle events only, and an evaluation depends on what the expression refers to.
  \<^item> \<open>Alert_Argv\<close> (\<open>selection/alert_event_argv.rs\<close>): rendering keeps the boundaries of arguments and reads the reported paths only.
  \<^item> \<open>File_Transfer\<close> (\<open>protocol/file_transfer.rs\<close>): files cut into chunks are put together again.
  \<^item> \<open>File_Push\<close>, \<open>File_Push_Safety\<close> (\<open>agent/src/files/file_push.rs\<close>): a commit puts exactly the declared file in place,
    and an upload can be completed after any failures. A digest with white space around it is accepted but never committed.

  \<^bold>\<open>Fuel and bounds.\<close> Loops are total functions with a termination proof, with two exceptions. The parser of expressions calls
  itself through a record of its functions and has fuel \<open>6 * n + 6\<close> for \<open>n\<close> tokens: every token costs at most the six
  levels of the grammar, and \<open>parser_terminates\<close> shows that this is enough for every input and more changes nothing. A dispatch
  takes the list of its rounds, because how long it waits is decided from outside.

  \<^bold>\<open>Not modelled.\<close>
  \<^item> The API server, the worker and most of the client are HTTP handlers over SQL statements: their behaviour is that of PostgreSQL.
  \<^item> The rest of the agent runs programs of the host (package managers, services, tunnels, updates, backups) and reads their output.
    Of the file commands, the one-shot upload needs the account database of the host, and browsing and downloads are walks over
    the file system.
  \<^item> Of \<open>crates/common\<close>: configuration records with range checks of single fields, message templates, the rendering of
    router and tunnel configurations, the measured cost in floating point, metrics, release data.
  \<^item> Sockets, tasks and shutdown of the gateway. Operations on the shared state hold its lock and are single steps.
  \<^item> The file system of an upload is a map from paths to nodes; links to the same file and
    directories that are moved meanwhile are outside of it.
  \<^item> The frontend, the database schema and the scripts.
\<close>

end
